(* ===== verification/Prelude.thy ===== *)
theory Prelude
  imports Main "HOL-Library.Word"
begin

text \<open>
  Shared vocabulary of the development: the machine integer types of Rust, \<open>Result\<close>, panics,
  byte order conversions, decimal and hexadecimal printing, the padding of Rust's formatter, and
  the generic lemmas on them that the component theories use.

  Rust's \<open>uN\<close> is \<open>N word\<close>; \<open>iN\<close> is also \<open>N word\<close>, read with \<open>sint\<close>. \<open>Result<T, E>\<close> is
  \<open>'e + 't\<close> with \<open>Inl\<close> for \<open>Err\<close>. A Rust \<open>String\<close> is \<open>string\<close>: the list of its UTF-8 bytes, one
  \<open>char\<close> for each byte.
\<close>

unbundle bit_operations_syntax

type_synonym u8 = "8 word"
type_synonym u16 = "16 word"
type_synonym u32 = "32 word"
type_synonym u64 = "64 word"
type_synonym i32 = "32 word"
type_synonym i64 = "64 word"
type_synonym bytes = "8 word list"

named_theorems byte_lens \<open>lengths of encoded byte sequences\<close>
named_theorems codec \<open>decoding undoes encoding\<close>

section \<open>Panics and results\<close>

text \<open>
  The ways the modelled code can panic: integer overflow in a build with overflow checks,
  \<open>unwrap\<close> on \<open>None\<close> or \<open>Err\<close>, and initialising the global logger twice.
\<close>

datatype panic = AddOverflow | MulOverflow | UnwrapFailed | LoggerAlreadySet

text \<open>
  Rust's \<open>+\<close> and \<open>*\<close> on integers panic on overflow when overflow checks are on (the \<open>dev\<close> profile)
  and wrap around when they are off (the \<open>release\<close> profile).
\<close>

datatype profile = Dev | Release

definition rust_add :: "profile \<Rightarrow> u64 \<Rightarrow> u64 \<Rightarrow> panic + u64" where
  "rust_add p a b =
     (if p = Dev \<and> unat a + unat b \<ge> 2 ^ 64 then Inl AddOverflow else Inr (a + b))"

definition rust_mul :: "profile \<Rightarrow> u64 \<Rightarrow> u64 \<Rightarrow> panic + u64" where
  "rust_mul p a b =
     (if p = Dev \<and> unat a * unat b \<ge> 2 ^ 64 then Inl MulOverflow else Inr (a * b))"

definition res_bind :: "'e + 'a \<Rightarrow> ('a \<Rightarrow> 'e + 'b) \<Rightarrow> 'e + 'b" where
  "res_bind r f = (case r of Inl e \<Rightarrow> Inl e | Inr x \<Rightarrow> f x)"

definition map_err :: "('e \<Rightarrow> 'f) \<Rightarrow> 'e + 'a \<Rightarrow> 'f + 'a" where
  "map_err f r = (case r of Inl e \<Rightarrow> Inl (f e) | Inr x \<Rightarrow> Inr x)"

lemma res_bind_simps [simp]:
  "res_bind (Inl e) f = Inl e"
  "res_bind (Inr x) f = f x"
  by (simp_all add: res_bind_def)

lemma map_err_simps [simp]:
  "map_err f (Inl e) = Inl (f e)"
  "map_err f (Inr x) = Inr x"
  by (simp_all add: map_err_def)

lemma res_bind_eq_Inr:
  "res_bind r f = Inr y \<longleftrightarrow> (\<exists>x. r = Inr x \<and> f x = Inr y)"
  by (cases r) simp_all

lemma map_err_eq_Inr [simp]: "map_err f r = Inr x \<longleftrightarrow> r = Inr x"
  by (cases r) simp_all

lemma rust_mul_small:
  assumes "unat a * unat b < 2 ^ 64"
  shows "rust_mul p a b = Inr (a * b)" and "unat (a * b) = unat a * unat b"
  using assms by (simp_all add: rust_mul_def unat_word_ariths)

lemma rust_add_small:
  assumes "unat a + unat b < 2 ^ 64"
  shows "rust_add p a b = Inr (a + b)" and "unat (a + b) = unat a + unat b"
  using assms by (simp_all add: rust_add_def unat_word_ariths)

lemma unat_u8_less: "unat (b :: u8) < 256"
proof -
  have "unat b < 2 ^ LENGTH(8)" by (rule unsigned_less)
  then show ?thesis by simp
qed

section \<open>Byte order\<close>

datatype endian = LittleEndian | BigEndian

fun from_le_bytes :: "bytes \<Rightarrow> 'a::len word" where
  "from_le_bytes [] = 0"
| "from_le_bytes (b # bs) = ucast b OR push_bit 8 (from_le_bytes bs)"

definition to_le_bytes :: "nat \<Rightarrow> 'a::len word \<Rightarrow> bytes" where
  "to_le_bytes n w = map (\<lambda>k. ucast (drop_bit (8 * k) w)) [0..<n]"

definition from_be_bytes :: "bytes \<Rightarrow> 'a::len word" where
  "from_be_bytes bs = from_le_bytes (rev bs)"

definition to_be_bytes :: "nat \<Rightarrow> 'a::len word \<Rightarrow> bytes" where
  "to_be_bytes n w = rev (to_le_bytes n w)"

definition from_ne_bytes :: "endian \<Rightarrow> bytes \<Rightarrow> 'a::len word" where
  "from_ne_bytes e bs = (case e of LittleEndian \<Rightarrow> from_le_bytes bs | BigEndian \<Rightarrow> from_be_bytes bs)"

definition to_ne_bytes :: "endian \<Rightarrow> nat \<Rightarrow> 'a::len word \<Rightarrow> bytes" where
  "to_ne_bytes e n w = (case e of LittleEndian \<Rightarrow> to_le_bytes n w | BigEndian \<Rightarrow> to_be_bytes n w)"

text \<open>\<open>u16::from_be\<close>: swaps the bytes on a little-endian target, the identity on a big-endian one.\<close>

definition u16_from_be :: "endian \<Rightarrow> u16 \<Rightarrow> u16" where
  "u16_from_be e x = from_be_bytes (to_ne_bytes e 2 x)"

lemma length_to_bytes [simp, byte_lens]:
  "length (to_le_bytes n w) = n"
  "length (to_be_bytes n w) = n"
  "length (to_ne_bytes e n w) = n"
  by (simp_all add: to_le_bytes_def to_be_bytes_def to_ne_bytes_def split: endian.split)

lemma bit_from_le_bytes:
  "bit (from_le_bytes bs :: 'a::len word) i \<longleftrightarrow>
     i < LENGTH('a) \<and> i div 8 < length bs \<and> bit (bs ! (i div 8)) (i mod 8)"
proof (induction bs arbitrary: i)
  case Nil
  then show ?case by simp
next
  case (Cons b bs)
  show ?case
  proof (cases "i < 8")
    case True
    then show ?thesis
      by (auto simp: bit_simps)
  next
    case False
    then obtain j where j: "i = j + 8" by (metis le_add_diff_inverse2 not_less)
    have "(j + 8) div 8 = Suc (j div 8)" by simp
    then show ?thesis
      using Cons.IH[of j] bit_imp_le_length[of b "i"]
      by (auto simp: j bit_simps simp del: div_add_self2)
  qed
qed

lemma from_le_to_le_bytes [codec]:
  assumes "LENGTH('a) = 8 * n"
  shows "from_le_bytes (to_le_bytes n w) = (w :: 'a::len word)"
proof (rule bit_word_eqI)
  fix i
  assume i: "i < LENGTH('a)"
  then have "i div 8 < n" using assms by simp
  then show "bit (from_le_bytes (to_le_bytes n w) :: 'a word) i \<longleftrightarrow> bit w i"
    using i by (simp add: bit_from_le_bytes to_le_bytes_def bit_simps)
qed

lemma to_le_from_le_bytes [codec]:
  assumes "length bs = n" and "LENGTH('a) = 8 * n"
  shows "to_le_bytes n (from_le_bytes bs :: 'a::len word) = bs"
proof (rule nth_equalityI)
  show "length (to_le_bytes n (from_le_bytes bs :: 'a word)) = length bs"
    using assms by simp
next
  fix k
  assume "k < length (to_le_bytes n (from_le_bytes bs :: 'a word))"
  then have k: "k < n" by simp
  show "to_le_bytes n (from_le_bytes bs :: 'a word) ! k = bs ! k"
  proof (rule bit_word_eqI)
    fix i
    assume "i < LENGTH(8)"
    then have i: "i < 8" by simp
    then have "(8 * k + i) div 8 = k" and "(8 * k + i) mod 8 = i" by simp_all
    moreover have "8 * k + i < LENGTH('a)" using assms(2) k i by linarith
    ultimately show "bit (to_le_bytes n (from_le_bytes bs :: 'a word) ! k) i \<longleftrightarrow> bit (bs ! k) i"
      using k i assms(1) by (simp add: to_le_bytes_def bit_simps bit_from_le_bytes)
  qed
qed

lemma from_be_to_be_bytes [codec]:
  "LENGTH('a) = 8 * n \<Longrightarrow> from_be_bytes (to_be_bytes n w) = (w :: 'a::len word)"
  by (simp add: from_be_bytes_def to_be_bytes_def from_le_to_le_bytes)

lemma to_be_from_be_bytes [codec]:
  "length bs = n \<Longrightarrow> LENGTH('a) = 8 * n \<Longrightarrow> to_be_bytes n (from_be_bytes bs :: 'a::len word) = bs"
  by (simp add: from_be_bytes_def to_be_bytes_def to_le_from_le_bytes)

lemma from_ne_to_ne_bytes [codec]:
  "LENGTH('a) = 8 * n \<Longrightarrow> from_ne_bytes e (to_ne_bytes e n w) = (w :: 'a::len word)"
  by (cases e) (simp_all add: from_ne_bytes_def to_ne_bytes_def from_le_to_le_bytes from_be_to_be_bytes)

lemma to_ne_from_ne_bytes [codec]:
  "length bs = n \<Longrightarrow> LENGTH('a) = 8 * n \<Longrightarrow> to_ne_bytes e n (from_ne_bytes e bs :: 'a::len word) = bs"
  by (cases e) (simp_all add: from_ne_bytes_def to_ne_bytes_def to_le_from_le_bytes to_be_from_be_bytes)

text \<open>Loading a big-endian field in native order and converting it reads the bytes in network order.\<close>

lemma u16_from_be_from_ne:
  "length bs = 2 \<Longrightarrow> u16_from_be e (from_ne_bytes e bs) = from_be_bytes bs"
  by (simp add: u16_from_be_def to_ne_from_ne_bytes)

section \<open>Numbers as text\<close>

definition digit_char :: "nat \<Rightarrow> char" where
  "digit_char d = ''0123456789abcdef'' ! d"

text \<open>The digits of a number in a radix, as \<open>{}\<close> and \<open>{:x}\<close> print it.\<close>

fun radix_string :: "nat \<Rightarrow> nat \<Rightarrow> string" where
  "radix_string r n =
     (if r < 2 \<or> n < r then [digit_char n] else radix_string r (n div r) @ [digit_char (n mod r)])"

declare radix_string.simps [simp del]

definition dec_string :: "nat \<Rightarrow> string" where
  "dec_string n = radix_string 10 n"

definition hex_string :: "nat \<Rightarrow> string" where
  "hex_string n = radix_string 16 n"

definition int_string :: "int \<Rightarrow> string" where
  "int_string i = (if i < 0 then ''-'' @ dec_string (nat (- i)) else dec_string (nat i))"

definition is_dec_digit :: "char \<Rightarrow> bool" where
  "is_dec_digit c \<longleftrightarrow> c \<in> set ''0123456789''"

definition dec_digit_val :: "char \<Rightarrow> nat" where
  "dec_digit_val c = length (takeWhile (\<lambda>x. x \<noteq> c) ''0123456789'')"

definition dec_val :: "string \<Rightarrow> nat" where
  "dec_val s = foldl (\<lambda>a c. 10 * a + dec_digit_val c) 0 s"

lemma dec_string_small: "n < 10 \<Longrightarrow> dec_string n = [digit_char n]"
  by (simp add: dec_string_def radix_string.simps)

lemma dec_string_step: "10 \<le> n \<Longrightarrow> dec_string n = dec_string (n div 10) @ [digit_char (n mod 10)]"
  by (simp add: dec_string_def radix_string.simps[of 10 n])

lemma less_10_cases: "(n::nat) < 10 \<longleftrightarrow>
  n = 0 \<or> n = 1 \<or> n = 2 \<or> n = 3 \<or> n = 4 \<or> n = 5 \<or> n = 6 \<or> n = 7 \<or> n = 8 \<or> n = 9"
  by presburger

lemma digit_char_dec:
  assumes "n < 10"
  shows "is_dec_digit (digit_char n)" and "dec_digit_val (digit_char n) = n"
    and "digit_char n = CHR ''0'' \<longleftrightarrow> n = 0"
  using assms unfolding less_10_cases
  by (auto simp: is_dec_digit_def dec_digit_val_def digit_char_def)

lemma dec_digit_char:
  assumes "is_dec_digit c"
  shows "dec_digit_val c < 10" and "digit_char (dec_digit_val c) = c"
  using assms by (auto simp: is_dec_digit_def dec_digit_val_def digit_char_def)

lemma dec_val_append [simp]: "dec_val (s @ [c]) = 10 * dec_val s + dec_digit_val c"
  by (simp add: dec_val_def)

lemma dec_string_induct [case_names small step]:
  assumes "\<And>n. n < 10 \<Longrightarrow> P n" and "\<And>n. 10 \<le> n \<Longrightarrow> P (n div 10) \<Longrightarrow> P n"
  shows "P (n::nat)"
proof (induction n rule: less_induct)
  case (less n)
  show ?case
    by (cases "n < 10") (use assms less in \<open>auto simp: not_less\<close>)
qed

lemma dec_string_digits: "\<forall>c \<in> set (dec_string n). is_dec_digit c"
  by (induction n rule: dec_string_induct)
    (auto simp: dec_string_small dec_string_step digit_char_dec)

lemma dec_val_dec_string [simp]: "dec_val (dec_string n) = n"
proof (induction n rule: dec_string_induct)
  case (small n)
  then show ?case by (simp add: dec_string_small dec_val_def digit_char_dec)
next
  case (step n)
  then show ?case by (simp add: dec_string_step digit_char_dec)
qed

lemma dec_string_nonempty [simp]: "dec_string n \<noteq> []"
  by (cases "n < 10") (simp_all add: dec_string_small dec_string_step)

lemma dec_string_inject [simp]: "dec_string m = dec_string n \<longleftrightarrow> m = n"
  by (metis dec_val_dec_string)

text \<open>No leading zero, except for the number zero itself.\<close>

lemma dec_string_hd: "hd (dec_string n) = CHR ''0'' \<longleftrightarrow> n = 0"
proof (induction n rule: dec_string_induct)
  case (small n)
  then show ?case by (simp add: dec_string_small digit_char_dec)
next
  case (step n)
  then show ?case by (simp add: dec_string_step)
qed

lemma length_dec_string_le3: "n < 1000 \<Longrightarrow> length (dec_string n) \<le> 3"
  by (cases "n < 10"; cases "n < 100") (simp_all add: dec_string_small dec_string_step)

section \<open>Padding\<close>

text \<open>
  The number of Unicode scalar values in a UTF-8 string: the bytes that are not continuation bytes
  (\<open>10xxxxxx\<close>). Rust's \<open>{:<n}\<close> and \<open>{:>n}\<close> pad a string to that many of them.
\<close>

definition chars_count :: "string \<Rightarrow> nat" where
  "chars_count s = length (filter (\<lambda>c. \<not> (128 \<le> (of_char c :: nat) \<and> (of_char c :: nat) < 192)) s)"

definition pad_right :: "nat \<Rightarrow> string \<Rightarrow> string" where
  "pad_right w s = s @ replicate (w - chars_count s) (CHR '' '')"

definition pad_left :: "nat \<Rightarrow> string \<Rightarrow> string" where
  "pad_left w s = replicate (w - chars_count s) (CHR '' '') @ s"

text \<open>\<open>{:0w}\<close> on an unsigned number.\<close>

definition zero_pad :: "nat \<Rightarrow> nat \<Rightarrow> string" where
  "zero_pad w n = replicate (w - length (dec_string n)) (CHR ''0'') @ dec_string n"

lemma chars_count_append [simp]: "chars_count (s @ t) = chars_count s + chars_count t"
  by (simp add: chars_count_def)

lemma chars_count_spaces [simp]: "chars_count (replicate n (CHR '' '')) = n"
  by (induction n) (simp_all add: chars_count_def)

lemma chars_count_pad:
  "chars_count (pad_right w s) = max w (chars_count s)"
  "chars_count (pad_left w s) = max w (chars_count s)"
  by (simp_all add: pad_right_def pad_left_def)

lemma zero_pad_val: "dec_val (zero_pad w n) = n"
proof -
  have "foldl (\<lambda>a c. 10 * a + dec_digit_val c) 0 (replicate k (CHR ''0'')) = 0" for k
    by (induction k) (simp_all add: dec_digit_val_def)
  then show ?thesis
    using dec_val_dec_string[of n] by (simp add: zero_pad_def dec_val_def)
qed

lemma length_zero_pad: "length (dec_string n) \<le> w \<Longrightarrow> length (zero_pad w n) = w"
  by (simp add: zero_pad_def)

end
