(* ===== verification/Repr_C.thy ===== *)
theory Repr_C
  imports Prelude
begin

text \<open>
  The layout of \<open>#[repr(C)]\<close> types: size, alignment and field offsets as the Rust reference defines
  them for a 64-bit target. A type is a description (\<open>ctype\<close>); the descriptions of \<open>NetEvent\<close> and of
  the kernel's socket structures are in the theories of those components.

  The lemmas show what the program relies on when it reads a field through a pointer: every field
  lies inside its structure, at an offset that is a multiple of the field's alignment, and two
  different fields of a structure do not overlap.
\<close>

datatype ctype =
    Prim nat \<comment> \<open>an integer or pointer of that many bytes, aligned to its size\<close>
  | Arr ctype nat
  | Struct "(string \<times> ctype) list"
  | Union "(string \<times> ctype) list"

definition align_up :: "nat \<Rightarrow> nat \<Rightarrow> nat" where
  "align_up x a = ((x + a - 1) div a) * a"

fun align_of :: "ctype \<Rightarrow> nat" and aligns :: "(string \<times> ctype) list \<Rightarrow> nat" where
  "align_of (Prim n) = (if n = 0 then 1 else n)"
| "align_of (Arr t n) = align_of t"
| "align_of (Struct fs) = aligns fs"
| "align_of (Union fs) = aligns fs"
| "aligns [] = 1"
| "aligns ((f, t) # fs) = max (align_of t) (aligns fs)"

fun size_of :: "ctype \<Rightarrow> nat"
  and struct_end :: "nat \<Rightarrow> (string \<times> ctype) list \<Rightarrow> nat"
  and union_end :: "(string \<times> ctype) list \<Rightarrow> nat" where
  "size_of (Prim n) = n"
| "size_of (Arr t n) = n * size_of t"
| "size_of (Struct fs) = align_up (struct_end 0 fs) (aligns fs)"
| "size_of (Union fs) = align_up (union_end fs) (aligns fs)"
| "struct_end k [] = k"
| "struct_end k ((f, t) # fs) = struct_end (align_up k (align_of t) + size_of t) fs"
| "union_end [] = 0"
| "union_end ((f, t) # fs) = max (size_of t) (union_end fs)"

text \<open>The offset and the type of a field, for the fields laid out from offset \<open>k\<close> on.\<close>

fun field_from :: "nat \<Rightarrow> (string \<times> ctype) list \<Rightarrow> string \<Rightarrow> (nat \<times> ctype) option" where
  "field_from k [] f = None"
| "field_from k ((g, t) # fs) f =
     (let o' = align_up k (align_of t)
      in if g = f then Some (o', t) else field_from (o' + size_of t) fs f)"

fun field_of :: "ctype \<Rightarrow> string \<Rightarrow> (nat \<times> ctype) option" where
  "field_of (Struct fs) f = field_from 0 fs f"
| "field_of (Union fs) f = map_option (\<lambda>t. (0, t)) (map_of fs f)"
| "field_of t f = None"

text \<open>The place a chain of field accesses \<open>x.f1.f2. ...\<close> reads: its offset and its type.\<close>

fun place :: "ctype \<Rightarrow> string list \<Rightarrow> (nat \<times> ctype) option" where
  "place t [] = Some (0, t)"
| "place t (f # fs) =
     (case field_of t f of None \<Rightarrow> None
      | Some (k, t') \<Rightarrow> (case place t' fs of None \<Rightarrow> None | Some (j, t'') \<Rightarrow> Some (k + j, t'')))"

definition offset_of :: "ctype \<Rightarrow> string list \<Rightarrow> nat" where
  "offset_of t p = (case place t p of None \<Rightarrow> 0 | Some (k, _) \<Rightarrow> k)"

section \<open>Rounding up\<close>

lemma align_up_ge: "0 < a \<Longrightarrow> x \<le> align_up x a"
proof -
  assume "0 < a"
  then have "(x + a - 1) div a * a + (x + a - 1) mod a = x + a - 1"
    and "(x + a - 1) mod a < a" by simp_all
  then show ?thesis unfolding align_up_def by linarith
qed

lemma align_up_dvd: "a dvd align_up x a"
  by (simp add: align_up_def)

lemma align_up_lt: "0 < a \<Longrightarrow> align_up x a < x + a"
proof -
  assume "0 < a"
  moreover have "(x + a - 1) div a * a \<le> x + a - 1" by (rule div_times_less_eq_dividend)
  ultimately show ?thesis unfolding align_up_def by linarith
qed

lemma align_up_mult: "0 < a \<Longrightarrow> align_up (n * a) a = n * a"
proof -
  assume "0 < a"
  then have "(n * a + (a - 1)) div a = n + (a - 1) div a" by (metis div_mult_self3 less_not_refl2)
  with \<open>0 < a\<close> show ?thesis by (simp add: align_up_def)
qed

lemma align_up_mod:
  assumes "0 < a"
  shows "align_up x a = x + (a - x mod a) mod a"
proof (cases "x mod a = 0")
  case True
  then obtain q where "x = q * a" by (auto simp: dvd_def mod_eq_0_iff_dvd mult.commute)
  then show ?thesis using assms by (simp add: align_up_mult)
next
  case False
  define q r where "q = x div a" and "r = x mod a"
  have x: "x = q * a + r" by (simp add: q_def r_def)
  have r: "0 < r" "r < a" using False assms by (simp_all add: r_def)
  have "(x + a - 1) div a = Suc q"
    using r x by (intro div_nat_eqI) (auto simp: algebra_simps)
  moreover have "(a - r) mod a = a - r" using r by simp
  ultimately show ?thesis using x r by (simp add: align_up_def r_def[symmetric])
qed
lemma align_pos [simp]: "0 < align_of t" and aligns_pos [simp]: "0 < aligns fs"
  by (induction t and fs rule: align_of_aligns.induct) auto

section \<open>Fields\<close>

lemma struct_end_ge: "k \<le> struct_end k fs"
proof (induction fs arbitrary: k)
  case Nil
  then show ?case by simp
next
  case (Cons ft fs)
  obtain f t where ft: "ft = (f, t)" by (cases ft)
  have "k \<le> align_up k (align_of t)" by (simp add: align_up_ge)
  also have "\<dots> \<le> struct_end (align_up k (align_of t) + size_of t) fs"
    using Cons.IH[of "align_up k (align_of t) + size_of t"] by simp
  finally show ?case by (simp add: ft)
qed

lemma field_from_place:
  "field_from k fs f = Some (j, t) \<Longrightarrow>
     k \<le> j \<and> j + size_of t \<le> struct_end k fs \<and> align_of t dvd j"
proof (induction fs arbitrary: k)
  case Nil
  then show ?case by simp
next
  case (Cons gs fs)
  obtain g s where gs: "gs = (g, s)" by (cases gs)
  let ?o = "align_up k (align_of s)"
  have o: "k \<le> ?o" by (simp add: align_up_ge)
  show ?case
  proof (cases "g = f")
    case True
    then have "j = ?o" and "t = s" using Cons.prems by (auto simp: gs Let_def)
    then show ?thesis
      using o struct_end_ge[of "?o + size_of s" fs] by (simp add: gs align_up_dvd)
  next
    case False
    then show ?thesis
      using Cons.IH[of "?o + size_of s"] Cons.prems o by (simp add: gs Let_def)
  qed
qed

lemmas field_from_bounds =
  field_from_place[THEN conjunct1]
  field_from_place[THEN conjunct2, THEN conjunct1]
  field_from_place[THEN conjunct2, THEN conjunct2]

lemma field_from_disjoint:
  assumes "field_from k fs f = Some (i, s)" and "field_from k fs g = Some (j, t)" and "f \<noteq> g"
  shows "i + size_of s \<le> j \<or> j + size_of t \<le> i"
  using assms
proof (induction fs arbitrary: k)
  case Nil
  then show ?case by simp
next
  case (Cons hu fs)
  obtain h u where hu: "hu = (h, u)" by (cases hu)
  let ?k = "align_up k (align_of u) + size_of u"
  consider "h = f" | "h = g" | "h \<noteq> f" "h \<noteq> g" by blast
  then show ?case
  proof cases
    case 1
    with Cons.prems have "i + size_of s = ?k" and "field_from ?k fs g = Some (j, t)"
      by (auto simp: hu Let_def)
    then show ?thesis using field_from_bounds(1)[of ?k fs g j t] by simp
  next
    case 2
    with Cons.prems have "j + size_of t = ?k" and "field_from ?k fs f = Some (i, s)"
      by (auto simp: hu Let_def)
    then show ?thesis using field_from_bounds(1)[of ?k fs f i s] by simp
  next
    case 3
    with Cons.prems show ?thesis using Cons.IH[of ?k] by (simp add: hu Let_def)
  qed
qed

lemma union_field_bounds: "map_of fs f = Some t \<Longrightarrow> size_of t \<le> union_end fs"
  by (induction fs) (auto split: if_splits)

lemma field_of_bounds:
  assumes "field_of t f = Some (k, t')"
  shows "k + size_of t' \<le> size_of t"
  using assms
proof (cases t)
  case (Struct fs)
  then have "k + size_of t' \<le> struct_end 0 fs" using assms field_from_bounds(2) by simp
  also have "\<dots> \<le> align_up (struct_end 0 fs) (aligns fs)" by (simp add: align_up_ge)
  finally show ?thesis using Struct by simp
next
  case (Union fs)
  then have "k = 0" and "size_of t' \<le> union_end fs" using assms union_field_bounds by auto
  moreover have "union_end fs \<le> align_up (union_end fs) (aligns fs)" by (simp add: align_up_ge)
  ultimately show ?thesis using Union by simp
qed simp_all

lemma place_bounds: "place t p = Some (k, t') \<Longrightarrow> k + size_of t' \<le> size_of t"
proof (induction t p arbitrary: k rule: place.induct)
  case (1 t)
  then show ?case by simp
next
  case (2 t f fs)
  then obtain i u j where "field_of t f = Some (i, u)" "place u fs = Some (j, t')" "k = i + j"
    by (auto split: option.splits prod.splits)
  then show ?case using "2.IH"[of "(i, u)" i u j] field_of_bounds[of t f i u] by simp
qed

lemma field_of_disjoint:
  assumes "field_of (Struct fs) f = Some (i, s)" and "field_of (Struct fs) g = Some (j, t)"
    and "f \<noteq> g"
  shows "i + size_of s \<le> j \<or> j + size_of t \<le> i"
  using assms field_from_disjoint by simp

lemma field_of_aligned: "field_of (Struct fs) f = Some (k, t) \<Longrightarrow> align_of t dvd k"
  using field_from_bounds(3) by simp

declare field_from.simps(2) [simp del]

end
