(* ===== verification/Net_Event.thy ===== *)
theory Net_Event
  imports Repr_C
begin

text \<open>
  The types shared by the eBPF programs and the user-space program: \<open>rustguard-common/src/lib.rs\<close>
  (the values of the two BPF maps) and \<open>rustguard-common/src/event.rs\<close> (the event enums and the
  \<open>NetEvent\<close> record that travels through the ring buffer as raw bytes).

  \<open>encode_net_event\<close> is the memory image the kernel side outputs; \<open>decode_net_event\<close> is what the
  monitor reads when it casts the bytes to \<open>&NetEvent\<close>. A discriminant that is no variant of its
  enum makes the cast undefined behaviour, which is \<open>None\<close> here.
\<close>

section \<open>Constants\<close>

definition AF_INET :: u16 where "AF_INET = 2"
definition AF_INET6 :: u16 where "AF_INET6 = 10"

definition IPPROTO_IP :: u16 where "IPPROTO_IP = 0"
definition IPPROTO_ICMP :: u16 where "IPPROTO_ICMP = 1"
definition IPPROTO_TCP :: u16 where "IPPROTO_TCP = 6"
definition IPPROTO_UDP :: u16 where "IPPROTO_UDP = 17"
definition IPPROTO_IPV6 :: u16 where "IPPROTO_IPV6 = 41"
definition IPPROTO_ICMPV6 :: u16 where "IPPROTO_ICMPV6 = 58"
definition IPPROTO_SCTP :: u16 where "IPPROTO_SCTP = 132"

definition TASK_COMM_LEN :: nat where "TASK_COMM_LEN = 16"
definition IP_ADDR_LEN :: nat where "IP_ADDR_LEN = 16"

section \<open>Map values (lib.rs)\<close>

record BanValue =
  end_time :: u64

record StatsValue =
  packets_dropped :: u64

section \<open>Event enums\<close>

datatype EventType =
    EvUnknown | Connect | Accept | Send | Recv | Close | StateChange | Dns | TlsHandshake

datatype TransportProtocol = ProtoUnknown | Tcp | Udp

datatype Direction = DirUnknown | Ingress | Egress

fun EventType_as_str :: "EventType \<Rightarrow> string" where
  "EventType_as_str EvUnknown = ''UNKNOWN''"
| "EventType_as_str Connect = ''CONNECT''"
| "EventType_as_str Accept = ''ACCEPT''"
| "EventType_as_str Send = ''SEND''"
| "EventType_as_str Recv = ''RECV''"
| "EventType_as_str Close = ''CLOSE''"
| "EventType_as_str StateChange = ''STATE''"
| "EventType_as_str Dns = ''DNS''"
| "EventType_as_str TlsHandshake = ''TLS''"

fun EventType_direction :: "EventType \<Rightarrow> Direction" where
  "EventType_direction Connect = Egress"
| "EventType_direction Send = Egress"
| "EventType_direction Accept = Ingress"
| "EventType_direction Recv = Ingress"
| "EventType_direction Close = DirUnknown"
| "EventType_direction StateChange = DirUnknown"
| "EventType_direction Dns = DirUnknown"
| "EventType_direction TlsHandshake = DirUnknown"
| "EventType_direction EvUnknown = DirUnknown"

text \<open>
  The \<open>Display\<close> implementations write their text with \<open>write_str\<close> or \<open>write!\<close>, so they ignore the
  width of the placeholder they are printed through; each takes that width as its first argument.
\<close>

definition EventType_fmt :: "nat \<Rightarrow> EventType \<Rightarrow> string" where
  "EventType_fmt w t = EventType_as_str t"

fun TransportProtocol_fmt :: "nat \<Rightarrow> TransportProtocol \<Rightarrow> string" where
  "TransportProtocol_fmt w ProtoUnknown = ''UNKNOWN''"
| "TransportProtocol_fmt w Tcp = ''TCP''"
| "TransportProtocol_fmt w Udp = ''UDP''"

fun Direction_fmt :: "nat \<Rightarrow> Direction \<Rightarrow> string" where
  "Direction_fmt w DirUnknown = ''UNKNOWN''"
| "Direction_fmt w Ingress = ''INGRESS''"
| "Direction_fmt w Egress = ''EGRESS''"

text \<open>The \<open>#[repr(u8)]\<close> discriminants.\<close>

fun EventType_repr :: "EventType \<Rightarrow> u8" where
  "EventType_repr EvUnknown = 0"
| "EventType_repr Connect = 1"
| "EventType_repr Accept = 2"
| "EventType_repr Send = 3"
| "EventType_repr Recv = 4"
| "EventType_repr Close = 5"
| "EventType_repr StateChange = 6"
| "EventType_repr Dns = 7"
| "EventType_repr TlsHandshake = 8"

fun TransportProtocol_repr :: "TransportProtocol \<Rightarrow> u8" where
  "TransportProtocol_repr ProtoUnknown = 0"
| "TransportProtocol_repr Tcp = 6"
| "TransportProtocol_repr Udp = 17"

fun Direction_repr :: "Direction \<Rightarrow> u8" where
  "Direction_repr DirUnknown = 0"
| "Direction_repr Ingress = 1"
| "Direction_repr Egress = 2"

text \<open>Reading a discriminant back; \<open>None\<close> where no variant has it.\<close>

definition EventType_of_repr :: "u8 \<Rightarrow> EventType option" where
  "EventType_of_repr b =
     find (\<lambda>t. EventType_repr t = b)
       [EvUnknown, Connect, Accept, Send, Recv, Close, StateChange, Dns, TlsHandshake]"

definition TransportProtocol_of_repr :: "u8 \<Rightarrow> TransportProtocol option" where
  "TransportProtocol_of_repr b = find (\<lambda>t. TransportProtocol_repr t = b) [ProtoUnknown, Tcp, Udp]"

definition Direction_of_repr :: "u8 \<Rightarrow> Direction option" where
  "Direction_of_repr b = find (\<lambda>t. Direction_repr t = b) [DirUnknown, Ingress, Egress]"

section \<open>NetEvent\<close>

record NetEvent =
  ev_timestamp_ns :: u64
  ev_socket_id :: u64
  ev_pid :: u32
  ev_tid :: u32
  ev_uid :: u32
  ev_event :: EventType
  ev_protocol :: TransportProtocol
  ev_direction :: Direction
  ev_comm :: bytes
  ev_src_ip :: bytes
  ev_dst_ip :: bytes
  ev_src_port :: u16
  ev_dst_port :: u16
  ev_ret :: i32

definition NetEvent_default :: NetEvent where
  "NetEvent_default =
     \<lparr>ev_timestamp_ns = 0, ev_socket_id = 0, ev_pid = 0, ev_tid = 0, ev_uid = 0,
      ev_event = EvUnknown, ev_protocol = ProtoUnknown, ev_direction = DirUnknown,
      ev_comm = replicate TASK_COMM_LEN 0, ev_src_ip = replicate 16 0, ev_dst_ip = replicate 16 0,
      ev_src_port = 0, ev_dst_port = 0, ev_ret = 0\<rparr>"

text \<open>The array fields have their declared lengths.\<close>

definition net_event_wf :: "NetEvent \<Rightarrow> bool" where
  "net_event_wf v \<longleftrightarrow>
     length (ev_comm v) = TASK_COMM_LEN \<and> length (ev_src_ip v) = 16 \<and> length (ev_dst_ip v) = 16"

text \<open>The declared type, for the layout.\<close>

definition NetEvent_type :: ctype where
  "NetEvent_type = Struct
     [(''timestamp_ns'', Prim 8), (''socket_id'', Prim 8),
      (''pid'', Prim 4), (''tid'', Prim 4), (''uid'', Prim 4),
      (''event'', Prim 1), (''protocol'', Prim 1), (''direction'', Prim 1),
      (''comm'', Arr (Prim 1) 16), (''src_ip'', Arr (Prim 1) 16), (''dst_ip'', Arr (Prim 1) 16),
      (''src_port'', Prim 2), (''dst_port'', Prim 2), (''ret'', Prim 4)]"

definition NetEvent_size :: nat where
  "NetEvent_size = size_of NetEvent_type"

text \<open>
  The memory image of a \<open>NetEvent\<close> on a target of byte order \<open>e\<close>: its fields in declaration order,
  with one byte of padding before \<open>src_port\<close>, whose value \<open>pad\<close> is not determined by the event.
\<close>

definition encode_net_event :: "endian \<Rightarrow> u8 \<Rightarrow> NetEvent \<Rightarrow> bytes" where
  "encode_net_event e pad v =
     to_ne_bytes e 8 (ev_timestamp_ns v) @ to_ne_bytes e 8 (ev_socket_id v) @
     to_ne_bytes e 4 (ev_pid v) @ to_ne_bytes e 4 (ev_tid v) @ to_ne_bytes e 4 (ev_uid v) @
     [EventType_repr (ev_event v), TransportProtocol_repr (ev_protocol v),
      Direction_repr (ev_direction v)] @
     ev_comm v @ ev_src_ip v @ ev_dst_ip v @ [pad] @
     to_ne_bytes e 2 (ev_src_port v) @ to_ne_bytes e 2 (ev_dst_port v) @ to_ne_bytes e 4 (ev_ret v)"

definition subseq_at :: "nat \<Rightarrow> nat \<Rightarrow> 'a list \<Rightarrow> 'a list" where
  "subseq_at k n xs = take n (drop k xs)"

text \<open>The cast of a byte sequence of the right length to \<open>&NetEvent\<close>.\<close>

definition decode_net_event :: "endian \<Rightarrow> bytes \<Rightarrow> NetEvent option" where
  "decode_net_event e bs =
     (case (EventType_of_repr (bs ! 28), TransportProtocol_of_repr (bs ! 29), Direction_of_repr (bs ! 30)) of
        (Some t, Some p, Some d) \<Rightarrow>
          Some \<lparr>ev_timestamp_ns = from_ne_bytes e (subseq_at 0 8 bs),
            ev_socket_id = from_ne_bytes e (subseq_at 8 8 bs),
            ev_pid = from_ne_bytes e (subseq_at 16 4 bs), ev_tid = from_ne_bytes e (subseq_at 20 4 bs),
            ev_uid = from_ne_bytes e (subseq_at 24 4 bs),
            ev_event = t, ev_protocol = p, ev_direction = d,
            ev_comm = subseq_at 31 16 bs, ev_src_ip = subseq_at 47 16 bs, ev_dst_ip = subseq_at 63 16 bs,
            ev_src_port = from_ne_bytes e (subseq_at 80 2 bs), ev_dst_port = from_ne_bytes e (subseq_at 82 2 bs),
            ev_ret = from_ne_bytes e (subseq_at 84 4 bs)\<rparr>
      | _ \<Rightarrow> None)"

section \<open>Fixed-width encodings\<close>

text \<open>
  What an encoding promises: values that are \<open>ok\<close> take exactly \<open>n\<close> bytes and decoding undoes
  encoding. An exact one has no spare bits: bytes that decode are the encoding of what they
  decode to.
\<close>

locale fixed_codec =
  fixes enc :: "'a \<Rightarrow> bytes" and dec :: "bytes \<Rightarrow> 'a option" and n :: nat and ok :: "'a \<Rightarrow> bool"
  assumes len_enc: "ok x \<Longrightarrow> length (enc x) = n"
    and dec_enc: "ok x \<Longrightarrow> dec (enc x) = Some x"
begin

lemma dec_at:
  assumes "ok x" and "length pre = k"
  shows "dec (subseq_at k n (pre @ enc x @ post)) = Some x"
  using assms by (simp add: subseq_at_def len_enc dec_enc)

lemma at_enc:
  assumes "ok x" and "length pre = k"
  shows "subseq_at k n (pre @ enc x @ post) = enc x"
  using assms by (simp add: subseq_at_def len_enc)

lemma enc_inject: "ok x \<Longrightarrow> ok y \<Longrightarrow> enc x = enc y \<Longrightarrow> x = y"
  by (metis dec_enc option.inject)

end

locale exact_codec = fixed_codec +
  assumes enc_dec: "length bs = n \<Longrightarrow> dec bs = Some x \<Longrightarrow> ok x \<and> enc x = bs"
begin

lemma dec_iff: "length bs = n \<Longrightarrow> dec bs = Some x \<longleftrightarrow> ok x \<and> bs = enc x"
  using enc_dec dec_enc by blast

end

lemma EventType_of_repr_repr [simp]: "EventType_of_repr (EventType_repr t) = Some t"
  by (cases t) (simp_all add: EventType_of_repr_def)

lemma TransportProtocol_of_repr_repr [simp]:
  "TransportProtocol_of_repr (TransportProtocol_repr t) = Some t"
  by (cases t) (simp_all add: TransportProtocol_of_repr_def)

lemma Direction_of_repr_repr [simp]: "Direction_of_repr (Direction_repr t) = Some t"
  by (cases t) (simp_all add: Direction_of_repr_def)

lemma of_repr_Some:
  "EventType_of_repr b = Some t \<Longrightarrow> EventType_repr t = b"
  "TransportProtocol_of_repr b = Some p \<Longrightarrow> TransportProtocol_repr p = b"
  "Direction_of_repr b = Some d \<Longrightarrow> Direction_repr d = b"
  by (auto simp: EventType_of_repr_def TransportProtocol_of_repr_def Direction_of_repr_def
      split: if_splits)

interpretation u64_codec: exact_codec
  "to_ne_bytes e 8 :: u64 \<Rightarrow> bytes" "\<lambda>bs. Some (from_ne_bytes e bs)" 8 "\<lambda>_. True" for e
  by unfold_locales (auto simp: codec)

interpretation u32_codec: exact_codec
  "to_ne_bytes e 4 :: u32 \<Rightarrow> bytes" "\<lambda>bs. Some (from_ne_bytes e bs)" 4 "\<lambda>_. True" for e
  by unfold_locales (auto simp: codec)

interpretation u16_codec: exact_codec
  "to_ne_bytes e 2 :: u16 \<Rightarrow> bytes" "\<lambda>bs. Some (from_ne_bytes e bs)" 2 "\<lambda>_. True" for e
  by unfold_locales (auto simp: codec)

interpretation event_codec: exact_codec
  "\<lambda>t. [EventType_repr t]" "\<lambda>bs. EventType_of_repr (bs ! 0)" 1 "\<lambda>_. True"
  by unfold_locales (auto simp: length_Suc_conv dest: of_repr_Some)

interpretation protocol_codec: exact_codec
  "\<lambda>t. [TransportProtocol_repr t]" "\<lambda>bs. TransportProtocol_of_repr (bs ! 0)" 1 "\<lambda>_. True"
  by unfold_locales (auto simp: length_Suc_conv dest: of_repr_Some)

interpretation direction_codec: exact_codec
  "\<lambda>t. [Direction_repr t]" "\<lambda>bs. Direction_of_repr (bs ! 0)" 1 "\<lambda>_. True"
  by unfold_locales (auto simp: length_Suc_conv dest: of_repr_Some)

section \<open>The ring buffer record\<close>

lemma NetEvent_size_eq: "NetEvent_size = 88"
  by code_simp

lemma length_encode_net_event [simp, byte_lens]:
  "net_event_wf v \<Longrightarrow> length (encode_net_event e pad v) = 88"
  by (simp add: encode_net_event_def net_event_wf_def TASK_COMM_LEN_def)

lemma decode_encode_net_event [codec]:
  assumes "net_event_wf v"
  shows "decode_net_event e (encode_net_event e pad v) = Some v"
  using assms
  by (simp add: decode_net_event_def encode_net_event_def net_event_wf_def TASK_COMM_LEN_def
      subseq_at_def nth_append codec)

interpretation net_event_codec: fixed_codec
  "encode_net_event e pad" "decode_net_event e" NetEvent_size net_event_wf for e pad
  by unfold_locales (simp_all add: NetEvent_size_eq codec)

text \<open>
  The image determines the event, and the event the image up to the padding byte: a buffer of the
  right size whose three discriminants are valid is the image of exactly one event.
\<close>

lemma at_join: "j = k + m \<Longrightarrow> subseq_at k m xs @ subseq_at j n xs = subseq_at k (m + n) xs"
  by (simp add: subseq_at_def take_add) (metis add.commute)

lemma at_whole: "length xs \<le> n \<Longrightarrow> subseq_at 0 n xs = xs"
  by (simp add: subseq_at_def)

lemma at_one: "k < length xs \<Longrightarrow> subseq_at k (Suc 0) xs = [xs ! k]"
  by (simp add: subseq_at_def take_Suc_conv_app_nth drop_Suc hd_drop_conv_nth Cons_nth_drop_Suc[symmetric])

lemma encode_decode_net_event:
  assumes len: "length bs = 88" and dec: "decode_net_event e bs = Some v"
  shows "net_event_wf v" and "encode_net_event e (bs ! 79) v = bs"
proof -
  show "net_event_wf v"
    using dec len
    by (auto simp: decode_net_event_def net_event_wf_def TASK_COMM_LEN_def subseq_at_def
        split: option.splits)
  have "encode_net_event e (bs ! 79) v =
      subseq_at 0 8 bs @ subseq_at 8 8 bs @ subseq_at 16 4 bs @ subseq_at 20 4 bs @ subseq_at 24 4 bs @
      [bs ! 28, bs ! 29, bs ! 30] @ subseq_at 31 16 bs @ subseq_at 47 16 bs @ subseq_at 63 16 bs @ [bs ! 79] @
      subseq_at 80 2 bs @ subseq_at 82 2 bs @ subseq_at 84 4 bs"
    using dec len
    by (auto simp: decode_net_event_def encode_net_event_def subseq_at_def codec dest: of_repr_Some
        split: option.splits)
  also have "[bs ! 28, bs ! 29, bs ! 30] = subseq_at 28 1 bs @ subseq_at 29 1 bs @ subseq_at 30 1 bs"
    using len by (simp add: at_one)
  also have "[bs ! 79] = subseq_at 79 1 bs"
    using len by (simp add: at_one)
  also have "subseq_at 0 8 bs @ subseq_at 8 8 bs @ subseq_at 16 4 bs @ subseq_at 20 4 bs @ subseq_at 24 4 bs @
      (subseq_at 28 1 bs @ subseq_at 29 1 bs @ subseq_at 30 1 bs) @ subseq_at 31 16 bs @ subseq_at 47 16 bs @
      subseq_at 63 16 bs @ subseq_at 79 1 bs @ subseq_at 80 2 bs @ subseq_at 82 2 bs @ subseq_at 84 4 bs = bs"
    using len by (simp add: at_join at_whole)
  finally show "encode_net_event e (bs ! 79) v = bs" by simp
qed

section \<open>Properties\<close>

lemma NetEvent_offsets:
  "map (\<lambda>f. offset_of NetEvent_type [f])
     [''timestamp_ns'', ''socket_id'', ''pid'', ''tid'', ''uid'', ''event'', ''protocol'', ''direction'',
      ''comm'', ''src_ip'', ''dst_ip'', ''src_port'', ''dst_port'', ''ret''] =
   [0, 8, 16, 20, 24, 28, 29, 30, 31, 47, 63, 80, 82, 84]"
  by code_simp

text \<open>The bytes of each field.\<close>

definition field_bytes :: "endian \<Rightarrow> NetEvent \<Rightarrow> (string \<times> bytes) list" where
  "field_bytes e v =
     [(''timestamp_ns'', to_ne_bytes e 8 (ev_timestamp_ns v)), (''socket_id'', to_ne_bytes e 8 (ev_socket_id v)),
      (''pid'', to_ne_bytes e 4 (ev_pid v)), (''tid'', to_ne_bytes e 4 (ev_tid v)), (''uid'', to_ne_bytes e 4 (ev_uid v)),
      (''event'', [EventType_repr (ev_event v)]), (''protocol'', [TransportProtocol_repr (ev_protocol v)]),
      (''direction'', [Direction_repr (ev_direction v)]), (''comm'', ev_comm v), (''src_ip'', ev_src_ip v),
      (''dst_ip'', ev_dst_ip v), (''src_port'', to_ne_bytes e 2 (ev_src_port v)),
      (''dst_port'', to_ne_bytes e 2 (ev_dst_port v)), (''ret'', to_ne_bytes e 4 (ev_ret v))]"

text \<open>
  C23. The record the kernel side writes is the record the monitor reads: the image of an event has the
  size of the structure, every field is at the offset the \<open>repr(C)\<close> layout gives it, and the cast of the
  image gives the event back, whatever the padding byte holds.
\<close>

theorem net_event_image:
  assumes "net_event_wf v"
  shows "length (encode_net_event e pad v) = NetEvent_size \<and> decode_net_event e (encode_net_event e pad v) = Some v \<and>
    list_all (\<lambda>(f, bs). subseq_at (offset_of NetEvent_type [f]) (length bs) (encode_net_event e pad v) = bs) (field_bytes e v)"
proof (intro conjI)
  show "length (encode_net_event e pad v) = NetEvent_size" "decode_net_event e (encode_net_event e pad v) = Some v"
    using assms by (simp_all add: NetEvent_size_eq decode_encode_net_event)
  show "list_all (\<lambda>(f, bs). subseq_at (offset_of NetEvent_type [f]) (length bs) (encode_net_event e pad v) = bs) (field_bytes e v)"
    using assms NetEvent_offsets
    by (simp add: field_bytes_def encode_net_event_def subseq_at_def net_event_wf_def TASK_COMM_LEN_def)
qed

theorem net_event_image_witness:
  "decode_net_event BigEndian (encode_net_event BigEndian 7 NetEvent_default) = Some NetEvent_default"
proof -
  have "net_event_wf NetEvent_default" by (simp add: net_event_wf_def NetEvent_default_def TASK_COMM_LEN_def)
  from net_event_image[OF this] show ?thesis by blast
qed

end
