(* ===== verification/Bpf_Map.thy ===== *)
theory Bpf_Map
  imports Net_Event "HOL-Library.AList"
begin

text \<open>
  The interface of a BPF hash map. The map itself is kernel code reached through aya, so it is a
  parameter of the model: a record of the operations the program calls. The locale
  \<open>bpf_hash_map\<close> states what the kernel documents of \<open>BPF_MAP_TYPE_HASH\<close> for them: at most
  \<open>max_entries\<close> keys, an update of a present key always succeeds, an update with a new key succeeds
  exactly while there is room, removing an absent key is an error, and the keys are the present ones.

  The lemmas of the locale describe the two operations as the daemon uses them, with their results
  ignored. The interpretation at the end is the bounded association list.
\<close>

datatype map_error = MapError int

record ('m, 'v) map_ops =
  mo_get :: "'m \<Rightarrow> u32 \<Rightarrow> 'v option" \<comment> \<open>\<open>get\<close>, \<open>get_ptr\<close>, \<open>get_ptr_mut\<close>\<close>
  mo_insert :: "'m \<Rightarrow> u32 \<Rightarrow> 'v \<Rightarrow> u64 \<Rightarrow> map_error + 'm"
  mo_remove :: "'m \<Rightarrow> u32 \<Rightarrow> map_error + 'm"
  mo_keys :: "'m \<Rightarrow> (map_error + u32) list" \<comment> \<open>what the iterator of \<open>keys()\<close> yields\<close>
  mo_poke :: "'m \<Rightarrow> u32 \<Rightarrow> 'v \<Rightarrow> 'm" \<comment> \<open>a write through the pointer of \<open>get_ptr_mut\<close>\<close>

text \<open>\<open>let _ = map.insert(k, v, 0)\<close> and \<open>let _ = map.remove(&k)\<close>.\<close>

definition insert_ignored :: "('m, 'v) map_ops \<Rightarrow> 'm \<Rightarrow> u32 \<Rightarrow> 'v \<Rightarrow> 'm" where
  "insert_ignored ops m k v = (case mo_insert ops m k v 0 of Inl _ \<Rightarrow> m | Inr m' \<Rightarrow> m')"

definition remove_ignored :: "('m, 'v) map_ops \<Rightarrow> 'm \<Rightarrow> u32 \<Rightarrow> 'm" where
  "remove_ignored ops m k = (case mo_remove ops m k of Inl _ \<Rightarrow> m | Inr m' \<Rightarrow> m')"

text \<open>\<open>keys().flatten()\<close>: the keys the iterator yields without an error.\<close>

definition keys_flatten :: "('m, 'v) map_ops \<Rightarrow> 'm \<Rightarrow> u32 list" where
  "keys_flatten ops m = concat (map (\<lambda>r. case r of Inl _ \<Rightarrow> [] | Inr k \<Rightarrow> [k]) (mo_keys ops m))"

locale bpf_hash_map =
  fixes ops :: "('m, 'v) map_ops" and max_entries :: nat and valid :: "'m \<Rightarrow> bool"
  assumes finite_entries: "valid m \<Longrightarrow> finite (dom (mo_get ops m))"
    and at_most_max: "valid m \<Longrightarrow> card (dom (mo_get ops m)) \<le> max_entries"
    and insert_present: "valid m \<Longrightarrow> mo_get ops m k \<noteq> None \<Longrightarrow> \<exists>m'. mo_insert ops m k v 0 = Inr m'"
    and insert_room:
      "valid m \<Longrightarrow> card (dom (mo_get ops m)) < max_entries \<Longrightarrow> \<exists>m'. mo_insert ops m k v 0 = Inr m'"
    and insert_full:
      "valid m \<Longrightarrow> mo_get ops m k = None \<Longrightarrow> card (dom (mo_get ops m)) = max_entries \<Longrightarrow>
         \<exists>e. mo_insert ops m k v 0 = Inl e"
    and insert_ok:
      "valid m \<Longrightarrow> mo_insert ops m k v 0 = Inr m' \<Longrightarrow>
         valid m' \<and> mo_get ops m' = (mo_get ops m)(k \<mapsto> v)"
    and remove_present: "valid m \<Longrightarrow> mo_get ops m k \<noteq> None \<Longrightarrow> \<exists>m'. mo_remove ops m k = Inr m'"
    and remove_absent: "valid m \<Longrightarrow> mo_get ops m k = None \<Longrightarrow> \<exists>e. mo_remove ops m k = Inl e"
    and remove_ok:
      "valid m \<Longrightarrow> mo_remove ops m k = Inr m' \<Longrightarrow>
         valid m' \<and> mo_get ops m' = (mo_get ops m)(k := None)"
    and keys_present:
      "valid m \<Longrightarrow> \<exists>ks. mo_keys ops m = map Inr ks \<and> distinct ks \<and> set ks = dom (mo_get ops m)"
    and poke_present:
      "valid m \<Longrightarrow> mo_get ops m k \<noteq> None \<Longrightarrow>
         valid (mo_poke ops m k v) \<and> mo_get ops (mo_poke ops m k v) = (mo_get ops m)(k \<mapsto> v)"
begin

lemma insert_ignored_get:
  assumes "valid m"
  shows "mo_get ops (insert_ignored ops m k v) =
    (if mo_get ops m k \<noteq> None \<or> card (dom (mo_get ops m)) < max_entries
     then (mo_get ops m)(k \<mapsto> v) else mo_get ops m)"
proof (cases "mo_get ops m k \<noteq> None \<or> card (dom (mo_get ops m)) < max_entries")
  case True
  then obtain m' where "mo_insert ops m k v 0 = Inr m'"
    using assms insert_present insert_room by blast
  then show ?thesis using True assms insert_ok by (simp add: insert_ignored_def)
next
  case False
  then have "card (dom (mo_get ops m)) = max_entries" using at_most_max[OF assms] by simp
  then obtain e where "mo_insert ops m k v 0 = Inl e" using False assms insert_full by blast
  then show ?thesis using False by (simp add: insert_ignored_def)
qed

lemma insert_ignored_valid [intro]: "valid m \<Longrightarrow> valid (insert_ignored ops m k v)"
  using insert_ok by (auto simp: insert_ignored_def split: sum.split)

lemma remove_ignored_get:
  assumes "valid m"
  shows "mo_get ops (remove_ignored ops m k) = (mo_get ops m)(k := None)"
proof (cases "mo_get ops m k = None")
  case True
  then obtain e where "mo_remove ops m k = Inl e" using remove_absent[OF assms] by blast
  then show ?thesis using True by (simp add: remove_ignored_def fun_upd_idem)
next
  case False
  then show ?thesis
    using remove_present[OF assms] remove_ok[OF assms] by (force simp: remove_ignored_def)
qed

lemma remove_ignored_valid [intro]: "valid m \<Longrightarrow> valid (remove_ignored ops m k)"
  using remove_ok by (auto simp: remove_ignored_def split: sum.split)

lemma keys_flatten_present:
  assumes "valid m"
  shows "distinct (keys_flatten ops m)" and "set (keys_flatten ops m) = dom (mo_get ops m)"
proof -
  obtain ks where ks: "mo_keys ops m = map Inr ks" "distinct ks" "set ks = dom (mo_get ops m)"
    using keys_present[OF assms] by blast
  have "keys_flatten ops m = ks"
    unfolding keys_flatten_def ks(1) by (induction ks) simp_all
  then show "distinct (keys_flatten ops m)" and "set (keys_flatten ops m) = dom (mo_get ops m)"
    using ks by simp_all
qed

end

section \<open>Bounded association lists\<close>

definition E2BIG :: map_error where "E2BIG = MapError (-7)"
definition ENOENT :: map_error where "ENOENT = MapError (-2)"

definition alist_ops :: "nat \<Rightarrow> ((u32 \<times> 'v) list, 'v) map_ops" where
  "alist_ops n =
     \<lparr>mo_get = map_of,
      mo_insert = (\<lambda>m k v flags. if k \<in> fst ` set m \<or> length m < n then Inr (AList.update k v m) else Inl E2BIG),
      mo_remove = (\<lambda>m k. if k \<in> fst ` set m then Inr (AList.delete k m) else Inl ENOENT),
      mo_keys = (\<lambda>m. map (Inr \<circ> fst) m),
      mo_poke = (\<lambda>m k v. AList.update k v m)\<rparr>"

definition alist_valid :: "nat \<Rightarrow> (u32 \<times> 'v) list \<Rightarrow> bool" where
  "alist_valid n m \<longleftrightarrow> distinct (map fst m) \<and> length m \<le> n"

lemma card_dom_alist: "distinct (map fst m) \<Longrightarrow> card (dom (map_of m)) = length m"
  by (metis distinct_card dom_map_of_conv_image_fst length_map list.set_map)

lemma length_update:
  "length (AList.update k v m) = (if k \<in> fst ` set m then length m else Suc (length m))"
  by (induction m) auto

interpretation alist: bpf_hash_map "alist_ops n" n "alist_valid n" for n
proof unfold_locales
  fix m :: "(u32 \<times> 'v) list" and k v m'
  assume "alist_valid n m" and "mo_remove (alist_ops n) m k = Inr m'"
  then show "alist_valid n m' \<and> mo_get (alist_ops n) m' = (mo_get (alist_ops n) m)(k := None)"
    using length_delete_le[of k m]
    by (auto simp: alist_ops_def alist_valid_def delete_conv distinct_delete split: if_splits)
next
  fix m :: "(u32 \<times> 'v) list"
  assume "alist_valid n m"
  then show "\<exists>ks. mo_keys (alist_ops n) m = map Inr ks \<and> distinct ks \<and> set ks = dom (mo_get (alist_ops n) m)"
    by (intro exI[of _ "map fst m"]) (simp add: alist_ops_def alist_valid_def dom_map_of_conv_image_fst)
next
  fix m :: "(u32 \<times> 'v) list" and k v
  assume "alist_valid n m" and "mo_get (alist_ops n) m k \<noteq> None"
  moreover from this have "k \<in> fst ` set m" by (simp add: alist_ops_def map_of_eq_None_iff)
  ultimately show "alist_valid n (mo_poke (alist_ops n) m k v) \<and>
      mo_get (alist_ops n) (mo_poke (alist_ops n) m k v) = (mo_get (alist_ops n) m)(k \<mapsto> v)"
    by (simp add: alist_ops_def alist_valid_def update_conv' length_update distinct_update)
next
  fix m m' :: "(u32 \<times> 'v) list" and k v
  assume "alist_valid n m" and "mo_insert (alist_ops n) m k v 0 = Inr m'"
  moreover from this have "m' = AList.update k v m" and "k \<in> fst ` set m \<or> length m < n"
    by (simp_all add: alist_ops_def split: if_splits)
  ultimately show "alist_valid n m' \<and> mo_get (alist_ops n) m' = (mo_get (alist_ops n) m)(k \<mapsto> v)"
    by (elim disjE) (simp_all add: alist_ops_def alist_valid_def update_conv' length_update distinct_update)
qed (auto simp: alist_ops_def alist_valid_def card_dom_alist map_of_eq_None_iff split: if_splits)

end
