(* ===== verification/Xdp_Filter.thy ===== *)
theory Xdp_Filter
  imports Bpf_Map
begin

text \<open>
  The XDP program of \<open>rustguard-ebpf/src/main.rs\<close>: \<open>ptr_at\<close>, \<open>try_rustguard\<close> and the entry point
  \<open>rustguard\<close>.

  The packet is memory between \<open>data\<close> and \<open>data_end\<close>. A dereference outside it is \<open>Fault\<close>, so that
  memory safety is a theorem about the bounds checks. The header types of the \<open>network-types\<close> crate
  are a parameter (\<open>net_hdrs\<close>): sizes, \<open>LEN\<close> constants and accessors. The locale
  \<open>network_headers\<close> states where the protocols put the fields the accessors return.

  \<open>filter_spec\<close> is the whole filter as a decision on the packet's bytes; the program refines it.
\<close>

section \<open>The packet\<close>

record xdp_ctx =
  ctx_data :: u64
  ctx_data_end :: u64
  ctx_mem :: "u64 \<Rightarrow> u8"

datatype 'a prog = Fault | Err | Ret 'a

definition prog_bind :: "'a prog \<Rightarrow> ('a \<Rightarrow> 'b prog) \<Rightarrow> 'b prog" where
  "prog_bind m f = (case m of Fault \<Rightarrow> Fault | Err \<Rightarrow> Err | Ret x \<Rightarrow> f x)"

lemma prog_bind_simps [simp]:
  "prog_bind Fault f = Fault" "prog_bind Err f = Err" "prog_bind (Ret x) f = f x"
  by (simp_all add: prog_bind_def)

definition deref :: "xdp_ctx \<Rightarrow> u64 \<Rightarrow> nat \<Rightarrow> bytes prog" where
  "deref ctx p n =
     (if unat (ctx_data ctx) \<le> unat p \<and> unat p + n \<le> unat (ctx_data_end ctx)
      then Ret (map (\<lambda>i. ctx_mem ctx (p + word_of_nat i)) [0..<n]) else Fault)"

definition ptr_at :: "nat \<Rightarrow> xdp_ctx \<Rightarrow> u64 \<Rightarrow> u64 prog" where
  "ptr_at size_T ctx offset =
     (let start = ctx_data ctx; end' = ctx_data_end ctx; len = word_of_nat size_T
      in if start + offset + len > end' then Err else Ret (start + offset))"

section \<open>The header types of the network-types crate\<close>

datatype ether_type = EtherIpv4 | EtherOther u16
datatype ip_proto = IpTcp | IpUdp | IpOther u8

record net_hdrs =
  EthHdr_size :: nat
  EthHdr_LEN :: u64
  EthHdr_ether_type :: "bytes \<Rightarrow> u16 + ether_type"
  Ipv4Hdr_size :: nat
  Ipv4Hdr_LEN :: u64
  Ipv4Hdr_src_addr :: "bytes \<Rightarrow> bytes"
  Ipv4Hdr_proto :: "bytes \<Rightarrow> u8 + ip_proto"
  TcpHdr_size :: nat
  TcpHdr_source :: "bytes \<Rightarrow> bytes"
  UdpHdr_size :: nat
  UdpHdr_src_port :: "bytes \<Rightarrow> u16"

section \<open>The program\<close>

datatype xdp_action = XDP_ABORTED | XDP_DROP | XDP_PASS

text \<open>
  The header walk of \<open>try_rustguard\<close>: \<open>Ret None\<close> is the early \<open>return Ok(XDP_PASS)\<close> for a frame that
  is not IPv4, \<open>Ret (Some (src_addr, source_port))\<close> falls through to the ban lookup.
\<close>

definition source_port_of :: "net_hdrs \<Rightarrow> xdp_ctx \<Rightarrow> ip_proto \<Rightarrow> u16 prog" where
  "source_port_of nh ctx proto =
     (case proto of
        IpTcp \<Rightarrow> prog_bind (ptr_at (TcpHdr_size nh) ctx (EthHdr_LEN nh + Ipv4Hdr_LEN nh)) (\<lambda>tcphdr.
          prog_bind (deref ctx tcphdr (TcpHdr_size nh)) (\<lambda>tcp.
            Ret (from_be_bytes (TcpHdr_source nh tcp))))
      | IpUdp \<Rightarrow> prog_bind (ptr_at (UdpHdr_size nh) ctx (EthHdr_LEN nh + Ipv4Hdr_LEN nh)) (\<lambda>udphdr.
          prog_bind (deref ctx udphdr (UdpHdr_size nh)) (\<lambda>udp.
            Ret (UdpHdr_src_port nh udp)))
      | _ \<Rightarrow> Err)"

definition packet_source :: "net_hdrs \<Rightarrow> xdp_ctx \<Rightarrow> (u32 \<times> u16) option prog" where
  "packet_source nh ctx =
     prog_bind (ptr_at (EthHdr_size nh) ctx 0) (\<lambda>ethhdr.
     prog_bind (deref ctx ethhdr (EthHdr_size nh)) (\<lambda>eth.
       case EthHdr_ether_type nh eth of
         Inr EtherIpv4 \<Rightarrow>
           prog_bind (ptr_at (Ipv4Hdr_size nh) ctx (EthHdr_LEN nh)) (\<lambda>ipv4hdr.
           prog_bind (deref ctx ipv4hdr (Ipv4Hdr_size nh)) (\<lambda>ip.
             let src_addr = from_be_bytes (Ipv4Hdr_src_addr nh ip)
             in case Ipv4Hdr_proto nh ip of
                  Inl _ \<Rightarrow> Err
                | Inr proto \<Rightarrow> prog_bind (source_port_of nh ctx proto) (\<lambda>port. Ret (Some (src_addr, port)))))
       | _ \<Rightarrow> Ret None))"

text \<open>The test \<open>ban.end_time == 0 || now <= ban.end_time\<close>.\<close>

definition ban_active :: "u64 \<Rightarrow> BanValue \<Rightarrow> bool" where
  "ban_active now ban \<longleftrightarrow> end_time ban = 0 \<or> now \<le> end_time ban"

text \<open>The capacities the two maps are declared with.\<close>

definition BANNED_IPS_max_entries :: nat where "BANNED_IPS_max_entries = 1024"
definition STATS_max_entries :: nat where "STATS_max_entries = 1024"

text \<open>The increment of the drop counter, done only when the entry with key 0 exists.\<close>

definition count_drop :: "('s, StatsValue) map_ops \<Rightarrow> 's \<Rightarrow> 's" where
  "count_drop sops stats =
     (case mo_get sops stats 0 of
        None \<Rightarrow> stats
      | Some stat \<Rightarrow> mo_poke sops stats 0 (stat\<lparr>packets_dropped := packets_dropped stat + 1\<rparr>))"

text \<open>
  The result of a run: the action or error, the address and port logged by \<open>info!\<close> on a drop, and
  the statistics map. The map of bans is only read.
\<close>

definition try_rustguard ::
  "net_hdrs \<Rightarrow> ('b, BanValue) map_ops \<Rightarrow> ('s, StatsValue) map_ops \<Rightarrow> u64 \<Rightarrow> xdp_ctx \<Rightarrow> 'b \<Rightarrow> 's \<Rightarrow>
     xdp_action prog \<times> (u32 \<times> u16) option \<times> 's" where
  "try_rustguard nh bops sops now ctx bans stats =
     (case packet_source nh ctx of
        Fault \<Rightarrow> (Fault, None, stats)
      | Err \<Rightarrow> (Err, None, stats)
      | Ret None \<Rightarrow> (Ret XDP_PASS, None, stats)
      | Ret (Some (src_addr, source_port)) \<Rightarrow>
          (case mo_get bops bans src_addr of
             Some ban \<Rightarrow>
               if ban_active now ban
               then (Ret XDP_DROP, Some (src_addr, source_port), count_drop sops stats)
               else (Ret XDP_PASS, None, stats)
           | None \<Rightarrow> (Ret XDP_PASS, None, stats)))"

definition rustguard ::
  "net_hdrs \<Rightarrow> ('b, BanValue) map_ops \<Rightarrow> ('s, StatsValue) map_ops \<Rightarrow> u64 \<Rightarrow> xdp_ctx \<Rightarrow> 'b \<Rightarrow> 's \<Rightarrow>
     xdp_action prog \<times> (u32 \<times> u16) option \<times> 's" where
  "rustguard nh bops sops now ctx bans stats =
     (case try_rustguard nh bops sops now ctx bans stats of
        (Err, log, stats') \<Rightarrow> (Ret XDP_ABORTED, log, stats')
      | r \<Rightarrow> r)"

section \<open>Specification of the filter\<close>

text \<open>
  The decision as a function of the bytes of the frame. Offsets 12, 23 and 26 are the EtherType, the
  IPv4 protocol and the IPv4 source address of an Ethernet frame; 54 and 42 are the ends of a TCP and
  of a UDP header behind an IPv4 header without options.
\<close>

datatype verdict = Malformed | Unsupported | NotIpv4 | Flow u32 u16

definition classify :: "bytes \<Rightarrow> verdict" where
  "classify pkt =
     (if length pkt < 14 then Malformed
      else if subseq_at 12 2 pkt \<noteq> [0x08, 0x00] then NotIpv4
      else if length pkt < 34 then Malformed
      else if pkt ! 23 \<noteq> 6 \<and> pkt ! 23 \<noteq> 17 then Unsupported
      else if length pkt < (if pkt ! 23 = 6 then 54 else 42) then Malformed
      else Flow (from_be_bytes (subseq_at 26 4 pkt)) (from_be_bytes (subseq_at 34 2 pkt)))"

definition filter_spec :: "(u32 \<rightharpoonup> BanValue) \<Rightarrow> u64 \<Rightarrow> bytes \<Rightarrow> xdp_action" where
  "filter_spec bans now pkt =
     (case classify pkt of
        Malformed \<Rightarrow> XDP_ABORTED
      | Unsupported \<Rightarrow> XDP_ABORTED
      | NotIpv4 \<Rightarrow> XDP_PASS
      | Flow src port \<Rightarrow>
          (case bans src of None \<Rightarrow> XDP_PASS
           | Some ban \<Rightarrow> if ban_active now ban then XDP_DROP else XDP_PASS))"

text \<open>
  The bytes of the packet, and the contexts the kernel passes: \<open>data\<close> and \<open>data_end\<close> are 64-bit addresses, in order,
  and a packet does not end in the last \<open>2 ^ 18\<close> bytes of the address space, which the kernel never maps to packets.
\<close>

definition packet_bytes :: "xdp_ctx \<Rightarrow> bytes" where
  "packet_bytes ctx =
     map (\<lambda>i. ctx_mem ctx (ctx_data ctx + word_of_nat i))
       [0..<unat (ctx_data_end ctx) - unat (ctx_data ctx)]"

definition ctx_wf :: "xdp_ctx \<Rightarrow> bool" where
  "ctx_wf ctx \<longleftrightarrow> unat (ctx_data ctx) \<le> unat (ctx_data_end ctx) \<and> unat (ctx_data_end ctx) + 2 ^ 18 \<le> 2 ^ 64"

section \<open>Bounds checks\<close>

lemma length_packet_bytes:
  "length (packet_bytes ctx) = unat (ctx_data_end ctx) - unat (ctx_data ctx)"
  by (simp add: packet_bytes_def)

lemma ptr_at_eq:
  assumes "ctx_wf ctx" and "unat off + n < 2 ^ 18"
  shows "ptr_at n ctx off =
    (if unat off + n \<le> length (packet_bytes ctx) then Ret (ctx_data ctx + off) else Err)"
proof -
  have n: "unat (word_of_nat n :: u64) = n" using assms(2) by (simp add: unat_of_nat)
  have "unat (ctx_data ctx + off + word_of_nat n) = unat (ctx_data ctx) + unat off + n"
    using assms by (simp add: ctx_wf_def unat_word_ariths n)
  then show ?thesis
    using assms(1)
    by (auto simp: ptr_at_def Let_def ctx_wf_def length_packet_bytes word_less_nat_alt)
qed

lemma deref_eq:
  assumes "ctx_wf ctx" and "unat off + n \<le> length (packet_bytes ctx)"
  shows "deref ctx (ctx_data ctx + off) n = Ret (subseq_at (unat off) n (packet_bytes ctx))"
proof -
  have "unat (ctx_data ctx) + unat off < 2 ^ 64"
    using assms by (auto simp: ctx_wf_def length_packet_bytes)
  then have "unat (ctx_data ctx + off) = unat (ctx_data ctx) + unat off"
    by (simp add: unat_word_ariths)
  moreover have "map (\<lambda>i. ctx_mem ctx (ctx_data ctx + off + word_of_nat i)) [0..<n] =
      subseq_at (unat off) n (packet_bytes ctx)"
    using assms(2)
    by (intro nth_equalityI) (simp_all add: subseq_at_def packet_bytes_def add.assoc)
  ultimately show ?thesis
    using assms by (auto simp: deref_def ctx_wf_def length_packet_bytes)
qed

text \<open>A checked header read: an error when the header passes the end of the packet, else its bytes.\<close>

lemma read_header:
  assumes "ctx_wf ctx" and "unat off + n < 2 ^ 18"
  shows "prog_bind (ptr_at n ctx off) (\<lambda>p. prog_bind (deref ctx p n) f) =
    (if unat off + n \<le> length (packet_bytes ctx)
     then f (subseq_at (unat off) n (packet_bytes ctx)) else Err)"
  using assms by (simp add: ptr_at_eq deref_eq)

text \<open>The sizes and offsets of any sensible header library are far from the ends of the address space.\<close>

definition small_headers :: "net_hdrs \<Rightarrow> bool" where
  "small_headers nh \<longleftrightarrow>
     EthHdr_size nh < 2 ^ 16 \<and> Ipv4Hdr_size nh < 2 ^ 16 \<and> TcpHdr_size nh < 2 ^ 16 \<and>
     UdpHdr_size nh < 2 ^ 16 \<and> unat (EthHdr_LEN nh) < 2 ^ 16 \<and> unat (Ipv4Hdr_LEN nh) < 2 ^ 16"

lemma source_port_no_fault:
  assumes "ctx_wf ctx" and "small_headers nh"
  shows "source_port_of nh ctx proto \<noteq> Fault"
proof -
  have "unat (EthHdr_LEN nh + Ipv4Hdr_LEN nh) < 2 ^ 17"
    using assms(2) by (simp add: small_headers_def unat_word_ariths)
  then show ?thesis
    using assms by (auto simp: source_port_of_def small_headers_def read_header split: ip_proto.split)
qed

lemma packet_source_no_fault:
  assumes "ctx_wf ctx" and "small_headers nh"
  shows "packet_source nh ctx \<noteq> Fault"
proof -
  have "prog_bind (source_port_of nh ctx proto) (\<lambda>port. Ret (Some (a, port))) \<noteq> Fault" for proto and a :: u32
    using source_port_no_fault[OF assms, of proto] by (cases "source_port_of nh ctx proto") auto
  then show ?thesis
    using assms
    by (auto simp: packet_source_def small_headers_def read_header Let_def
        split: sum.split ether_type.split)
qed

section \<open>Where the headers keep their fields\<close>

text \<open>
  What the program relies on in \<open>network-types\<close>: the sizes of the fixed headers, and that the
  accessors return the EtherType, source address, protocol and source port of the wire formats
  (IEEE 802.3, RFC 791, RFC 9293, RFC 768). Nothing is assumed of the accessors' other results.
\<close>

locale network_headers =
  fixes nh :: net_hdrs
  assumes sizes: "EthHdr_size nh = 14" "EthHdr_LEN nh = 14" "Ipv4Hdr_size nh = 20"
      "Ipv4Hdr_LEN nh = 20" "TcpHdr_size nh = 20" "UdpHdr_size nh = 8"
    and ether_type_ipv4:
      "length eth = 14 \<Longrightarrow> EthHdr_ether_type nh eth = Inr EtherIpv4 \<longleftrightarrow> subseq_at 12 2 eth = [0x08, 0x00]"
    and src_addr: "length ip = 20 \<Longrightarrow> Ipv4Hdr_src_addr nh ip = subseq_at 12 4 ip"
    and proto_tcp: "length ip = 20 \<Longrightarrow> Ipv4Hdr_proto nh ip = Inr IpTcp \<longleftrightarrow> ip ! 9 = 6"
    and proto_udp: "length ip = 20 \<Longrightarrow> Ipv4Hdr_proto nh ip = Inr IpUdp \<longleftrightarrow> ip ! 9 = 17"
    and tcp_source: "length tcp = 20 \<Longrightarrow> TcpHdr_source nh tcp = subseq_at 0 2 tcp"
    and udp_src_port: "length udp = 8 \<Longrightarrow> UdpHdr_src_port nh udp = from_be_bytes (subseq_at 0 2 udp)"
begin

lemma small: "small_headers nh"
  by (simp add: small_headers_def sizes)

lemma at_at: "j + m \<le> n \<Longrightarrow> subseq_at j m (subseq_at k n xs) = subseq_at (k + j) m xs"
  by (simp add: subseq_at_def drop_take add.commute min_absorb1)

lemma at_nth: "j < n \<Longrightarrow> k + j < length xs \<Longrightarrow> subseq_at k n xs ! j = xs ! (k + j)"
  by (simp add: subseq_at_def)

lemma source_port_tcp:
  assumes "ctx_wf ctx"
  shows "source_port_of nh ctx IpTcp =
    (if length (packet_bytes ctx) < 54 then Err
     else Ret (from_be_bytes (subseq_at 34 2 (packet_bytes ctx))))"
  using assms by (simp add: source_port_of_def sizes read_header tcp_source at_at subseq_at_def)

lemma source_port_udp:
  assumes "ctx_wf ctx"
  shows "source_port_of nh ctx IpUdp =
    (if length (packet_bytes ctx) < 42 then Err
     else Ret (from_be_bytes (subseq_at 34 2 (packet_bytes ctx))))"
  using assms by (simp add: source_port_of_def sizes read_header udp_src_port at_at subseq_at_def)

text \<open>The header walk computes the classification of the packet's bytes.\<close>

lemma packet_source_eq:
  assumes wf: "ctx_wf ctx"
  shows "packet_source nh ctx =
    (case classify (packet_bytes ctx) of
       Malformed \<Rightarrow> Err | Unsupported \<Rightarrow> Err | NotIpv4 \<Rightarrow> Ret None
     | Flow src port \<Rightarrow> Ret (Some (src, port)))"
proof -
  let ?pkt = "packet_bytes ctx"
  define ip where "ip = subseq_at 14 20 ?pkt"
  define ipv4_case where "ipv4_case =
    (case Ipv4Hdr_proto nh ip of
       Inl e \<Rightarrow> Err
     | Inr proto \<Rightarrow> prog_bind (source_port_of nh ctx proto)
         (\<lambda>port. Ret (Some (from_be_bytes (Ipv4Hdr_src_addr nh ip) :: u32, port))))"
  define ipv4_or_pass where "ipv4_or_pass =
    (case EthHdr_ether_type nh (subseq_at 0 14 ?pkt) of
       Inr EtherIpv4 \<Rightarrow> if 34 \<le> length ?pkt then ipv4_case else Err | _ \<Rightarrow> Ret None)"
  have "packet_source nh ctx = (if 14 \<le> length ?pkt then ipv4_or_pass else Err)"
    by (simp add: packet_source_def read_header[OF wf] sizes ipv4_or_pass_def ipv4_case_def ip_def
        split: sum.split ether_type.split)
  moreover have "ipv4_or_pass =
    (if subseq_at 12 2 ?pkt = [8, 0] then if 34 \<le> length ?pkt then ipv4_case else Err else Ret None)"
    if "14 \<le> length ?pkt"
  proof -
    have "length (subseq_at 0 14 ?pkt) = 14" using that by (simp add: subseq_at_def)
    then have "EthHdr_ether_type nh (subseq_at 0 14 ?pkt) = Inr EtherIpv4 \<longleftrightarrow> subseq_at 12 2 ?pkt = [8, 0]"
      using ether_type_ipv4 at_at[of 12 2 14 0 ?pkt] by simp
    then show ?thesis by (auto simp: ipv4_or_pass_def split: sum.split ether_type.split)
  qed
  ultimately have walk: "packet_source nh ctx =
    (if length ?pkt < 14 then Err
     else if subseq_at 12 2 ?pkt \<noteq> [8, 0] then Ret None
     else if length ?pkt < 34 then Err else ipv4_case)"
    by auto
  show ?thesis
  proof (cases "34 \<le> length ?pkt")
    case True
    then have len: "length ip = 20" by (simp add: ip_def subseq_at_def)
    have src: "Ipv4Hdr_src_addr nh ip = subseq_at 26 4 ?pkt"
      using src_addr[OF len] at_at[of 12 4 20 14 ?pkt] by (simp add: ip_def)
    have p9: "ip ! 9 = ?pkt ! 23" using at_nth[of 9 20 14 ?pkt] True by (simp add: ip_def)
    note protos = proto_tcp[OF len, unfolded p9] proto_udp[OF len, unfolded p9]
    consider "?pkt ! 23 = 6" | "?pkt ! 23 = 17" | "?pkt ! 23 \<noteq> 6" "?pkt ! 23 \<noteq> 17" by blast
    then show ?thesis
    proof cases
      case 1
      then have "Ipv4Hdr_proto nh ip = Inr IpTcp" using protos by simp
      then show ?thesis using 1 True walk src
        by (auto simp: classify_def ipv4_case_def source_port_tcp[OF wf])
    next
      case 2
      then have "Ipv4Hdr_proto nh ip = Inr IpUdp" using protos by simp
      then show ?thesis using 2 True walk src
        by (auto simp: classify_def ipv4_case_def source_port_udp[OF wf])
    next
      case 3
      then have "ipv4_case = Err"
        using protos by (auto simp: ipv4_case_def source_port_of_def split: sum.split ip_proto.split)
      then show ?thesis using 3 walk by (auto simp: classify_def)
    qed
  next
    case False
    then show ?thesis using walk by (auto simp: classify_def)
  qed
qed

lemma rustguard_action:
  assumes "ctx_wf ctx"
  shows "fst (rustguard nh bops sops now ctx bans stats) =
    Ret (filter_spec (mo_get bops bans) now (packet_bytes ctx))"
  unfolding rustguard_def try_rustguard_def packet_source_eq[OF assms] filter_spec_def
  by (simp split: verdict.split option.split)

end

text \<open>The wire formats themselves are an instance.\<close>

definition rfc_headers :: net_hdrs where
  "rfc_headers =
     \<lparr>EthHdr_size = 14, EthHdr_LEN = 14,
      EthHdr_ether_type = (\<lambda>eth. let t = from_be_bytes (subseq_at 12 2 eth)
        in if t = 0x0800 then Inr EtherIpv4 else if t = 0x86DD \<or> t = 0x0806 then Inr (EtherOther t) else Inl t),
      Ipv4Hdr_size = 20, Ipv4Hdr_LEN = 20,
      Ipv4Hdr_src_addr = subseq_at 12 4,
      Ipv4Hdr_proto = (\<lambda>ip. if ip ! 9 = 6 then Inr IpTcp else if ip ! 9 = 17 then Inr IpUdp
        else if ip ! 9 \<le> 145 then Inr (IpOther (ip ! 9)) else Inl (ip ! 9)),
      TcpHdr_size = 20, TcpHdr_source = subseq_at 0 2,
      UdpHdr_size = 8, UdpHdr_src_port = (\<lambda>udp. from_be_bytes (subseq_at 0 2 udp))\<rparr>"

lemma from_be_bytes_2_eq:
  assumes "length bs = 2"
  shows "(from_be_bytes bs :: u16) = from_be_bytes [a, b] \<longleftrightarrow> bs = [a, b]"
proof
  assume "(from_be_bytes bs :: u16) = from_be_bytes [a, b]"
  then have "to_be_bytes 2 (from_be_bytes bs :: u16) = to_be_bytes 2 (from_be_bytes [a, b] :: u16)"
    by simp
  then show "bs = [a, b]" using assms by (simp add: to_be_from_be_bytes)
qed simp

interpretation rfc: network_headers rfc_headers
proof unfold_locales
  fix eth :: bytes
  assume "length eth = 14"
  then have "length (subseq_at 12 2 eth) = 2" by (simp add: subseq_at_def)
  moreover have "(from_be_bytes [8, 0] :: u16) = 0x800" by (simp add: from_be_bytes_def)
  ultimately show "EthHdr_ether_type rfc_headers eth = Inr EtherIpv4 \<longleftrightarrow> subseq_at 12 2 eth = [8, 0]"
    using from_be_bytes_2_eq[of "subseq_at 12 2 eth" 8 0] by (simp add: rfc_headers_def Let_def)
qed (simp_all add: rfc_headers_def)

section \<open>Properties\<close>

text \<open>A context over a given packet, at a given address, for the concrete instances.\<close>

definition ctx_of_packet :: "u64 \<Rightarrow> bytes \<Rightarrow> xdp_ctx" where
  "ctx_of_packet base pkt =
     \<lparr>ctx_data = base, ctx_data_end = base + word_of_nat (length pkt), ctx_mem = (\<lambda>a. pkt ! unat (a - base))\<rparr>"

lemma ctx_of_packet_bytes:
  assumes "unat base + length pkt < 2 ^ 32"
  shows "ctx_wf (ctx_of_packet base pkt)" and "packet_bytes (ctx_of_packet base pkt) = pkt"
proof -
  have len: "unat (word_of_nat (length pkt) :: u64) = length pkt" using assms by (simp add: unat_of_nat)
  have e: "unat (base + word_of_nat (length pkt)) = unat base + length pkt"
    using assms len by (simp add: unat_word_ariths)
  show "ctx_wf (ctx_of_packet base pkt)"
    using assms e by (simp add: ctx_wf_def ctx_of_packet_def)
  have "unat (word_of_nat i :: u64) = i" if "i < length pkt" for i
    using that assms by (simp add: unat_of_nat)
  then show "packet_bytes (ctx_of_packet base pkt) = pkt"
    using e by (intro nth_equalityI) (simp_all add: packet_bytes_def ctx_of_packet_def)
qed

text \<open>An Ethernet frame with an IPv4 packet of protocol \<open>proto\<close> from 10.0.0.1, source port 8080.\<close>

definition sample_frame :: "u8 \<Rightarrow> bytes" where
  "sample_frame proto =
     replicate 12 0 @ [0x08, 0x00] @
     [0x45, 0, 0, 40, 0, 0, 0, 0, 64, proto, 0, 0, 10, 0, 0, 1, 10, 0, 0, 2] @
     [0x1f, 0x90] @ replicate 18 0"

lemma sample_frame_ctx:
  "ctx_wf (ctx_of_packet 4096 (sample_frame proto))"
  "packet_bytes (ctx_of_packet 4096 (sample_frame proto)) = sample_frame proto"
  by (rule ctx_of_packet_bytes, simp add: sample_frame_def)+

lemma classify_sample_frame:
  "classify (sample_frame 6) = Flow 0x0a000001 8080"
  "classify (sample_frame 17) = Flow 0x0a000001 8080"
  by (simp_all add: classify_def sample_frame_def subseq_at_def from_be_bytes_def nth_append)

text \<open>
  C5. The XDP program is the specified filter: for every packet the kernel can pass and every header
  library that keeps the fields where the protocols put them, \<open>rustguard\<close> terminates without a fault
  and its action is the one \<open>filter_spec\<close> gives for the bytes of the frame, the bans and the time.
\<close>

theorem rustguard_refines_filter_spec:
  assumes "network_headers nh" and "ctx_wf ctx"
  shows "fst (rustguard nh bops sops now ctx bans stats) =
    Ret (filter_spec (mo_get bops bans) now (packet_bytes ctx))"
  using assms by (rule network_headers.rustguard_action)

theorem rustguard_refines_filter_spec_witness:
  "fst (rustguard rfc_headers (alist_ops 1024) (alist_ops 1024) 5 (ctx_of_packet 4096 (sample_frame 6))
     [(0x0a000001, \<lparr>end_time = 0\<rparr>)] []) = Ret XDP_DROP"
  unfolding rustguard_refines_filter_spec[OF rfc.network_headers_axioms sample_frame_ctx(1)]
  by (simp add: sample_frame_ctx(2) filter_spec_def classify_sample_frame alist_ops_def ban_active_def)

text \<open>
  C10. Memory safety: whatever the header library, as long as its sizes and offsets are below
  \<open>2 ^ 16\<close>, no run of the program reads outside the packet: every dereference lies behind a
  \<open>ptr_at\<close> check that covers it.
\<close>

theorem rustguard_memory_safe:
  assumes "ctx_wf ctx" and "small_headers nh"
  shows "fst (rustguard nh bops sops now ctx bans stats) \<noteq> Fault"
  using packet_source_no_fault[OF assms]
  by (auto simp: rustguard_def try_rustguard_def split: prog.splits option.splits prod.splits if_splits)

theorem rustguard_memory_safe_witness:
  "fst (rustguard rfc_headers (alist_ops 1024) (alist_ops 1024) 5 (ctx_of_packet 4096 [1, 2, 3])
     [(0x0a000001, \<lparr>end_time = 0\<rparr>)] []) \<noteq> Fault"
  by (rule rustguard_memory_safe) (simp_all add: ctx_of_packet_bytes rfc.small)

text \<open>
  C26. An IPv4 packet whose protocol is neither TCP nor UDP (ICMP, for example) is aborted whatever
  its source: even with no ban at all it does not pass, nothing is logged and nothing is counted.
\<close>

theorem rustguard_aborts_other_protocols:
  assumes "network_headers nh" and "ctx_wf ctx"
    and "34 \<le> length (packet_bytes ctx)" and "subseq_at 12 2 (packet_bytes ctx) = [0x08, 0x00]"
    and "packet_bytes ctx ! 23 \<noteq> 6" and "packet_bytes ctx ! 23 \<noteq> 17"
  shows "rustguard nh bops sops now ctx bans stats = (Ret XDP_ABORTED, None, stats)"
proof -
  have "classify (packet_bytes ctx) = Unsupported" using assms(3-6) by (simp add: classify_def)
  then show ?thesis
    using network_headers.packet_source_eq[OF assms(1,2)] by (simp add: rustguard_def try_rustguard_def)
qed

theorem rustguard_aborts_other_protocols_witness:
  "rustguard rfc_headers (alist_ops 1024) (alist_ops 1024) 5 (ctx_of_packet 4096 (sample_frame 1))
     [] [] = (Ret XDP_ABORTED, None, [])"
  by (rule rustguard_aborts_other_protocols[OF rfc.network_headers_axioms sample_frame_ctx(1)];
      unfold sample_frame_ctx(2)) (simp_all add: sample_frame_def subseq_at_def nth_append)

text \<open>
  C27. Accounting, in every run, whether the counter entry exists or not: something is logged exactly when the packet
  is dropped, and then it is the source address and source port of the frame; the statistics map changes
  only on a drop, and only in that the counter, if it exists, goes up by one, modulo \<open>2 ^ 64\<close>.
\<close>

theorem rustguard_counts_drops:
  assumes "bpf_hash_map sops max_entries valid" and "valid stats"
    and "rustguard nh bops sops now ctx bans stats = (a, log, stats')"
  shows "(log \<noteq> None \<longleftrightarrow> a = Ret XDP_DROP) \<and>
    (network_headers nh \<and> ctx_wf ctx \<longrightarrow>
      (\<forall>src port. log = Some (src, port) \<longleftrightarrow> a = Ret XDP_DROP \<and> classify (packet_bytes ctx) = Flow src port)) \<and>
    mo_get sops stats' =
      (if a = Ret XDP_DROP
       then (mo_get sops stats)
         (0 := map_option (\<lambda>v. v\<lparr>packets_dropped := packets_dropped v + 1\<rparr>) (mo_get sops stats 0))
       else mo_get sops stats)"
proof (intro conjI impI)
  show "log \<noteq> None \<longleftrightarrow> a = Ret XDP_DROP"
    using assms(3) by (auto simp: rustguard_def try_rustguard_def split: prog.splits option.splits prod.splits if_splits)
  show "\<forall>src port. log = Some (src, port) \<longleftrightarrow> a = Ret XDP_DROP \<and> classify (packet_bytes ctx) = Flow src port"
    if "network_headers nh \<and> ctx_wf ctx"
    using assms(3) that
    by (auto simp: rustguard_def try_rustguard_def network_headers.packet_source_eq
        split: verdict.splits option.splits if_splits)
  have "mo_get sops (count_drop sops stats) = (mo_get sops stats)
      (0 := map_option (\<lambda>v. v\<lparr>packets_dropped := packets_dropped v + 1\<rparr>) (mo_get sops stats 0))"
    using bpf_hash_map.poke_present[OF assms(1,2), of 0] by (auto simp: count_drop_def fun_upd_idem split: option.split)
  moreover have "stats' = (if a = Ret XDP_DROP then count_drop sops stats else stats)"
    using assms(3) by (auto simp: rustguard_def try_rustguard_def split: prog.splits option.splits prod.splits if_splits)
  ultimately show "mo_get sops stats' =
      (if a = Ret XDP_DROP
       then (mo_get sops stats)
         (0 := map_option (\<lambda>v. v\<lparr>packets_dropped := packets_dropped v + 1\<rparr>) (mo_get sops stats 0))
       else mo_get sops stats)"
    by simp
qed

text \<open>A dropped packet with the counter at its largest value, and one without a counter: both are logged.\<close>

lemma sample_drop:
  "fst (rustguard rfc_headers (alist_ops 1024) (alist_ops 1024) 5 (ctx_of_packet 4096 (sample_frame 6))
     [(0x0a000001, \<lparr>end_time = 9\<rparr>)] st) = Ret XDP_DROP"
  unfolding rfc.rustguard_action[OF sample_frame_ctx(1)]
  by (simp add: sample_frame_ctx(2) filter_spec_def classify_sample_frame alist_ops_def ban_active_def)

theorem rustguard_counts_drops_witness:
  "mo_get (alist_ops 1024)
     (snd (snd (rustguard rfc_headers (alist_ops 1024) (alist_ops 1024) 5
        (ctx_of_packet 4096 (sample_frame 6)) [(0x0a000001, \<lparr>end_time = 9\<rparr>)]
        [(0, \<lparr>packets_dropped = - 1\<rparr>)]))) 0 = Some \<lparr>packets_dropped = 0\<rparr> \<and>
   fst (snd (rustguard rfc_headers (alist_ops 1024) (alist_ops 1024) 5
        (ctx_of_packet 4096 (sample_frame 6)) [(0x0a000001, \<lparr>end_time = 9\<rparr>)] [])) = Some (0x0a000001, 8080)"
proof -
  let ?r = "rustguard rfc_headers (alist_ops 1024) (alist_ops 1024) 5 (ctx_of_packet 4096 (sample_frame 6))
      [(0x0a000001, \<lparr>end_time = 9\<rparr>)]"
  have eq: "?r st = (Ret XDP_DROP, fst (snd (?r st)), snd (snd (?r st)))" for st
    using sample_drop[of st] by (simp add: prod_eq_iff)
  have valid: "alist_valid 1024 [(0, \<lparr>packets_dropped = - 1\<rparr>)]" "alist_valid 1024 []"
    by (simp_all add: alist_valid_def)
  note counts = rustguard_counts_drops[OF alist.bpf_hash_map_axioms _ eq]
  have "mo_get (alist_ops 1024) (snd (snd (?r [(0, \<lparr>packets_dropped = - 1\<rparr>)]))) 0 = Some \<lparr>packets_dropped = 0\<rparr>"
    using counts[OF valid(1)] by (simp add: alist_ops_def)
  moreover have "fst (snd (?r [])) = Some (0x0a000001, 8080)"
    using counts[OF valid(2), THEN conjunct2, THEN conjunct1, THEN mp,
        OF conjI[OF rfc.network_headers_axioms sample_frame_ctx(1)]]
    by (simp add: sample_frame_ctx(2) classify_sample_frame)
  ultimately show ?thesis by blast
qed

end
