(* ===== verification/Std_Net.thy ===== *)
theory Std_Net
  imports Prelude
begin

text \<open>
  What the program uses of \<open>std::net\<close>: parsing and printing \<open>Ipv4Addr\<close>, printing \<open>Ipv6Addr\<close>. An
  address is the list of its octets in network order. The parser follows \<open>core::net::parser\<close>: at
  most fifteen characters, four groups of one to three digits, no leading zero, nothing after them.
\<close>

type_synonym ipv4 = bytes

definition ipv4_of_u32 :: "u32 \<Rightarrow> ipv4" where
  "ipv4_of_u32 x = to_be_bytes 4 x"

definition u32_of_ipv4 :: "ipv4 \<Rightarrow> u32" where
  "u32_of_ipv4 g = from_be_bytes g"

section \<open>Parsing\<close>

text \<open>The loop of \<open>read_number(10, Some(3), false)\<close>: the value, the count of digits and the rest.\<close>

fun read_digits :: "nat \<Rightarrow> nat \<Rightarrow> string \<Rightarrow> (nat \<times> nat \<times> string) option" where
  "read_digits r k [] = Some (r, k, [])"
| "read_digits r k (c # cs) =
     (if is_dec_digit c
      then if k + 1 > 3 then None else read_digits (10 * r + dec_digit_val c) (k + 1) cs
      else Some (r, k, c # cs))"

definition read_number :: "string \<Rightarrow> (u8 \<times> string) option" where
  "read_number s =
     (case read_digits 0 0 s of
        None \<Rightarrow> None
      | Some (r, k, rest) \<Rightarrow>
          if k = 0 then None
          else if take 1 s = ''0'' \<and> k > 1 then None
          else if r < 256 then Some (word_of_nat r, rest) else None)"

definition read_given_char :: "char \<Rightarrow> string \<Rightarrow> string option" where
  "read_given_char c s = (case s of [] \<Rightarrow> None | x # xs \<Rightarrow> if x = c then Some xs else None)"

definition read_group :: "nat \<Rightarrow> string \<Rightarrow> (u8 \<times> string) option" where
  "read_group i s =
     (if i > 0 then Option.bind (read_given_char (CHR ''.'') s) read_number else read_number s)"

fun read_groups :: "nat \<Rightarrow> nat \<Rightarrow> string \<Rightarrow> (bytes \<times> string) option" where
  "read_groups i 0 s = Some ([], s)"
| "read_groups i (Suc n) s =
     Option.bind (read_group i s)
       (\<lambda>(b, rest). map_option (\<lambda>(bs, rest'). (b # bs, rest')) (read_groups (Suc i) n rest))"

definition ipv4_from_str :: "string \<Rightarrow> ipv4 option" where
  "ipv4_from_str s =
     (if length s > 15 then None
      else case read_groups 0 4 s of Some (g, []) \<Rightarrow> Some g | _ \<Rightarrow> None)"

section \<open>Printing\<close>

definition u8_string :: "u8 \<Rightarrow> string" where
  "u8_string b = dec_string (unat b)"

fun ipv4_tail_string :: "bytes \<Rightarrow> string" where
  "ipv4_tail_string [] = []"
| "ipv4_tail_string (b # bs) = CHR ''.'' # u8_string b @ ipv4_tail_string bs"

definition ipv4_to_string :: "ipv4 \<Rightarrow> string" where
  "ipv4_to_string g = (case g of [] \<Rightarrow> [] | b # bs \<Rightarrow> u8_string b @ ipv4_tail_string bs)"

text \<open>
  \<open>Ipv6Addr\<close>: eight big-endian segments in hexadecimal; the first longest run of two or more zero
  segments is written \<open>::\<close>; an IPv4-mapped address ends in dotted decimal.
\<close>

fun ipv6_segments :: "bytes \<Rightarrow> u16 list" where
  "ipv6_segments (a # b # bs) = from_be_bytes [a, b] # ipv6_segments bs"
| "ipv6_segments _ = []"

text \<open>The scan for the longest zero run: the index, the current run and the longest so far.\<close>

fun zero_span :: "nat \<Rightarrow> nat \<times> nat \<Rightarrow> nat \<times> nat \<Rightarrow> u16 list \<Rightarrow> nat \<times> nat" where
  "zero_span i cur longest [] = longest"
| "zero_span i cur longest (s # ss) =
     (if s = 0
      then let cur' = (if snd cur = 0 then i else fst cur, snd cur + 1)
           in zero_span (Suc i) cur' (if snd cur' > snd longest then cur' else longest) ss
      else zero_span (Suc i) (0, 0) longest ss)"

fun segs_tail_string :: "u16 list \<Rightarrow> string" where
  "segs_tail_string [] = []"
| "segs_tail_string (s # ss) = CHR '':'' # hex_string (unat s) @ segs_tail_string ss"

definition fmt_subslice :: "u16 list \<Rightarrow> string" where
  "fmt_subslice ss = (case ss of [] \<Rightarrow> [] | s # rest \<Rightarrow> hex_string (unat s) @ segs_tail_string rest)"

definition is_ipv4_mapped :: "bytes \<Rightarrow> bool" where
  "is_ipv4_mapped ip \<longleftrightarrow> take 12 ip = replicate 10 0 @ [0xff, 0xff]"

definition ipv6_to_string :: "bytes \<Rightarrow> string" where
  "ipv6_to_string ip =
     (if is_ipv4_mapped ip then ''::ffff:'' @ ipv4_to_string (drop 12 ip)
      else let segs = ipv6_segments ip; (start, len) = zero_span 0 (0, 0) (0, 0) segs
           in if len > 1
              then fmt_subslice (take start segs) @ ''::'' @ fmt_subslice (drop (start + len) segs)
              else fmt_subslice segs)"

section \<open>Parsing undoes printing\<close>

lemma dec_digit_dot [simp]: "\<not> is_dec_digit (CHR ''.'')"
  by (simp add: is_dec_digit_def)

lemma read_digits_digits:
  assumes "\<forall>c \<in> set ds. is_dec_digit c" and "k + length ds \<le> 3"
    and "rest = [] \<or> \<not> is_dec_digit (hd rest)"
  shows "read_digits r k (ds @ rest) =
     Some (foldl (\<lambda>a c. 10 * a + dec_digit_val c) r ds, k + length ds, rest)"
  using assms
proof (induction ds arbitrary: r k)
  case Nil
  then show ?case by (cases rest) auto
next
  case (Cons c ds)
  then show ?case by simp
qed

lemma length_u8_string: "length (u8_string b) \<le> 3"
proof -
  have "unat b < 1000" using unat_u8_less[of b] by simp
  then show ?thesis by (simp add: u8_string_def length_dec_string_le3)
qed

lemma dec_string_leading_zero: "take 1 (dec_string n @ rest) = ''0'' \<longleftrightarrow> n = 0"
  using dec_string_hd[of n] dec_string_nonempty[of n] by (cases "dec_string n") auto

lemma read_number_u8_string:
  assumes "rest = [] \<or> \<not> is_dec_digit (hd rest)"
  shows "read_number (u8_string b @ rest) = Some (b, rest)"
proof -
  have "read_digits 0 0 (u8_string b @ rest) = Some (unat b, length (u8_string b), rest)"
    using read_digits_digits[of "u8_string b" 0 rest 0] length_u8_string[of b] assms
      dec_string_digits[of "unat b"] dec_val_dec_string[of "unat b"]
    by (simp add: u8_string_def dec_val_def)
  moreover have "take 1 (u8_string b @ rest) = ''0'' \<longleftrightarrow> unat b = 0"
    unfolding u8_string_def by (rule dec_string_leading_zero)
  moreover have "unat b = 0 \<Longrightarrow> length (u8_string b) = 1"
    by (simp add: u8_string_def dec_string_small)
  moreover have "unat b < 256" using unat_u8_less[of b] by simp
  ultimately show ?thesis
    using dec_string_nonempty[of "unat b"] by (auto simp: read_number_def u8_string_def)
qed

lemma ipv4_tail_no_digit: "ipv4_tail_string bs = [] \<or> \<not> is_dec_digit (hd (ipv4_tail_string bs))"
  by (cases bs) simp_all

lemma read_groups_tail:
  "0 < i \<Longrightarrow> read_groups i (length bs) (ipv4_tail_string bs) = Some (bs, [])"
  by (induction bs arbitrary: i)
    (simp_all add: read_group_def read_given_char_def read_number_u8_string ipv4_tail_no_digit)

lemma length_ipv4_tail: "length (ipv4_tail_string bs) \<le> 4 * length bs"
proof (induction bs)
  case (Cons b bs)
  then show ?case using length_u8_string[of b] by simp
qed simp

lemma ipv4_from_to_string:
  assumes "length g = 4"
  shows "ipv4_from_str (ipv4_to_string g) = Some g"
proof -
  obtain b bs where g: "g = b # bs" and bs: "length bs = 3"
    using assms by (cases g) auto
  have "length (ipv4_to_string g) \<le> 15"
    using length_u8_string[of b] length_ipv4_tail[of bs] bs by (simp add: g ipv4_to_string_def)
  moreover have "read_groups 0 4 (ipv4_to_string g) = Some (g, [])"
    using read_groups_tail[of 1 bs] bs
    by (simp add: g ipv4_to_string_def read_group_def read_number_u8_string ipv4_tail_no_digit
        eval_nat_numeral)
  ultimately show ?thesis by (simp add: ipv4_from_str_def)
qed

section \<open>Only printed addresses parse\<close>

lemma read_digits_split:
  assumes "read_digits r k s = Some (r', k', rest)"
  shows "\<exists>ds. s = ds @ rest \<and> (\<forall>c \<in> set ds. is_dec_digit c) \<and> k' = k + length ds \<and>
    r' = foldl (\<lambda>a c. 10 * a + dec_digit_val c) r ds"
  using assms
proof (induction r k s rule: read_digits.induct)
  case (1 r k)
  then show ?case by simp
next
  case (2 r k c cs)
  show ?case
  proof (cases "is_dec_digit c")
    case True
    then have "\<not> k + 1 > 3" using "2.prems" by auto
    then obtain ds where "cs = ds @ rest" "\<forall>c \<in> set ds. is_dec_digit c" "k' = k + 1 + length ds"
      "r' = foldl (\<lambda>a c. 10 * a + dec_digit_val c) (10 * r + dec_digit_val c) ds"
      using "2.IH" "2.prems" True by auto
    then show ?thesis using True by (intro exI[of _ "c # ds"]) auto
  next
    case False
    then show ?thesis using "2.prems" by auto
  qed
qed

lemma dec_val_pos:
  assumes "\<forall>c \<in> set s. is_dec_digit c" and "s \<noteq> []" and "hd s \<noteq> CHR ''0''"
  shows "0 < dec_val s"
  using assms
proof (induction s rule: rev_induct)
  case (snoc c s)
  show ?case
  proof (cases "s = []")
    case True
    then have "is_dec_digit c" and "c \<noteq> CHR ''0''" using snoc.prems by auto
    then show ?thesis
      using True dec_digit_char[of c] digit_char_dec(3)[of "dec_digit_val c"] by (simp add: dec_val_def)
  next
    case False
    then show ?thesis using snoc by simp
  qed
qed simp

lemma dec_string_dec_val:
  assumes "\<forall>c \<in> set s. is_dec_digit c" and "s \<noteq> []" and "hd s = CHR ''0'' \<Longrightarrow> length s = 1"
  shows "dec_string (dec_val s) = s"
  using assms
proof (induction s rule: rev_induct)
  case (snoc c s)
  have c: "is_dec_digit c" using snoc.prems by simp
  show ?case
  proof (cases "s = []")
    case True
    then show ?thesis using c dec_digit_char[of c] by (simp add: dec_val_def dec_string_small)
  next
    case False
    then have hd: "hd s \<noteq> CHR ''0''" using snoc.prems(3) by auto
    then have "0 < dec_val s" using snoc.prems False dec_val_pos[of s] by simp
    moreover have "dec_string (dec_val s) = s" using snoc hd False by simp
    ultimately show ?thesis using c dec_digit_char[of c] by (simp add: dec_string_step)
  qed
qed simp

lemma read_number_inv:
  assumes "read_number s = Some (b, rest)"
  shows "s = u8_string b @ rest"
proof -
  obtain r k where rd: "read_digits 0 0 s = Some (r, k, rest)" and k: "k \<noteq> 0"
    and lead: "\<not> (take 1 s = ''0'' \<and> k > 1)" and r: "r < 256" and b: "b = word_of_nat r"
    using assms by (auto simp: read_number_def split: option.splits if_splits)
  obtain ds where s: "s = ds @ rest" and ds: "\<forall>c \<in> set ds. is_dec_digit c"
    and len: "k = length ds" and val: "r = dec_val ds"
    using read_digits_split[OF rd] by (auto simp: dec_val_def)
  have "ds \<noteq> []" using k len by auto
  moreover have "hd ds = CHR ''0'' \<Longrightarrow> length ds = 1"
    using lead s len \<open>ds \<noteq> []\<close> by (cases ds) auto
  ultimately have "dec_string r = ds" using ds val dec_string_dec_val by blast
  moreover have "unat b = r" using b r by (simp add: unat_of_nat)
  ultimately show ?thesis using s by (simp add: u8_string_def)
qed

lemma read_groups_tail_inv:
  "0 < i \<Longrightarrow> read_groups i n s = Some (bs, rest) \<Longrightarrow> length bs = n \<and> s = ipv4_tail_string bs @ rest"
proof (induction n arbitrary: i s bs)
  case (Suc n)
  from Suc.prems obtain b bs' s' rest' where bs: "bs = b # bs'"
    and c: "read_given_char (CHR ''.'') s = Some s'" and "read_number s' = Some (b, rest')"
    and g: "read_groups (Suc i) n rest' = Some (bs', rest)"
    by (auto simp: read_group_def split: bind_splits prod.splits)
  then have "s' = u8_string b @ rest'" using read_number_inv by blast
  moreover have "s = CHR ''.'' # s'" using c by (auto simp: read_given_char_def split: list.splits if_splits)
  ultimately show ?case using Suc.IH[OF _ g] bs by simp
qed simp

lemma ipv4_from_str_inv:
  assumes "ipv4_from_str s = Some g"
  shows "length g = 4" and "ipv4_to_string g = s"
proof -
  have "read_groups 0 4 s = Some (g, [])"
    using assms by (auto simp: ipv4_from_str_def split: if_splits option.splits list.splits)
  then obtain b bs rest where g: "g = b # bs" and "read_number s = Some (b, rest)"
    and "read_groups 1 3 rest = Some (bs, [])"
    using read_groups.simps(2)[of 0 3 s]
    by (cases "read_number s") (auto simp: read_group_def eq_commute[of "Some (g, [])"])
  then have "s = u8_string b @ rest" and "length bs = 3 \<and> rest = ipv4_tail_string bs"
    using read_number_inv read_groups_tail_inv[of 1 3 rest bs "[]"] by auto
  then show "length g = 4" and "ipv4_to_string g = s" by (simp_all add: g ipv4_to_string_def)
qed

lemma ipv4_to_string_inject:
  "length g = 4 \<Longrightarrow> length h = 4 \<Longrightarrow> ipv4_to_string g = ipv4_to_string h \<Longrightarrow> g = h"
  by (metis ipv4_from_to_string option.inject)

lemma u32_ipv4 [simp]: "u32_of_ipv4 (ipv4_of_u32 x) = x"
  by (simp add: u32_of_ipv4_def ipv4_of_u32_def codec)

lemma ipv4_u32 [simp]: "length g = 4 \<Longrightarrow> ipv4_of_u32 (u32_of_ipv4 g) = g"
  by (simp add: u32_of_ipv4_def ipv4_of_u32_def codec)

lemma length_ipv4_of_u32 [simp]: "length (ipv4_of_u32 x) = 4"
  by (simp add: ipv4_of_u32_def)

end
