(* ===== verification/Daemon_Protocol.thy ===== *)
theory Daemon_Protocol
  imports Prelude
begin

text \<open>
  The protocol between the command line and the daemon (\<open>rustguard/src/main.rs\<close>): the request and
  response enums, length-prefixed frames, and reading from a Unix stream socket.

  \<open>serde_json\<close> and the byte order of tokio's \<open>write_u32\<close> and \<open>read_u32\<close> are a parameter (\<open>wire\<close>); the
  locale \<open>wire_format\<close> states that each decoder undoes its encoder (\<open>Json_Wire\<close> interprets it). A read that finds too few bytes
  is \<open>Pending\<close> while the peer may still send, and an error once the peer has closed.
\<close>

datatype DaemonRequest =
    ReqBan (req_target: string) (req_ttl: "u64 option")
  | ReqUnban string
  | ReqList
  | ReqStats

datatype DaemonResponse =
    RespOk
  | RespError string
  | RespList "string list"
  | RespStats string

datatype json_error = JsonError

record wire =
  put_u32 :: "u32 \<Rightarrow> bytes"
  get_u32 :: "bytes \<Rightarrow> u32"
  req_to_vec :: "DaemonRequest \<Rightarrow> json_error + bytes"
  req_from_slice :: "bytes \<Rightarrow> json_error + DaemonRequest"
  resp_to_vec :: "DaemonResponse \<Rightarrow> json_error + bytes"
  resp_from_slice :: "bytes \<Rightarrow> json_error + DaemonResponse"

section \<open>Streams\<close>

record stream =
  st_in :: bytes \<comment> \<open>what the peer has sent and was not read yet\<close>
  st_eof :: bool \<comment> \<open>the peer has closed its side\<close>

datatype 'a io = Pending | IoErr | Got 'a

definition read_exact :: "nat \<Rightarrow> stream \<Rightarrow> (bytes \<times> stream) io" where
  "read_exact n st =
     (if n \<le> length (st_in st) then Got (take n (st_in st), st\<lparr>st_in := drop n (st_in st)\<rparr>)
      else if st_eof st then IoErr else Pending)"

definition read_u32 :: "wire \<Rightarrow> stream \<Rightarrow> (u32 \<times> stream) io" where
  "read_u32 w st =
     (case read_exact 4 st of
        Pending \<Rightarrow> Pending | IoErr \<Rightarrow> IoErr | Got (bs, st') \<Rightarrow> Got (get_u32 w bs, st'))"

text \<open>What both sides write: \<open>write_u32(bytes.len() as u32)\<close>, then \<open>write_all(&bytes)\<close>.\<close>

definition frame :: "wire \<Rightarrow> bytes \<Rightarrow> bytes" where
  "frame w bs = put_u32 w (word_of_nat (length bs)) @ bs"

locale wire_format =
  fixes w :: wire
  assumes put_len: "length (put_u32 w x) = 4"
    and get_put: "get_u32 w (put_u32 w x) = x"
    and req_total: "\<exists>bs. req_to_vec w r = Inr bs"
    and req_roundtrip: "req_to_vec w r = Inr bs \<Longrightarrow> req_from_slice w bs = Inr r"
    and resp_total: "\<exists>bs. resp_to_vec w a = Inr bs"
    and resp_roundtrip: "resp_to_vec w a = Inr bs \<Longrightarrow> resp_from_slice w bs = Inr a"
    and resp_nonempty: "resp_to_vec w a = Inr bs \<Longrightarrow> bs \<noteq> []"
begin

lemma length_frame: "length (frame w bs) = 4 + length bs"
  by (simp add: frame_def put_len)

lemma read_frame_length:
  "read_u32 w \<lparr>st_in = frame w bs @ rest, st_eof = c\<rparr> =
     Got (word_of_nat (length bs), \<lparr>st_in = bs @ rest, st_eof = c\<rparr>)"
  by (simp add: read_u32_def read_exact_def frame_def put_len get_put)

lemma read_frame_body:
  assumes "length bs < 2 ^ 32"
  shows "read_exact (unat (word_of_nat (length bs) :: u32)) \<lparr>st_in = bs @ rest, st_eof = c\<rparr> =
    Got (bs, \<lparr>st_in = rest, st_eof = c\<rparr>)"
  using assms by (simp add: read_exact_def unat_of_nat)

text \<open>
  The length travels as a \<open>u32\<close>: a body of \<open>2 ^ 32\<close> bytes or more announces its length modulo
  \<open>2 ^ 32\<close>, and the reader takes that many bytes of it.
\<close>

lemma read_frame_truncated:
  "read_exact (unat (word_of_nat (length bs) :: u32)) \<lparr>st_in = bs, st_eof = c\<rparr> =
    Got (take (length bs mod 2 ^ 32) bs, \<lparr>st_in = drop (length bs mod 2 ^ 32) bs, st_eof = c\<rparr>)"
  by (simp add: read_exact_def unat_of_nat)

end

end
