(* ===== verification/Json_Wire.thy ===== *)
theory Json_Wire
  imports Daemon_Protocol
begin

text \<open>
  The instance of the wire format the program uses: big-endian lengths and JSON texts in the shape
  serde derives for the two enums (externally tagged: a unit variant is a string, any other an object
  with the variant as its only key). The printer writes the compact form with the escapes of
  \<open>serde_json\<close>. The parser is recursive descent with white space between tokens; it takes fuel, and
  fuel equal to the length of the text is enough for every text the printer writes. Of the
  numeric escapes it accepts those below 128.
\<close>

datatype json = JNull | JNum nat | JStr string | JArr "json list" | JObj "(string \<times> json) list"

section \<open>Printing\<close>

definition hex_pair :: "nat \<Rightarrow> string" where
  "hex_pair n = [digit_char (n div 16), digit_char (n mod 16)]"

definition escape_char :: "char \<Rightarrow> string" where
  "escape_char c =
     (let n = of_char c :: nat
      in if n = 34 then [CHR 0x5C, CHR 0x22]
         else if n = 92 then [CHR 0x5C, CHR 0x5C]
         else if n = 8 then [CHR 0x5C, CHR ''b'']
         else if n = 9 then [CHR 0x5C, CHR ''t'']
         else if n = 10 then [CHR 0x5C, CHR ''n'']
         else if n = 12 then [CHR 0x5C, CHR ''f'']
         else if n = 13 then [CHR 0x5C, CHR ''r'']
         else if n < 32 then [CHR 0x5C] @ ''u00'' @ hex_pair n
         else [c])"

definition print_string :: "string \<Rightarrow> string" where
  "print_string s = [CHR 0x22] @ concat (map escape_char s) @ [CHR 0x22]"

fun print_json :: "json \<Rightarrow> string" and print_items :: "json list \<Rightarrow> string"
  and print_members :: "(string \<times> json) list \<Rightarrow> string" where
  "print_json JNull = ''null''"
| "print_json (JNum n) = dec_string n"
| "print_json (JStr s) = print_string s"
| "print_json (JArr vs) = ''['' @ print_items vs @ '']''"
| "print_json (JObj ms) = ''{'' @ print_members ms @ ''}''"
| "print_items [] = []"
| "print_items [v] = print_json v"
| "print_items (v # u # vs) = print_json v @ '','' @ print_items (u # vs)"
| "print_members [] = []"
| "print_members [(k, v)] = print_string k @ '':'' @ print_json v"
| "print_members ((k, v) # m # ms) = print_string k @ '':'' @ print_json v @ '','' @ print_members (m # ms)"

section \<open>Parsing\<close>

definition is_ws :: "char \<Rightarrow> bool" where
  "is_ws c \<longleftrightarrow> of_char c \<in> {9, 10, 13, 32 :: nat}"

definition skip_ws :: "string \<Rightarrow> string" where
  "skip_ws s = dropWhile is_ws s"

definition hex_val :: "char \<Rightarrow> nat option" where
  "hex_val c =
     (let i = length (takeWhile (\<lambda>x. x \<noteq> c) ''0123456789abcdef'')
      in if i < 16 then Some i else None)"

text \<open>The character an escape stands for, and what follows it.\<close>

definition unescape :: "string \<Rightarrow> (char \<times> string) option" where
  "unescape s =
     (case s of
        [] \<Rightarrow> None
      | c # rest \<Rightarrow>
          if c = CHR 0x22 \<or> c = CHR 0x5C \<or> c = CHR ''/'' then Some (c, rest)
          else if c = CHR ''b'' then Some (CHR 0x08, rest)
          else if c = CHR ''t'' then Some (CHR 0x09, rest)
          else if c = CHR ''n'' then Some (CHR 0x0A, rest)
          else if c = CHR ''f'' then Some (CHR 0x0C, rest)
          else if c = CHR ''r'' then Some (CHR 0x0D, rest)
          else if c = CHR ''u'' then
            (case rest of
               z # z' # a # b # rest' \<Rightarrow>
                 if z = CHR ''0'' \<and> z' = CHR ''0'' then
                   (case (hex_val a, hex_val b) of
                      (Some x, Some y) \<Rightarrow> if x < 8 then Some (char_of (16 * x + y), rest') else None
                    | _ \<Rightarrow> None)
                 else None
             | _ \<Rightarrow> None)
          else None)"

text \<open>The rest of a string after its opening quote; the fuel counts characters.\<close>

fun parse_chars :: "nat \<Rightarrow> string \<Rightarrow> (string \<times> string) option" where
  "parse_chars 0 s = None"
| "parse_chars (Suc n) [] = None"
| "parse_chars (Suc n) (c # s) =
     (if c = CHR 0x22 then Some ([], s)
      else if (of_char c :: nat) < 32 then None
      else if c = CHR 0x5C then
        (case unescape s of None \<Rightarrow> None
         | Some (d, rest) \<Rightarrow> map_option (apfst (Cons d)) (parse_chars n rest))
      else map_option (apfst (Cons c)) (parse_chars n s))"

definition parse_string :: "string \<Rightarrow> (string \<times> string) option" where
  "parse_string s =
     (case s of c # rest \<Rightarrow> if c = CHR 0x22 then parse_chars (length s) rest else None | [] \<Rightarrow> None)"

text \<open>A number without sign, fraction or exponent, and without leading zeros.\<close>

definition parse_number :: "string \<Rightarrow> (nat \<times> string) option" where
  "parse_number s =
     (let ds = takeWhile is_dec_digit s
      in if ds = [] \<or> (hd ds = CHR ''0'' \<and> 1 < length ds) then None
         else Some (dec_val ds, drop (length ds) s))"

definition expect :: "char \<Rightarrow> string \<Rightarrow> string option" where
  "expect c s = (case skip_ws s of d # rest \<Rightarrow> if d = c then Some rest else None | [] \<Rightarrow> None)"

fun parse_json :: "nat \<Rightarrow> string \<Rightarrow> (json \<times> string) option"
  and parse_items :: "nat \<Rightarrow> string \<Rightarrow> (json list \<times> string) option"
  and parse_members :: "nat \<Rightarrow> string \<Rightarrow> ((string \<times> json) list \<times> string) option" where
  "parse_json 0 s = None"
| "parse_json (Suc n) s =
     (case skip_ws s of
        [] \<Rightarrow> None
      | c # rest \<Rightarrow>
          if c = CHR 0x22 then map_option (apfst JStr) (parse_string (c # rest))
          else if c = CHR ''['' then
            (case expect (CHR '']'') rest of
               Some rest' \<Rightarrow> Some (JArr [], rest')
             | None \<Rightarrow> map_option (apfst JArr) (parse_items n rest))
          else if c = CHR ''{'' then
            (case expect (CHR ''}'') rest of
               Some rest' \<Rightarrow> Some (JObj [], rest')
             | None \<Rightarrow> map_option (apfst JObj) (parse_members n rest))
          else if take 4 (c # rest) = ''null'' then Some (JNull, drop 3 rest)
          else map_option (apfst JNum) (parse_number (c # rest)))"
| "parse_items 0 s = None"
| "parse_items (Suc n) s =
     (case parse_json n s of
        None \<Rightarrow> None
      | Some (v, rest) \<Rightarrow>
          (case expect (CHR '','') rest of
             Some rest' \<Rightarrow> map_option (apfst (Cons v)) (parse_items n rest')
           | None \<Rightarrow> map_option (\<lambda>rest'. ([v], rest')) (expect (CHR '']'') rest)))"
| "parse_members 0 s = None"
| "parse_members (Suc n) s =
     (case parse_string (skip_ws s) of
        None \<Rightarrow> None
      | Some (k, rest) \<Rightarrow>
          (case expect (CHR '':'') rest of
             None \<Rightarrow> None
           | Some rest1 \<Rightarrow>
               (case parse_json n rest1 of
                  None \<Rightarrow> None
                | Some (v, rest2) \<Rightarrow>
                    (case expect (CHR '','') rest2 of
                       Some rest3 \<Rightarrow> map_option (apfst (Cons (k, v))) (parse_members n rest3)
                     | None \<Rightarrow> map_option (\<lambda>rest'. ([(k, v)], rest')) (expect (CHR ''}'') rest2)))))"

text \<open>A whole text: nothing but white space may follow the value.\<close>

definition json_of_text :: "string \<Rightarrow> json option" where
  "json_of_text s =
     (case parse_json (Suc (length s)) s of
        Some (v, rest) \<Rightarrow> if skip_ws rest = [] then Some v else None
      | None \<Rightarrow> None)"

section \<open>Parsing undoes printing\<close>

lemma hex_val_digit: "n < 16 \<Longrightarrow> hex_val (digit_char n) = Some n"
proof -
  assume "n < 16"
  then have "n \<in> set [0..<16]" by simp
  moreover have "list_all (\<lambda>n. hex_val (digit_char n) = Some n) [0..<16]" by code_simp
  ultimately show ?thesis by (simp add: list_all_iff)
qed

lemma char_cases:
  obtains (quote) "c = CHR 0x22" | (backslash) "c = CHR 0x5C"
  | (control) n where "c = char_of n" "n < (32 :: nat)"
  | (plain) "c \<noteq> CHR 0x22" "c \<noteq> CHR 0x5C" "32 \<le> (of_char c :: nat)"
proof (cases "(of_char c :: nat) < 32")
  case True
  then show ?thesis using control[of "of_char c"] by simp
next
  case False
  then show ?thesis using quote backslash plain by force
qed

lemma escape_plain:
  assumes "c \<noteq> CHR 0x22" "c \<noteq> CHR 0x5C" "32 \<le> (of_char c :: nat)"
  shows "escape_char c = [c]"
proof -
  have "(of_char c :: nat) \<noteq> of_char (CHR 0x22)" "(of_char c :: nat) \<noteq> of_char (CHR 0x5C)"
    using assms(1,2) by (simp_all only: of_char_eq_iff) simp_all
  then show ?thesis using assms(3) by (simp add: escape_char_def Let_def)
qed

lemma escape_control:
  assumes "n < (32 :: nat)"
  shows "\<exists>s. escape_char (char_of n) = CHR 0x5C # s \<and> (\<forall>t. unescape (s @ t) = Some (char_of n, t))"
proof (cases "n \<in> {8, 9, 10, 12, 13}")
  case True
  then show ?thesis by (auto simp: escape_char_def Let_def unescape_def) code_simp+
next
  case False
  have "(of_char (char_of n) :: nat) = n" using assms by simp
  then have "escape_char (char_of n) = CHR 0x5C # ''u00'' @ hex_pair n"
    using False assms by (simp add: escape_char_def Let_def)
  moreover have "unescape (''u00'' @ hex_pair n @ t) = Some (char_of n, t)" for t
    using assms by (simp add: unescape_def hex_pair_def hex_val_digit less_mult_imp_div_less)
  ultimately show ?thesis by auto
qed

lemma parse_chars_escape:
  "parse_chars (Suc n) (escape_char c @ t) = map_option (apfst (Cons c)) (parse_chars n t)"
proof (cases c rule: char_cases)
  case (control m)
  then obtain s where s: "escape_char c = CHR 0x5C # s" "\<And>t. unescape (s @ t) = Some (c, t)"
    using escape_control[OF control(2)] by auto
  then show ?thesis by simp
next
  case plain
  then show ?thesis by (simp add: escape_plain[OF plain])
qed (simp_all add: escape_char_def unescape_def)

lemma parse_chars_print:
  "length s < n \<Longrightarrow> parse_chars n (concat (map escape_char s) @ CHR 0x22 # rest) = Some (s, rest)"
proof (induction s arbitrary: n)
  case Nil
  then show ?case by (cases n) simp_all
next
  case (Cons c s)
  then obtain m where "n = Suc m" "length s < m" by (cases n) auto
  then show ?case using Cons.IH[of m] by (simp add: parse_chars_escape)
qed

lemma escape_char_nonempty: "escape_char c \<noteq> []"
  by (simp add: escape_char_def Let_def)

lemma length_concat_escape: "length s \<le> length (concat (map escape_char s))"
proof (induction s)
  case (Cons c s)
  then show ?case using escape_char_nonempty[of c] by (cases "escape_char c") simp_all
qed simp

lemma parse_print_string: "parse_string (print_string s @ rest) = Some (s, rest)"
proof -
  have "length s < length (print_string s @ rest)"
    using length_concat_escape[of s] by (simp add: print_string_def)
  then show ?thesis
    using parse_chars_print[of s "length (print_string s @ rest)" rest]
    by (simp add: parse_string_def print_string_def)
qed

definition clean :: "string \<Rightarrow> bool" where
  "clean rest \<longleftrightarrow> rest = [] \<or> \<not> is_dec_digit (hd rest)"

lemma clean_punct [simp]: "clean []" "clean (CHR '','' # t)" "clean (CHR '']'' # t)" "clean (CHR ''}'' # t)"
  by (simp_all add: clean_def is_dec_digit_def)

lemma takeWhile_digits: "clean rest \<Longrightarrow> takeWhile is_dec_digit (dec_string n @ rest) = dec_string n"
proof -
  assume "clean rest"
  then have "takeWhile is_dec_digit rest = []" by (cases rest) (simp_all add: clean_def)
  then show ?thesis using dec_string_digits[of n] by (simp add: takeWhile_append)
qed

lemma dec_string_single: "hd (dec_string n) = CHR ''0'' \<Longrightarrow> length (dec_string n) = 1"
  by (simp add: dec_string_hd dec_string_small)

lemma parse_print_number: "clean rest \<Longrightarrow> parse_number (dec_string n @ rest) = Some (n, rest)"
  using dec_string_single[of n] by (auto simp: parse_number_def takeWhile_digits Let_def)

text \<open>The fuel a value needs; the length of its text is enough.\<close>

fun need :: "json \<Rightarrow> nat" and items_need :: "json list \<Rightarrow> nat"
  and members_need :: "(string \<times> json) list \<Rightarrow> nat" where
  "need (JArr vs) = Suc (items_need vs)"
| "need (JObj ms) = Suc (members_need ms)"
| "need _ = 1"
| "items_need [] = 0"
| "items_need (v # vs) = Suc (max (need v) (items_need vs))"
| "members_need [] = 0"
| "members_need ((k, v) # ms) = Suc (max (need v) (members_need ms))"

lemma need_le:
  "need j \<le> length (print_json j)"
  "items_need vs \<le> Suc (length (print_items vs))"
  "members_need ms \<le> Suc (length (print_members ms))"
proof (induction j and vs and ms rule: print_json_print_items_print_members.induct)
  case (2 n)
  then show ?case using dec_string_nonempty[of n] by (cases "dec_string n") simp_all
qed (simp_all add: print_string_def)

lemma skip_ws_Cons [simp]: "skip_ws (c # s) = (if is_ws c then skip_ws s else c # s)"
  by (simp add: skip_ws_def)

lemma skip_ws_Nil [simp]: "skip_ws [] = []"
  by (simp add: skip_ws_def)

lemma expect_simps [simp]:
  "expect c [] = None"
  "expect c (d # s) = (if is_ws d then expect c s else if d = c then Some s else None)"
  by (simp_all add: expect_def)

lemma is_ws_punct [simp]:
  "\<not> is_ws (CHR '','')" "\<not> is_ws (CHR '':'')" "\<not> is_ws (CHR ''['')" "\<not> is_ws (CHR '']'')"
  "\<not> is_ws (CHR ''{'')" "\<not> is_ws (CHR ''}'')" "\<not> is_ws (CHR 0x22)" "\<not> is_ws (CHR ''n'')"
  by (simp_all add: is_ws_def)

lemma is_dec_digit_start:
  "is_dec_digit c \<Longrightarrow> \<not> is_ws c \<and> c \<notin> {CHR 0x22, CHR ''['', CHR ''{'', CHR ''n'', CHR '']'', CHR ''}''}"
  by (auto simp: is_dec_digit_def is_ws_def)

lemma dec_string_start:
  obtains c t where "dec_string n = c # t" "is_dec_digit c"
  using dec_string_nonempty[of n] dec_string_digits[of n] by (cases "dec_string n") auto

lemma print_json_start:
  obtains c t where "print_json j = c # t" "\<not> is_ws c" "c \<noteq> CHR '']''"
proof (cases j)
  case (JNum n)
  then show ?thesis using that is_dec_digit_start by (cases n rule: dec_string_start) auto
qed (auto simp: print_string_def intro!: that)

lemma print_items_start:
  obtains c t where "print_items (v # vs) = c # t" "\<not> is_ws c" "c \<noteq> CHR '']''"
  by (cases v rule: print_json_start; cases vs) (auto intro: that)

lemma print_members_start:
  obtains t where "print_members (m # ms) = CHR 0x22 # t"
  by (cases m; cases ms) (auto simp: print_string_def intro: that)

lemma parse_print_json:
  "need j \<le> n \<Longrightarrow> clean rest \<Longrightarrow> parse_json n (print_json j @ rest) = Some (j, rest)"
  "vs \<noteq> [] \<Longrightarrow> items_need vs \<le> n \<Longrightarrow> parse_items n (print_items vs @ CHR '']'' # rest) = Some (vs, rest)"
  "ms \<noteq> [] \<Longrightarrow> members_need ms \<le> n \<Longrightarrow>
     parse_members n (print_members ms @ CHR ''}'' # rest) = Some (ms, rest)"
proof (induction j and vs and ms arbitrary: n rest and n rest and n rest
    rule: print_json_print_items_print_members.induct)
  case 1
  then show ?case by (cases n) simp_all
next
  case (2 m)
  obtain c t where ct: "dec_string m = c # t" "is_dec_digit c" by (rule dec_string_start)
  then have "\<not> is_ws c" "c \<notin> {CHR 0x22, CHR ''['', CHR ''{'', CHR ''n''}"
    using is_dec_digit_start by blast+
  then show ?case
    using 2 ct parse_print_number[OF 2(2), of m] by (cases n) simp_all
next
  case (3 s)
  then show ?case
    using parse_print_string[of s rest] by (cases n) (simp_all add: print_string_def)
next
  case (4 vs)
  show ?case
  proof (cases vs)
    case Nil
    then show ?thesis using 4 by (cases n) simp_all
  next
    case (Cons v us)
    obtain c t where "print_items vs = c # t" "\<not> is_ws c" "c \<noteq> CHR '']''"
      unfolding Cons by (rule print_items_start)
    then show ?thesis using 4 Cons by (cases n) simp_all
  qed
next
  case (5 ms)
  show ?case
  proof (cases ms)
    case Nil
    then show ?thesis using 5 by (cases n) simp_all
  next
    case (Cons m us)
    obtain t where "print_members ms = CHR 0x22 # t"
      unfolding Cons by (rule print_members_start)
    then show ?thesis using 5 Cons by (cases n) simp_all
  qed
next
  case (10 k v)
  then show ?case
    using parse_print_string[of k] by (cases n) (simp_all add: print_string_def)
next
  case (11 k v m ms)
  then show ?case
    using parse_print_string[of k] by (cases n) (simp_all add: print_string_def)
next
  case (7 v)
  then show ?case by (cases n) simp_all
next
  case (8 v u vs)
  then show ?case by (cases n) simp_all
qed simp_all

theorem json_of_text_print: "json_of_text (print_json j) = Some j"
  using parse_print_json(1)[of j "Suc (length (print_json j))" "[]"] need_le(1)[of j]
  by (simp add: json_of_text_def)

section \<open>The enums as JSON\<close>

text \<open>
  A field of a struct variant: missing, present once, or an error when it is repeated. Fields that
  the variant does not have are ignored; a missing \<open>Option\<close> reads as \<open>None\<close>.
\<close>

definition json_field :: "string \<Rightarrow> (string \<times> json) list \<Rightarrow> json_error + json option" where
  "json_field k ms =
     (case filter (\<lambda>m. fst m = k) ms of
        [] \<Rightarrow> Inr None | [m] \<Rightarrow> Inr (Some (snd m)) | _ \<Rightarrow> Inl JsonError)"

fun string_of_json :: "json \<Rightarrow> json_error + string" where
  "string_of_json (JStr s) = Inr s"
| "string_of_json _ = Inl JsonError"

definition string_field :: "string \<Rightarrow> (string \<times> json) list \<Rightarrow> json_error + string" where
  "string_field k ms =
     res_bind (json_field k ms) (\<lambda>v. case v of None \<Rightarrow> Inl JsonError | Some j \<Rightarrow> string_of_json j)"

definition opt_u64_field :: "string \<Rightarrow> (string \<times> json) list \<Rightarrow> json_error + u64 option" where
  "opt_u64_field k ms =
     res_bind (json_field k ms) (\<lambda>v.
       case v of
         None \<Rightarrow> Inr None
       | Some JNull \<Rightarrow> Inr None
       | Some (JNum n) \<Rightarrow> if n < 2 ^ 64 then Inr (Some (word_of_nat n)) else Inl JsonError
       | Some _ \<Rightarrow> Inl JsonError)"

fun strings_of_json :: "json list \<Rightarrow> json_error + string list" where
  "strings_of_json [] = Inr []"
| "strings_of_json (v # vs) =
     res_bind (string_of_json v) (\<lambda>s. res_bind (strings_of_json vs) (\<lambda>ss. Inr (s # ss)))"

fun json_of_req :: "DaemonRequest \<Rightarrow> json" where
  "json_of_req (ReqBan t ttl) =
     JObj [(''Ban'', JObj [(''target'', JStr t),
       (''ttl'', case ttl of None \<Rightarrow> JNull | Some n \<Rightarrow> JNum (unat n))])]"
| "json_of_req (ReqUnban t) = JObj [(''Unban'', JObj [(''target'', JStr t)])]"
| "json_of_req ReqList = JStr ''List''"
| "json_of_req ReqStats = JStr ''Stats''"

fun req_of_json :: "json \<Rightarrow> json_error + DaemonRequest" where
  "req_of_json (JStr s) =
     (if s = ''List'' then Inr ReqList else if s = ''Stats'' then Inr ReqStats else Inl JsonError)"
| "req_of_json (JObj [(k, JObj ms)]) =
     (if k = ''Ban'' then
        res_bind (string_field ''target'' ms) (\<lambda>t.
          res_bind (opt_u64_field ''ttl'' ms) (\<lambda>ttl. Inr (ReqBan t ttl)))
      else if k = ''Unban'' then res_bind (string_field ''target'' ms) (\<lambda>t. Inr (ReqUnban t))
      else Inl JsonError)"
| "req_of_json _ = Inl JsonError"

fun json_of_resp :: "DaemonResponse \<Rightarrow> json" where
  "json_of_resp RespOk = JStr ''Ok''"
| "json_of_resp (RespError e) = JObj [(''Error'', JStr e)]"
| "json_of_resp (RespList xs) = JObj [(''List'', JArr (map JStr xs))]"
| "json_of_resp (RespStats s) = JObj [(''Stats'', JStr s)]"

fun resp_of_json :: "json \<Rightarrow> json_error + DaemonResponse" where
  "resp_of_json (JStr s) = (if s = ''Ok'' then Inr RespOk else Inl JsonError)"
| "resp_of_json (JObj [(k, JStr s)]) =
     (if k = ''Error'' then Inr (RespError s) else if k = ''Stats'' then Inr (RespStats s) else Inl JsonError)"
| "resp_of_json (JObj [(k, JArr vs)]) =
     (if k = ''List'' then res_bind (strings_of_json vs) (\<lambda>xs. Inr (RespList xs)) else Inl JsonError)"
| "resp_of_json _ = Inl JsonError"

lemma strings_of_json_map [simp]: "strings_of_json (map JStr xs) = Inr xs"
  by (induction xs) simp_all

lemma req_of_json_of_req [simp]: "req_of_json (json_of_req r) = Inr r"
proof (cases r)
  case (ReqBan t ttl)
  have "unat n < 2 ^ 64" for n :: u64 using unsigned_less[of n] by simp
  then show ?thesis
    by (cases ttl) (simp_all add: ReqBan string_field_def opt_u64_field_def json_field_def)
qed (simp_all add: string_field_def json_field_def)

lemma resp_of_json_of_resp [simp]: "resp_of_json (json_of_resp r) = Inr r"
  by (cases r) simp_all

section \<open>The wire format\<close>

definition bytes_of_text :: "string \<Rightarrow> bytes" where
  "bytes_of_text s = map of_char s"

definition text_of_bytes :: "bytes \<Rightarrow> string" where
  "text_of_bytes bs = map (\<lambda>b. char_of (unat b)) bs"

lemma char_of_of_char_u8 [simp]: "char_of (unat (of_char c :: u8)) = c"
proof -
  have "unat (of_char c :: u8) = of_char c"
    by (cases c) (simp add: of_char_def)
  then show ?thesis by simp
qed

lemma text_of_bytes_of_text [simp]: "text_of_bytes (bytes_of_text s) = s"
  by (simp add: text_of_bytes_def bytes_of_text_def comp_def)

definition from_json :: "(json \<Rightarrow> json_error + 'a) \<Rightarrow> bytes \<Rightarrow> json_error + 'a" where
  "from_json f bs = (case json_of_text (text_of_bytes bs) of None \<Rightarrow> Inl JsonError | Some j \<Rightarrow> f j)"

definition json_req :: "DaemonRequest \<Rightarrow> bytes" where
  "json_req r = bytes_of_text (print_json (json_of_req r))"

definition json_resp :: "DaemonResponse \<Rightarrow> bytes" where
  "json_resp r = bytes_of_text (print_json (json_of_resp r))"

definition json_wire :: wire where
  "json_wire =
     \<lparr>put_u32 = to_be_bytes 4, get_u32 = from_be_bytes,
      req_to_vec = Inr \<circ> json_req, req_from_slice = from_json req_of_json,
      resp_to_vec = Inr \<circ> json_resp, resp_from_slice = from_json resp_of_json\<rparr>"

lemma json_req_roundtrip [simp]: "from_json req_of_json (json_req r) = Inr r"
  by (simp add: from_json_def json_req_def json_of_text_print)

lemma json_resp_roundtrip [simp]: "from_json resp_of_json (json_resp r) = Inr r"
  by (simp add: from_json_def json_resp_def json_of_text_print)

lemma json_resp_nonempty: "json_resp r \<noteq> []"
  by (cases "json_of_resp r" rule: print_json_start) (simp add: json_resp_def bytes_of_text_def)

interpretation json: wire_format json_wire
  by unfold_locales (auto simp: json_wire_def codec json_resp_nonempty)

lemmas json_lengths = json_req_def json_resp_def bytes_of_text_def print_string_def escape_char_def Let_def

text \<open>The texts of a ban without and with a time to live, and of the answers.\<close>

lemma json_texts:
  "print_json (json_of_req (ReqBan ''1.2.3.4'' None)) =
     ''{'' @ print_string ''Ban'' @ '':{'' @ print_string ''target'' @ '':'' @ print_string ''1.2.3.4'' @
     '','' @ print_string ''ttl'' @ '':null}}''"
  "print_json (json_of_req ReqList) = print_string ''List''"
  "print_json (json_of_resp (RespList [''a'', ''b''])) =
     ''{'' @ print_string ''List'' @ '':['' @ print_string ''a'' @ '','' @ print_string ''b'' @ '']}''"
  by simp_all

end
