(* ===== verification/Daemon.thy ===== *)
theory Daemon
  imports Bpf_Map Std_Net Json_Wire
begin

text \<open>
  The daemon of \<open>rustguard/src/main.rs\<close>: the handling of one request, of one connection, and the
  accept loop of \<open>run_daemon\<close>.

  The loop handles one connection at a time, in one task. A connection whose client neither sends
  its request nor closes leaves the task waiting (\<open>Stalled\<close>); a panic ends the task (\<open>Crashed\<close>).
\<close>

section \<open>One request\<close>

text \<open>
  \<open>get_boot_time_ns\<close>: the wall clock, as nanoseconds since the epoch, \<open>None\<close> outside the range of
  \<open>i64\<close>; \<open>as u64\<close> keeps the bits.
\<close>

definition get_boot_time_ns :: "i64 option \<Rightarrow> u64" where
  "get_boot_time_ns utc = (case utc of None \<Rightarrow> 0 | Some now \<Rightarrow> now)"

definition ban_end_time :: "profile \<Rightarrow> u64 \<Rightarrow> u64 option \<Rightarrow> panic + u64" where
  "ban_end_time p now ttl =
     (case ttl of
        None \<Rightarrow> Inr 0
      | Some t \<Rightarrow> res_bind (rust_mul p t 1000000000) (\<lambda>d. rust_add p now d))"

definition handle_ban ::
  "('b, BanValue) map_ops \<Rightarrow> profile \<Rightarrow> i64 option \<Rightarrow> 'b \<Rightarrow> string \<Rightarrow> u64 option \<Rightarrow>
     panic + ('b \<times> DaemonResponse)" where
  "handle_ban bops p utc bans target ttl =
     (case ipv4_from_str target of
        Some ip \<Rightarrow>
          let now = get_boot_time_ns utc
          in res_bind (ban_end_time p now ttl) (\<lambda>end_time.
               Inr (insert_ignored bops bans (u32_of_ipv4 ip) \<lparr>end_time = end_time\<rparr>, RespOk))
      | None \<Rightarrow> Inr (bans, RespError ''invalid ip''))"

definition handle_unban :: "('b, BanValue) map_ops \<Rightarrow> 'b \<Rightarrow> string \<Rightarrow> 'b \<times> DaemonResponse" where
  "handle_unban bops bans target =
     (case ipv4_from_str target of
        Some ip \<Rightarrow> (remove_ignored bops bans (u32_of_ipv4 ip), RespOk)
      | None \<Rightarrow> (bans, RespError ''invalid ip''))"

definition handle_list :: "('b, BanValue) map_ops \<Rightarrow> 'b \<Rightarrow> DaemonResponse" where
  "handle_list bops bans =
     RespList (map (\<lambda>ip. ipv4_to_string (ipv4_of_u32 ip)) (keys_flatten bops bans))"

definition handle_stats :: "('s, StatsValue) map_ops \<Rightarrow> 's \<Rightarrow> DaemonResponse" where
  "handle_stats sops stats =
     (case mo_get sops stats 0 of
        Some v \<Rightarrow> RespStats (''Packets dropped: '' @ dec_string (unat (packets_dropped v)))
      | None \<Rightarrow> RespStats ''No stats'')"

definition handle_request ::
  "('b, BanValue) map_ops \<Rightarrow> ('s, StatsValue) map_ops \<Rightarrow> profile \<Rightarrow> i64 option \<Rightarrow> 'b \<Rightarrow> 's \<Rightarrow>
     DaemonRequest \<Rightarrow> panic + ('b \<times> DaemonResponse)" where
  "handle_request bops sops p utc bans stats req =
     (case req of
        ReqBan target ttl \<Rightarrow> handle_ban bops p utc bans target ttl
      | ReqUnban target \<Rightarrow> Inr (handle_unban bops bans target)
      | ReqList \<Rightarrow> Inr (bans, handle_list bops bans)
      | ReqStats \<Rightarrow> Inr (bans, handle_stats sops stats))"

section \<open>One connection\<close>

text \<open>
  A connection: what the client sends and whether it closes, and how many of the two writes of the
  reply (length, body) succeed. A write that fails is taken to send nothing, and a write never waits: a reply,
  at most 1024 addresses, is far below the size of a socket's buffer.
\<close>

record conn =
  c_stream :: stream
  c_writes :: nat

datatype 'b outcome =
    Stalled
  | Crashed panic 'b
  | Served 'b bytes \<comment> \<open>the bytes the client received\<close>

definition write_frame :: "wire \<Rightarrow> nat \<Rightarrow> bytes \<Rightarrow> bytes" where
  "write_frame w writes resp_bytes =
     (if writes = 0 then []
      else if writes = 1 then put_u32 w (word_of_nat (length resp_bytes))
      else frame w resp_bytes)"

definition answer ::
  "wire \<Rightarrow> ('b, BanValue) map_ops \<Rightarrow> ('s, StatsValue) map_ops \<Rightarrow> profile \<Rightarrow> i64 option \<Rightarrow> 'b \<Rightarrow> 's \<Rightarrow>
     bytes \<Rightarrow> panic + ('b \<times> DaemonResponse)" where
  "answer w bops sops p utc bans stats buf =
     (case req_from_slice w buf of
        Inr req \<Rightarrow> handle_request bops sops p utc bans stats req
      | Inl e \<Rightarrow> Inr (bans, RespError ''invalid request''))"

definition serve_conn ::
  "wire \<Rightarrow> ('b, BanValue) map_ops \<Rightarrow> ('s, StatsValue) map_ops \<Rightarrow> profile \<Rightarrow> i64 option \<Rightarrow> conn \<Rightarrow> 'b \<Rightarrow> 's \<Rightarrow>
     'b outcome" where
  "serve_conn w bops sops p utc c bans stats =
     (case read_u32 w (c_stream c) of
        Pending \<Rightarrow> Stalled
      | IoErr \<Rightarrow> Served bans []
      | Got (len, st) \<Rightarrow>
          (case read_exact (unat len) st of
             Pending \<Rightarrow> Stalled
           | IoErr \<Rightarrow> Served bans []
           | Got (buf, st') \<Rightarrow>
               (case answer w bops sops p utc bans stats buf of
                  Inl pn \<Rightarrow> Crashed pn bans
                | Inr (bans', resp) \<Rightarrow>
                    (case resp_to_vec w resp of
                       Inl e \<Rightarrow> Crashed UnwrapFailed bans'
                     | Inr resp_bytes \<Rightarrow> Served bans' (write_frame w (c_writes c) resp_bytes)))))"

section \<open>The accept loop\<close>

text \<open>
  One turn of the loop: the wall clock and the statistics map at that time, and the connection
  \<open>accept\<close> returned, \<open>None\<close> when it returned an error. The result is the map of bans, what each
  connection received, and how the task stands after the given turns.
\<close>

record 's turn =
  t_utc :: "i64 option"
  t_stats :: 's
  t_conn :: "conn option"

datatype task = Listening | Waiting | Dead panic

fun accept_loop ::
  "wire \<Rightarrow> ('b, BanValue) map_ops \<Rightarrow> ('s, StatsValue) map_ops \<Rightarrow> profile \<Rightarrow> 's turn list \<Rightarrow> 'b \<Rightarrow>
     'b \<times> bytes list \<times> task" where
  "accept_loop w bops sops p [] bans = (bans, [], Listening)"
| "accept_loop w bops sops p (t # ts) bans =
     (case t_conn t of
        None \<Rightarrow> accept_loop w bops sops p ts bans
      | Some c \<Rightarrow>
          (case serve_conn w bops sops p (t_utc t) c bans (t_stats t) of
             Stalled \<Rightarrow> (bans, [], Waiting)
           | Crashed pn bans' \<Rightarrow> (bans', [], Dead pn)
           | Served bans' out \<Rightarrow>
               (case accept_loop w bops sops p ts bans' of
                  (bans'', outs, st) \<Rightarrow> (bans'', out # outs, st))))"

section \<open>End times\<close>

definition end_time_nat :: "u64 \<Rightarrow> u64 \<Rightarrow> nat" where
  "end_time_nat now ttl = unat now + unat ttl * 1000000000"

lemma ban_end_time_ok:
  assumes "end_time_nat now t < 2 ^ 64"
  shows "\<exists>e. ban_end_time p now (Some t) = Inr e \<and> unat e = end_time_nat now t"
proof -
  have mul: "unat t * unat (1000000000 :: u64) < 2 ^ 64"
    using assms by (simp add: end_time_nat_def)
  note m = rust_mul_small[OF mul]
  have add: "unat now + unat (t * 1000000000) < 2 ^ 64"
    using assms m(2) by (simp add: end_time_nat_def)
  note a = rust_add_small[OF add]
  show ?thesis
    using m a by (simp add: ban_end_time_def end_time_nat_def)
qed

lemma ban_end_time_overflow_dev:
  assumes "2 ^ 64 \<le> end_time_nat now t"
  shows "\<exists>pn. ban_end_time Dev now (Some t) = Inl pn"
proof (cases "unat t * 1000000000 < 2 ^ 64")
  case True
  then have mul: "unat t * unat (1000000000 :: u64) < 2 ^ 64" by simp
  show ?thesis
    using assms rust_mul_small[OF mul] by (simp add: ban_end_time_def rust_add_def end_time_nat_def)
next
  case False
  then show ?thesis by (simp add: ban_end_time_def rust_mul_def)
qed

lemma ban_end_time_release: "ban_end_time Release now (Some t) = Inr (now + t * 1000000000)"
  by (simp add: ban_end_time_def rust_mul_def rust_add_def)

lemma ban_end_time_release_nat:
  "unat (now + t * 1000000000) = end_time_nat now t mod 2 ^ 64"
  by (simp add: end_time_nat_def unat_word_ariths mod_simps)

section \<open>The table of bans\<close>

text \<open>The address a request bans or unbans, if it names one.\<close>

definition req_addr :: "DaemonRequest \<Rightarrow> u32 option" where
  "req_addr req =
     (case req of
        ReqBan t _ \<Rightarrow> map_option u32_of_ipv4 (ipv4_from_str t)
      | ReqUnban t \<Rightarrow> map_option u32_of_ipv4 (ipv4_from_str t)
      | _ \<Rightarrow> None)"

text \<open>The requests as operations on a BPF hash map whose values are bans.\<close>

locale ban_table = bpf_hash_map bops max_entries valid
  for bops :: "('b, BanValue) map_ops" and max_entries :: nat and valid :: "'b \<Rightarrow> bool"
begin

definition has_room :: "'b \<Rightarrow> u32 \<Rightarrow> bool" where
  "has_room bans k \<longleftrightarrow> mo_get bops bans k \<noteq> None \<or> card (dom (mo_get bops bans)) < max_entries"

lemma ban_ok:
  assumes "valid bans" and "ipv4_from_str target = Some ip"
    and "ban_end_time p (get_boot_time_ns utc) ttl = Inr e"
  obtains bans' where "handle_ban bops p utc bans target ttl = Inr (bans', RespOk)" and "valid bans'"
    and "mo_get bops bans' =
      (if has_room bans (u32_of_ipv4 ip)
       then (mo_get bops bans)(u32_of_ipv4 ip \<mapsto> \<lparr>end_time = e\<rparr>) else mo_get bops bans)"
proof
  show "handle_ban bops p utc bans target ttl =
      Inr (insert_ignored bops bans (u32_of_ipv4 ip) \<lparr>end_time = e\<rparr>, RespOk)"
    using assms by (simp add: handle_ban_def)
  show "valid (insert_ignored bops bans (u32_of_ipv4 ip) \<lparr>end_time = e\<rparr>)"
    using assms by blast
  show "mo_get bops (insert_ignored bops bans (u32_of_ipv4 ip) \<lparr>end_time = e\<rparr>) =
      (if has_room bans (u32_of_ipv4 ip)
       then (mo_get bops bans)(u32_of_ipv4 ip \<mapsto> \<lparr>end_time = e\<rparr>) else mo_get bops bans)"
    using insert_ignored_get[OF assms(1)] by (simp add: has_room_def)
qed

lemma ban_stored:
  assumes "valid bans" and "ipv4_from_str target = Some ip"
    and "ban_end_time p (get_boot_time_ns utc) ttl = Inr e"
    and "mo_get bops bans (u32_of_ipv4 ip) \<noteq> None \<or> card (dom (mo_get bops bans)) < max_entries"
  shows "\<exists>bans'. handle_request bops sops p utc bans stats (ReqBan target ttl) = Inr (bans', RespOk) \<and>
    valid bans' \<and> mo_get bops bans' = (mo_get bops bans)(u32_of_ipv4 ip \<mapsto> \<lparr>end_time = e\<rparr>)"
proof -
  obtain bans' where "handle_ban bops p utc bans target ttl = Inr (bans', RespOk)" and "valid bans'"
    and "mo_get bops bans' = (if has_room bans (u32_of_ipv4 ip)
      then (mo_get bops bans)(u32_of_ipv4 ip \<mapsto> \<lparr>end_time = e\<rparr>) else mo_get bops bans)"
    by (rule ban_ok[OF assms(1-3)])
  then show ?thesis using assms(4) by (auto simp: handle_request_def has_room_def)
qed

lemma unban_ok:
  assumes "valid bans" and "ipv4_from_str target = Some ip"
  shows "snd (handle_unban bops bans target) = RespOk"
    and "valid (fst (handle_unban bops bans target))"
    and "mo_get bops (fst (handle_unban bops bans target)) = (mo_get bops bans)(u32_of_ipv4 ip := None)"
  using assms remove_ignored_get[OF assms(1)] by (auto simp: handle_unban_def)

lemma handle_ban_valid:
  "valid bans \<Longrightarrow> handle_ban bops p utc bans target ttl = Inr (bans', resp) \<Longrightarrow> valid bans'"
  by (auto simp: handle_ban_def Let_def res_bind_eq_Inr split: option.splits)

lemma handle_request_valid:
  assumes "valid bans" and "handle_request bops sops p utc bans stats req = Inr (bans', resp)"
  shows "valid bans'"
  using assms handle_ban_valid
  by (auto simp: handle_request_def handle_unban_def split: DaemonRequest.splits option.splits)

text \<open>Only the address a request names is affected.\<close>

lemma handle_request_other:
  assumes "valid bans" and "handle_request bops sops p utc bans stats req = Inr (bans', resp)"
    and "req_addr req \<noteq> Some k"
  shows "mo_get bops bans' k = mo_get bops bans k"
proof (cases req)
  case (ReqBan target ttl)
  then have hb: "handle_ban bops p utc bans target ttl = Inr (bans', resp)"
    using assms(2) by (simp add: handle_request_def)
  show ?thesis
  proof (cases "ipv4_from_str target")
    case None
    then show ?thesis using hb by (simp add: handle_ban_def)
  next
    case (Some ip)
    then have "u32_of_ipv4 ip \<noteq> k" using assms(3) ReqBan by (simp add: req_addr_def)
    moreover obtain e where "ban_end_time p (get_boot_time_ns utc) ttl = Inr e"
      using hb Some by (auto simp: handle_ban_def res_bind_eq_Inr)
    ultimately show ?thesis using ban_ok[OF assms(1) Some] hb by (metis Inr_inject fun_upd_other prod.inject)
  qed
next
  case (ReqUnban target)
  then show ?thesis
    using assms unban_ok(3)[OF assms(1), of target]
    by (cases "ipv4_from_str target") (auto simp: handle_request_def handle_unban_def req_addr_def)
qed (use assms(2) in \<open>auto simp: handle_request_def\<close>)

lemma list_keys:
  assumes "valid bans"
  obtains ks where "handle_list bops bans = RespList (map (\<lambda>k. ipv4_to_string (ipv4_of_u32 k)) ks)"
    and "distinct ks" and "set ks = dom (mo_get bops bans)"
  using keys_flatten_present[OF assms] that by (auto simp: handle_list_def)

end

interpretation alist_bans: ban_table "alist_ops n" n "alist_valid n" for n
  by unfold_locales

section \<open>The accept loop keeps serving, or stops for good\<close>

lemma release_no_panic: "\<exists>bans' resp. handle_request bops sops Release utc bans stats req = Inr (bans', resp)"
  by (cases req; cases "req_ttl req")
    (auto simp: handle_request_def handle_ban_def ban_end_time_def rust_mul_def rust_add_def Let_def
      split: option.split)

lemma accept_loop_append:
  "accept_loop w bops sops p (ts @ ts') bans =
     (case accept_loop w bops sops p ts bans of
        (bans', outs, Listening) \<Rightarrow>
          (case accept_loop w bops sops p ts' bans' of (bans'', outs', st) \<Rightarrow> (bans'', outs @ outs', st))
      | r \<Rightarrow> r)"
proof (induction ts arbitrary: bans)
  case Nil
  then show ?case by (simp split: prod.split)
next
  case (Cons t ts)
  then show ?case by (simp split: option.split outcome.split prod.split task.split)
qed

text \<open>A client that sends one whole request and reads the whole reply.\<close>

definition well_behaved :: "wire \<Rightarrow> 's turn \<Rightarrow> bool" where
  "well_behaved w t \<longleftrightarrow>
     (\<exists>req rb c. req_to_vec w req = Inr rb \<and> length rb < 2 ^ 32 \<and>
        t_conn t = Some \<lparr>c_stream = \<lparr>st_in = frame w rb, st_eof = c\<rparr>, c_writes = 2\<rparr>)"

context wire_format
begin

lemma serve_well_behaved:
  assumes "well_behaved w t"
  shows "\<exists>c bans' resp pb. t_conn t = Some c \<and> resp_to_vec w resp = Inr pb \<and>
    serve_conn w bops sops Release (t_utc t) c bans (t_stats t) = Served bans' (frame w pb)"
proof -
  obtain req rb e where c: "req_to_vec w req = Inr rb" "length rb < 2 ^ 32"
    "t_conn t = Some \<lparr>c_stream = \<lparr>st_in = frame w rb, st_eof = e\<rparr>, c_writes = 2\<rparr>"
    using assms by (auto simp: well_behaved_def)
  obtain bans' resp where h: "handle_request bops sops Release (t_utc t) bans (t_stats t) req = Inr (bans', resp)"
    using release_no_panic[of bops sops "t_utc t" bans "t_stats t" req] by blast
  obtain pb where "resp_to_vec w resp = Inr pb" using resp_total by blast
  then show ?thesis
    using c h req_roundtrip[OF c(1)] read_frame_length[of rb "[]" e] read_frame_body[OF c(2), of "[]" e]
    by (auto simp: serve_conn_def answer_def write_frame_def)
qed

lemma all_answered:
  assumes "\<forall>t \<in> set ts. well_behaved w t"
  shows "\<exists>bans' outs. accept_loop w bops sops Release ts bans = (bans', outs, Listening) \<and>
    length outs = length ts \<and> (\<forall>out \<in> set outs. \<exists>resp pb. resp_to_vec w resp = Inr pb \<and> out = frame w pb)"
  using assms
proof (induction ts arbitrary: bans)
  case (Cons t ts)
  then have "well_behaved w t" by simp
  then obtain c bans' resp pb where t: "t_conn t = Some c" "resp_to_vec w resp = Inr pb"
    "serve_conn w bops sops Release (t_utc t) c bans (t_stats t) = Served bans' (frame w pb)"
    using serve_well_behaved[of t bops sops bans] by blast
  moreover obtain bans'' outs where "accept_loop w bops sops Release ts bans' = (bans'', outs, Listening)"
    "length outs = length ts" "\<forall>out \<in> set outs. \<exists>resp pb. resp_to_vec w resp = Inr pb \<and> out = frame w pb"
    using Cons.IH[of bans'] Cons.prems by auto
  ultimately show ?case by auto
qed simp

end

section \<open>Properties\<close>

lemma from_str_sample: "ipv4_from_str ''10.0.0.1'' = Some [10, 0, 0, 1]"
  by code_simp

lemma u32_of_sample: "u32_of_ipv4 [10, 0, 0, 1] = 0x0a000001"
  by (simp add: u32_of_ipv4_def from_be_bytes_def)

text \<open>
  C11. A ban request with a valid address is answered \<open>Ok\<close> and, when the table has the address already
  or has room, afterwards maps exactly that address to the computed end time, all other entries
  unchanged.
\<close>

theorem ban_request_stores:
  assumes "ban_table bops max_entries valid" and "valid bans"
    and "ipv4_from_str target = Some ip" and "ban_end_time p (get_boot_time_ns utc) ttl = Inr e"
    and "mo_get bops bans (u32_of_ipv4 ip) \<noteq> None \<or> card (dom (mo_get bops bans)) < max_entries"
  shows "\<exists>bans'. handle_request bops sops p utc bans stats (ReqBan target ttl) = Inr (bans', RespOk) \<and>
    valid bans' \<and> mo_get bops bans' = (mo_get bops bans)(u32_of_ipv4 ip \<mapsto> \<lparr>end_time = e\<rparr>)"
  using assms by (rule ban_table.ban_stored)

theorem ban_request_stores_witness:
  "\<exists>bans'. handle_request (alist_ops 1024) (alist_ops 1024) Dev (Some 1000) [] [] (ReqBan ''10.0.0.1'' (Some 60)) =
     Inr (bans', RespOk) \<and> alist_valid 1024 bans' \<and>
     mo_get (alist_ops 1024) bans' = [0x0a000001 \<mapsto> \<lparr>end_time = 60000001000\<rparr>]"
  using ban_request_stores[OF alist_bans.ban_table_axioms[of 1024], of "[]" "''10.0.0.1''" "[10, 0, 0, 1]" Dev
      "Some 1000" "Some 60" 60000001000 "alist_ops 1024" "[]"]
  by (simp add: alist_valid_def from_str_sample u32_of_sample ban_end_time_def rust_mul_def rust_add_def
      get_boot_time_ns_def alist_ops_def)

text \<open>
  C24. When the table is full, a ban of a new address is answered \<open>Ok\<close> all the same, and no entry
  changes: the error of \<open>insert\<close> is discarded and the address is not banned.
\<close>

theorem ban_request_full_table:
  assumes "ban_table bops max_entries valid" and "valid bans"
    and "ipv4_from_str target = Some ip" and "ban_end_time p (get_boot_time_ns utc) ttl = Inr e"
    and "mo_get bops bans (u32_of_ipv4 ip) = None" and "card (dom (mo_get bops bans)) = max_entries"
  shows "\<exists>bans'. handle_request bops sops p utc bans stats (ReqBan target ttl) = Inr (bans', RespOk) \<and>
    mo_get bops bans' = mo_get bops bans"
proof -
  obtain bans' where "handle_ban bops p utc bans target ttl = Inr (bans', RespOk)" and "valid bans'"
    and "mo_get bops bans' = (if ban_table.has_room bops max_entries bans (u32_of_ipv4 ip)
      then (mo_get bops bans)(u32_of_ipv4 ip \<mapsto> \<lparr>end_time = e\<rparr>) else mo_get bops bans)"
    by (rule ban_table.ban_ok[OF assms(1-4)])
  then show ?thesis
    using assms(5,6) by (auto simp: handle_request_def ban_table.has_room_def[OF assms(1)])
qed

theorem ban_request_full_table_witness:
  "\<exists>bans'. handle_request (alist_ops 1) (alist_ops 1) Dev (Some 1000) [(5, \<lparr>end_time = 0\<rparr>)] [] (ReqBan ''10.0.0.1'' None) =
     Inr (bans', RespOk) \<and> mo_get (alist_ops 1) bans' = [5 \<mapsto> \<lparr>end_time = 0\<rparr>]"
  using ban_request_full_table[OF alist_bans.ban_table_axioms[of 1], of "[(5, \<lparr>end_time = 0\<rparr>)]" "''10.0.0.1''"
      "[10, 0, 0, 1]" Dev "Some 1000" None 0 "alist_ops 1" "[]"]
  by (simp add: alist_valid_def from_str_sample u32_of_sample ban_end_time_def alist_ops_def)

text \<open>
  C40. An unban request with a valid address is answered \<open>Ok\<close> and removes the address from the table,
  whether it was banned or not, and nothing else.
\<close>

theorem unban_request_removes:
  assumes "ban_table bops max_entries valid" and "valid bans" and "ipv4_from_str target = Some ip"
  shows "\<exists>bans'. handle_request bops sops p utc bans stats (ReqUnban target) = Inr (bans', RespOk) \<and>
    valid bans' \<and> mo_get bops bans' = (mo_get bops bans)(u32_of_ipv4 ip := None)"
  using ban_table.unban_ok[OF assms] by (simp add: handle_request_def prod_eq_iff)

theorem unban_request_removes_witness:
  "\<exists>bans'. handle_request (alist_ops 1024) (alist_ops 1024) Dev None [(0x0a000001, \<lparr>end_time = 0\<rparr>), (7, \<lparr>end_time = 3\<rparr>)] []
     (ReqUnban ''10.0.0.1'') = Inr (bans', RespOk) \<and> alist_valid 1024 bans' \<and>
     mo_get (alist_ops 1024) bans' = [7 \<mapsto> \<lparr>end_time = 3\<rparr>]"
proof -
  let ?m = "[(0x0a000001 :: u32, \<lparr>end_time = 0\<rparr>), (7, \<lparr>end_time = 3\<rparr>)]"
  have "alist_valid 1024 ?m" by (simp add: alist_valid_def)
  from unban_request_removes[OF alist_bans.ban_table_axioms this from_str_sample, of "alist_ops 1024" Dev None "[]"]
  show ?thesis by (simp add: u32_of_sample alist_ops_def)
qed

text \<open>
  C35. The targets the daemon takes are exactly the dotted-decimal texts of IPv4 addresses. For such a text an
  unban is answered \<open>Ok\<close>, and so is a ban unless it panics; any other target (too long, a group above 255 or with a
  leading zero, a CIDR range, a country code) is answered with the error \<open>invalid ip\<close> and changes nothing.
\<close>

theorem targets_are_dotted_decimal:
  "if \<exists>ip. length ip = 4 \<and> target = ipv4_to_string ip
   then (\<exists>bans'. handle_request bops sops p utc bans stats (ReqUnban target) = Inr (bans', RespOk)) \<and>
     (case handle_request bops sops p utc bans stats (ReqBan target ttl) of
        Inr (bans', resp) \<Rightarrow> resp = RespOk
      | Inl pn \<Rightarrow> p = Dev \<and> pn \<in> {AddOverflow, MulOverflow})
   else handle_request bops sops p utc bans stats (ReqUnban target) = Inr (bans, RespError ''invalid ip'') \<and>
     handle_request bops sops p utc bans stats (ReqBan target ttl) = Inr (bans, RespError ''invalid ip'')"
proof (cases "\<exists>ip. length ip = 4 \<and> target = ipv4_to_string ip")
  case True
  then obtain ip where "ipv4_from_str target = Some ip" using ipv4_from_to_string by blast
  then show ?thesis
    using True by (simp add: handle_request_def handle_unban_def handle_ban_def ban_end_time_def rust_mul_def rust_add_def
        split: option.split)
next
  case False
  then have "ipv4_from_str target = None" using ipv4_from_str_inv by (cases "ipv4_from_str target") fastforce+
  then show ?thesis using False by (simp add: handle_request_def handle_ban_def handle_unban_def)
qed

text \<open>
  C14. A list request prints exactly the addresses that have an entry in the table, whatever its end time: every
  printed string parses to such an address, every such address is printed, and no string is printed twice. So
  the list shows bans that have ended, too: no part of the program removes them, although the client prints the
  list under \<open>Active bans:\<close>.
\<close>

theorem list_request_complete:
  assumes "ban_table bops max_entries valid" and "valid bans"
  shows "\<exists>items. handle_request bops sops p utc bans stats ReqList = Inr (bans, RespList items) \<and>
    distinct items \<and>
    set items = {s. \<exists>ip. ipv4_from_str s = Some ip \<and> mo_get bops bans (u32_of_ipv4 ip) \<noteq> None}"
proof -
  let ?show = "\<lambda>k. ipv4_to_string (ipv4_of_u32 k)"
  obtain ks where l: "handle_list bops bans = RespList (map ?show ks)" and ks: "distinct ks" "set ks = dom (mo_get bops bans)"
    using ban_table.list_keys[OF assms] .
  have inj: "inj ?show"
    by (rule injI) (metis ipv4_to_string_inject length_ipv4_of_u32 u32_ipv4)
  have "s \<in> set (map ?show ks) \<longleftrightarrow> (\<exists>ip. ipv4_from_str s = Some ip \<and> mo_get bops bans (u32_of_ipv4 ip) \<noteq> None)" for s
  proof
    assume "s \<in> set (map ?show ks)"
    then obtain k where "k \<in> dom (mo_get bops bans)" and "s = ?show k" using ks by auto
    then show "\<exists>ip. ipv4_from_str s = Some ip \<and> mo_get bops bans (u32_of_ipv4 ip) \<noteq> None"
      using ipv4_from_to_string[of "ipv4_of_u32 k"] by auto
  next
    assume "\<exists>ip. ipv4_from_str s = Some ip \<and> mo_get bops bans (u32_of_ipv4 ip) \<noteq> None"
    then obtain ip where ip: "ipv4_from_str s = Some ip" "u32_of_ipv4 ip \<in> set ks" using ks by auto
    then have "?show (u32_of_ipv4 ip) = s" using ipv4_from_str_inv[OF ip(1)] by simp
    then show "s \<in> set (map ?show ks)" using ip(2) by force
  qed
  moreover have "distinct (map ?show ks)" using ks(1) inj by (simp add: distinct_map inj_on_def inj_def)
  ultimately show ?thesis using l by (auto simp: handle_request_def)
qed

theorem list_request_complete_witness:
  "\<exists>items. handle_request (alist_ops 1024) (alist_ops 1024) Dev None [(0x0a000001, \<lparr>end_time = 9\<rparr>)] [] ReqList =
     Inr ([(0x0a000001, \<lparr>end_time = 9\<rparr>)], RespList items) \<and> ''10.0.0.1'' \<in> set items"
proof -
  have v: "alist_valid 1024 [(0x0a000001, \<lparr>end_time = 9\<rparr>)]" by (simp add: alist_valid_def)
  show ?thesis
    using list_request_complete[OF alist_bans.ban_table_axioms v, of "alist_ops 1024" Dev None "[]"]
      from_str_sample u32_of_sample by (auto simp: alist_ops_def)
qed

text \<open>
  C39. Listing and unbanning agree: sending every string of the list reply back as an unban request
  leaves no ban in the table.
\<close>

theorem unban_all_listed:
  assumes "ban_table bops max_entries valid" and "valid bans"
    and "handle_list bops bans = RespList items"
  shows "mo_get bops (foldl (\<lambda>b s. fst (handle_unban bops b s)) bans items) = Map.empty"
proof -
  let ?show = "\<lambda>k. ipv4_to_string (ipv4_of_u32 k)"
  obtain ks where "handle_list bops bans = RespList (map ?show ks)" and "distinct ks"
    and dom: "set ks = dom (mo_get bops bans)"
    by (rule ban_table.list_keys[OF assms(1,2)])
  then have items: "items = map ?show ks" using assms(3) by simp
  have "mo_get bops (foldl (\<lambda>b s. fst (handle_unban bops b s)) b (map ?show ks)) = (mo_get bops b) |` (- set ks)"
    if "valid b" for b
    using that
  proof (induction ks arbitrary: b)
    case (Cons k ks)
    have "ipv4_from_str (?show k) = Some (ipv4_of_u32 k)" by (simp add: ipv4_from_to_string)
    note u = ban_table.unban_ok[OF assms(1) Cons.prems this]
    show ?case using Cons.IH[OF u(2)] u(3) by (auto simp: restrict_map_def fun_eq_iff)
  qed (simp add: restrict_map_def)
  then show ?thesis using assms(2) items dom by (auto simp: restrict_map_def fun_eq_iff domIff)
qed

theorem unban_all_listed_witness:
  "mo_get (alist_ops 8) (foldl (\<lambda>b s. fst (handle_unban (alist_ops 8) b s))
     [(0x0a000001, \<lparr>end_time = 0\<rparr>), (0x08080808, \<lparr>end_time = 7\<rparr>)] [''10.0.0.1'', ''8.8.8.8'']) = Map.empty"
proof (rule unban_all_listed[OF alist_bans.ban_table_axioms])
  show "alist_valid 8 [(0x0a000001, \<lparr>end_time = 0\<rparr>), (0x08080808, \<lparr>end_time = 7\<rparr>)]"
    by (simp add: alist_valid_def)
  show "handle_list (alist_ops 8) [(0x0a000001, \<lparr>end_time = 0\<rparr>), (0x08080808, \<lparr>end_time = 7\<rparr>)] =
      RespList [''10.0.0.1'', ''8.8.8.8'']"
    by code_simp
qed

text \<open>
  C25. The end time of a ban with a TTL is \<open>now + ttl * 10 ^ 9\<close> exactly when that fits 64 bits. When it
  does not, a build with overflow checks panics and a release build stores the value modulo
  \<open>2 ^ 64\<close>.
\<close>

theorem ban_end_time_exact_or_overflow:
  "if unat now + unat t * 10 ^ 9 < 2 ^ 64
   then \<exists>e. ban_end_time p now (Some t) = Inr e \<and> unat e = unat now + unat t * 10 ^ 9
   else (\<exists>pn. ban_end_time Dev now (Some t) = Inl pn) \<and>
     (\<exists>e. ban_end_time Release now (Some t) = Inr e \<and> unat e = (unat now + unat t * 10 ^ 9) mod 2 ^ 64)"
proof -
  have n: "end_time_nat now t = unat now + unat t * 10 ^ 9" by (simp add: end_time_nat_def)
  show ?thesis
  proof (cases "end_time_nat now t < 2 ^ 64")
    case True
    then show ?thesis using ban_end_time_ok[OF True, of p] unfolding n by simp
  next
    case False
    then have ge: "2 ^ 64 \<le> end_time_nat now t" by simp
    show ?thesis
      using False ban_end_time_overflow_dev[OF ge] ban_end_time_release[of now t]
        ban_end_time_release_nat[of now t] unfolding n by simp
  qed
qed

text \<open>
  The task that accepts connections does not recover: once a client has stalled it, or a panic
  has ended it, no later connection is served or changes the table, whatever it sends. A client that
  connects and sends fewer than four bytes without closing stalls it.
\<close>

theorem accept_loop_stops_for_good:
  assumes "accept_loop w bops sops p ts bans = (bans', outs, st)" and "st \<noteq> Listening"
  shows "accept_loop w bops sops p (ts @ later) bans = (bans', outs, st)"
  using assms by (simp add: accept_loop_append split: task.split)

theorem accept_loop_stops_for_good_witness:
  "accept_loop json_wire (alist_ops 8) (alist_ops 8) Release
     ([\<lparr>t_utc = None, t_stats = [], t_conn = Some \<lparr>c_stream = \<lparr>st_in = [0, 0], st_eof = False\<rparr>, c_writes = 2\<rparr>\<rparr>] @
      [\<lparr>t_utc = None, t_stats = [],
        t_conn = Some \<lparr>c_stream = \<lparr>st_in = frame json_wire (json_req (ReqBan ''10.0.0.1'' None)), st_eof = True\<rparr>,
          c_writes = 2\<rparr>\<rparr>]) [] = ([], [], Waiting)"
  by (rule accept_loop_stops_for_good) (simp_all add: serve_conn_def read_u32_def read_exact_def)

text \<open>
  C19. In a release build, when every client sends one whole request, the loop answers all of them:
  it is listening again afterwards, and each connection has received one complete response frame.
\<close>

theorem accept_loop_answers_all:
  assumes "wire_format w" and "\<forall>t \<in> set ts. well_behaved w t"
  shows "\<exists>bans' outs. accept_loop w bops sops Release ts bans = (bans', outs, Listening) \<and>
    length outs = length ts \<and> (\<forall>out \<in> set outs. \<exists>resp pb. resp_to_vec w resp = Inr pb \<and> out = frame w pb)"
  using assms by (rule wire_format.all_answered)

definition sample_turn :: "DaemonRequest \<Rightarrow> (u32 \<times> StatsValue) list turn" where
  "sample_turn r =
     \<lparr>t_utc = Some 5, t_stats = [],
      t_conn = Some \<lparr>c_stream = \<lparr>st_in = frame json_wire (json_req r), st_eof = False\<rparr>, c_writes = 2\<rparr>\<rparr>"

lemma sample_turn_well_behaved:
  "length (json_req r) < 2 ^ 32 \<Longrightarrow> well_behaved json_wire (sample_turn r)"
  by (auto simp: well_behaved_def sample_turn_def json_wire_def)

theorem accept_loop_answers_all_witness:
  "\<exists>bans' outs. accept_loop json_wire (alist_ops 8) (alist_ops 8) Release
     [sample_turn (ReqUnban ''10.0.0.1''), sample_turn ReqList] [(0x0a000001, \<lparr>end_time = 0\<rparr>)] = (bans', outs, Listening) \<and>
     length outs = 2"
proof -
  have "\<forall>t \<in> set [sample_turn (ReqUnban ''10.0.0.1''), sample_turn ReqList]. well_behaved json_wire t"
    by (simp add: sample_turn_well_behaved json_lengths)
  from accept_loop_answers_all[OF json.wire_format_axioms this, of "alist_ops 8" "alist_ops 8"]
  show ?thesis by fastforce
qed

text \<open>
  A body that is not a request (by the parser's verdict) is answered with the error
  \<open>invalid request\<close> and leaves the table as it is.
\<close>

theorem malformed_request_answered:
  assumes "wire_format w" and "length body < 2 ^ 32" and "req_from_slice w body = Inl e"
    and "resp_to_vec w (RespError ''invalid request'') = Inr pb"
  shows "serve_conn w bops sops p utc \<lparr>c_stream = \<lparr>st_in = frame w body, st_eof = c\<rparr>, c_writes = 2\<rparr> bans stats =
    Served bans (frame w pb)"
  using assms(3,4) wire_format.read_frame_length[OF assms(1), of body "[]" c]
    wire_format.read_frame_body[OF assms(1,2), of "[]" c]
  by (simp add: serve_conn_def answer_def write_frame_def)

theorem malformed_request_answered_witness:
  "serve_conn json_wire (alist_ops 8) (alist_ops 8) Dev None
     \<lparr>c_stream = \<lparr>st_in = frame json_wire [9, 9], st_eof = False\<rparr>, c_writes = 2\<rparr> [(7, \<lparr>end_time = 0\<rparr>)] [] =
   Served [(7, \<lparr>end_time = 0\<rparr>)] (frame json_wire (json_resp (RespError ''invalid request'')))"
  by (rule malformed_request_answered[OF json.wire_format_axioms])
    (simp_all add: json_wire_def from_json_def text_of_bytes_def json_of_text_def is_ws_def)

end
