(* ===== verification/Cli.thy ===== *)
theory Cli
  imports Daemon
begin

text \<open>
  The command line of \<open>rustguard/src/main.rs\<close>: the subcommands, \<open>send_command\<close> with its error paths,
  and the dispatch of \<open>main\<close>. Argument parsing by clap is outside the model; so is what the terminal
  does with the printed lines.
\<close>

datatype Commands =
    CmdDaemon string
  | CmdBan string "u64 option"
  | CmdUnban string
  | CmdList
  | CmdStats
  | CmdMonitor

definition SOCKET_PATH :: string where
  "SOCKET_PATH = ''/tmp/rustguard.sock''"

section \<open>send\_command\<close>

datatype cli_error =
    ConnectFailed | NotImplemented | Json json_error | WriteFailed
  | ReadLengthFailed | EmptyResponse | ReadBodyFailed

datatype client_outcome = Hangs | Fails cli_error | Prints "string list"

text \<open>
  The client's side of its connection: whether \<open>connect\<close> succeeds, how many of the three writes
  (length, body, flush) succeed, and what arrives from the daemon.
\<close>

record client_io =
  ci_connected :: bool
  ci_writes :: nat
  ci_reply :: stream

definition request_of :: "Commands \<Rightarrow> DaemonRequest option" where
  "request_of cmd =
     (case cmd of
        CmdBan target ttl \<Rightarrow> Some (ReqBan target ttl)
      | CmdUnban target \<Rightarrow> Some (ReqUnban target)
      | CmdList \<Rightarrow> Some ReqList
      | CmdStats \<Rightarrow> Some ReqStats
      | _ \<Rightarrow> None)"

definition print_response :: "DaemonResponse \<Rightarrow> string list" where
  "print_response r =
     (case r of
        RespOk \<Rightarrow> [''Success'']
      | RespError e \<Rightarrow> [''Error: '' @ e]
      | RespList items \<Rightarrow> ''Active bans:'' # map (\<lambda>item. ''  '' @ item) items
      | RespStats s \<Rightarrow> [''Stats: '' @ s])"

definition read_response :: "wire \<Rightarrow> stream \<Rightarrow> client_outcome" where
  "read_response w st =
     (case read_u32 w st of
        Pending \<Rightarrow> Hangs
      | IoErr \<Rightarrow> Fails ReadLengthFailed
      | Got (resp_len, st') \<Rightarrow>
          if resp_len = 0 then Fails EmptyResponse
          else (case read_exact (unat resp_len) st' of
                  Pending \<Rightarrow> Hangs
                | IoErr \<Rightarrow> Fails ReadBodyFailed
                | Got (resp_buf, _) \<Rightarrow>
                    (case resp_from_slice w resp_buf of
                       Inl e \<Rightarrow> Fails (Json e)
                     | Inr response \<Rightarrow> Prints (print_response response))))"

definition send_command :: "wire \<Rightarrow> client_io \<Rightarrow> Commands \<Rightarrow> bytes \<times> client_outcome" where
  "send_command w io cmd =
     (if \<not> ci_connected io then ([], Fails ConnectFailed)
      else case request_of cmd of
        None \<Rightarrow> ([], Fails NotImplemented)
      | Some request \<Rightarrow>
          (case req_to_vec w request of
             Inl e \<Rightarrow> ([], Fails (Json e))
           | Inr req_bytes \<Rightarrow>
               (write_frame w (ci_writes io) req_bytes,
                if ci_writes io < 3 then Fails WriteFailed else read_response w (ci_reply io))))"

section \<open>The daemon of the tests\<close>

text \<open>
  \<open>spawn_fake_daemon\<close>: serves one connection with a fixed response. Every failure is unwrapped, so it
  ends the task with a panic; a client that sends too little leaves the task waiting.
\<close>

definition fake_daemon :: "wire \<Rightarrow> DaemonResponse \<Rightarrow> conn \<Rightarrow> unit outcome" where
  "fake_daemon w response c =
     (case read_u32 w (c_stream c) of
        Pending \<Rightarrow> Stalled
      | IoErr \<Rightarrow> Crashed UnwrapFailed ()
      | Got (len, st) \<Rightarrow>
          (case read_exact (unat len) st of
             Pending \<Rightarrow> Stalled
           | IoErr \<Rightarrow> Crashed UnwrapFailed ()
           | Got (buf, _) \<Rightarrow>
               (case (req_from_slice w buf, resp_to_vec w response) of
                  (Inr _, Inr resp_bytes) \<Rightarrow>
                    if c_writes c < 2 then Crashed UnwrapFailed () else Served () (frame w resp_bytes)
                | _ \<Rightarrow> Crashed UnwrapFailed ())))"

section \<open>main\<close>

text \<open>
  \<open>env_logger\<close> is a parameter: from whether a global logger is set, initialising either panics or
  sets it. \<open>run_daemon\<close> and \<open>monitor_run\<close> are parameters of the dispatch; the first takes the state of
  the logger, because it initialises the logger again.
\<close>

datatype ('d, 'm) main_result = RanDaemon 'd | RanMonitor 'm | RanClient "bytes \<times> client_outcome"

definition run_daemon_logged ::
  "(bool \<Rightarrow> panic + bool) \<Rightarrow> bool \<Rightarrow> (string \<Rightarrow> 'd) \<Rightarrow> string \<Rightarrow> panic + 'd" where
  "run_daemon_logged env_logger_init logger_set body iface =
     res_bind (env_logger_init logger_set) (\<lambda>_. Inr (body iface))"

definition main ::
  "(bool \<Rightarrow> panic + bool) \<Rightarrow> (string \<Rightarrow> 'd) \<Rightarrow> 'm \<Rightarrow> wire \<Rightarrow> client_io \<Rightarrow> Commands \<Rightarrow>
     panic + ('d, 'm) main_result" where
  "main env_logger_init daemon_body monitor w io cmd =
     res_bind (env_logger_init False) (\<lambda>logger_set.
       case cmd of
         CmdDaemon iface \<Rightarrow>
           res_bind (run_daemon_logged env_logger_init logger_set daemon_body iface) (\<lambda>d. Inr (RanDaemon d))
       | CmdMonitor \<Rightarrow> Inr (RanMonitor monitor)
       | cmd \<Rightarrow> Inr (RanClient (send_command w io cmd)))"

section \<open>Both ends of a connection\<close>

context wire_format
begin

lemma client_sends:
  assumes "request_of cmd = Some req" and "req_to_vec w req = Inr rb"
  shows "fst (send_command w \<lparr>ci_connected = True, ci_writes = 3, ci_reply = st\<rparr> cmd) = frame w rb"
  using assms by (simp add: send_command_def write_frame_def)

lemma server_answers:
  assumes "req_to_vec w req = Inr rb" and "length rb < 2 ^ 32"
    and "handle_request bops sops p utc bans stats req = Inr (bans', resp)"
    and "resp_to_vec w resp = Inr pb"
  shows "serve_conn w bops sops p utc \<lparr>c_stream = \<lparr>st_in = frame w rb @ trailing, st_eof = c\<rparr>, c_writes = 2\<rparr> bans stats =
    Served bans' (frame w pb)"
  using assms req_roundtrip[OF assms(1)]
  by (simp add: serve_conn_def read_frame_length read_frame_body answer_def write_frame_def)

lemma fake_daemon_answers:
  assumes "req_to_vec w req = Inr rb" and "length rb < 2 ^ 32" and "resp_to_vec w resp = Inr pb"
  shows "fake_daemon w resp \<lparr>c_stream = \<lparr>st_in = frame w rb, st_eof = c\<rparr>, c_writes = 2\<rparr> = Served () (frame w pb)"
  using read_frame_length[of rb "[]" c] read_frame_body[OF assms(2), of "[]" c] req_roundtrip[OF assms(1)] assms(3)
  by (simp add: fake_daemon_def)

lemma client_prints:
  assumes "resp_to_vec w resp = Inr pb" and "length pb < 2 ^ 32"
  shows "read_response w \<lparr>st_in = frame w pb, st_eof = c\<rparr> = Prints (print_response resp)"
proof -
  have "unat (word_of_nat (length pb) :: u32) = length pb" using assms(2) by (simp add: unat_of_nat)
  moreover have "length pb \<noteq> 0" using resp_nonempty[OF assms(1)] by simp
  ultimately have "(word_of_nat (length pb) :: u32) \<noteq> 0" by (metis unat_0)
  then show ?thesis
    using resp_roundtrip[OF assms(1)] read_frame_length[of pb "[]" c] read_frame_body[OF assms(2), of "[]" c]
    by (simp add: read_response_def)
qed

end

section \<open>Properties\<close>

text \<open>
  C6. End to end: when the client's request and the daemon's response are shorter than \<open>2 ^ 32\<close>
  bytes, the daemon that reads what \<open>send_command\<close> wrote performs exactly that request, and the client
  that reads what the daemon wrote prints exactly the daemon's response.
\<close>

theorem command_end_to_end:
  assumes "wire_format w" and "request_of cmd = Some req"
    and "req_to_vec w req = Inr rb" and "length rb < 2 ^ 32"
    and "handle_request bops sops p utc bans stats req = Inr (bans', resp)"
    and "resp_to_vec w resp = Inr pb" and "length pb < 2 ^ 32"
    and "sent = fst (send_command w \<lparr>ci_connected = True, ci_writes = 3, ci_reply = any\<rparr> cmd)"
    and "out = serve_conn w bops sops p utc \<lparr>c_stream = \<lparr>st_in = sent, st_eof = c\<rparr>, c_writes = 2\<rparr> bans stats"
  shows "\<exists>reply. out = Served bans' reply \<and>
    send_command w \<lparr>ci_connected = True, ci_writes = 3, ci_reply = \<lparr>st_in = reply, st_eof = d\<rparr>\<rparr> cmd =
      (sent, Prints (print_response resp))"
proof -
  have sent: "sent = frame w rb"
    using wire_format.client_sends[OF assms(1-3)] assms(8) by simp
  moreover have "out = Served bans' (frame w pb)"
    using wire_format.server_answers[OF assms(1,3-6), of "[]" c] assms(9) sent by simp
  moreover have "send_command w \<lparr>ci_connected = True, ci_writes = 3, ci_reply = \<lparr>st_in = frame w pb, st_eof = d\<rparr>\<rparr> cmd =
      (frame w rb, Prints (print_response resp))"
    using assms(2,3) wire_format.client_prints[OF assms(1,6,7)] by (simp add: send_command_def write_frame_def)
  ultimately show ?thesis by simp
qed

theorem command_end_to_end_witness:
  "\<exists>reply. serve_conn json_wire (alist_ops 8) (alist_ops 8) Dev None
      \<lparr>c_stream = \<lparr>st_in = fst (send_command json_wire
          \<lparr>ci_connected = True, ci_writes = 3, ci_reply = \<lparr>st_in = [], st_eof = False\<rparr>\<rparr> (CmdBan ''1.2'' (Some 5))),
        st_eof = False\<rparr>, c_writes = 2\<rparr> [] [] = Served [] reply \<and>
    snd (send_command json_wire \<lparr>ci_connected = True, ci_writes = 3, ci_reply = \<lparr>st_in = reply, st_eof = True\<rparr>\<rparr>
      (CmdBan ''1.2'' (Some 5))) = Prints [''Error: invalid ip'']"
proof -
  have "ipv4_from_str ''1.2'' = None" by code_simp
  then have h: "handle_request (alist_ops 8) (alist_ops 8) Dev None [] [] (ReqBan ''1.2'' (Some 5)) =
      Inr ([], RespError ''invalid ip'')"
    by (simp add: handle_request_def handle_ban_def)
  show ?thesis
    using command_end_to_end[OF json.wire_format_axioms _ _ _ h _ _ refl refl, of "CmdBan ''1.2'' (Some 5)"
        "json_req (ReqBan ''1.2'' (Some 5))" "json_resp (RespError ''invalid ip'')" "\<lparr>st_in = [], st_eof = False\<rparr>" False True]
    by (auto simp: request_of_def json_wire_def json_lengths dec_string_small digit_char_def print_response_def)
qed

text \<open>
  C34. The client reports success only on evidence: if \<open>send_command\<close> prints a response, it was connected,
  the command has a request, the whole frame of that request was written, and the daemon sent a
  non-empty, complete frame whose body parses as the printed response.
\<close>

theorem send_command_prints_only_responses:
  assumes "send_command w io cmd = (sent, Prints lines)"
  shows "ci_connected io \<and>
    (\<exists>req rb. request_of cmd = Some req \<and> req_to_vec w req = Inr rb \<and> sent = frame w rb) \<and>
    (\<exists>n resp. n = unat (get_u32 w (take 4 (st_in (ci_reply io)))) \<and> 0 < n \<and> 4 + n \<le> length (st_in (ci_reply io)) \<and>
       resp_from_slice w (take n (drop 4 (st_in (ci_reply io)))) = Inr resp \<and> lines = print_response resp)"
  using assms
  by (auto simp: send_command_def read_response_def read_u32_def read_exact_def write_frame_def unat_gt_0
      split: if_splits option.splits sum.splits io.splits)

theorem send_command_prints_only_responses_witness:
  "\<exists>req rb. request_of CmdStats = Some req \<and> req_to_vec json_wire req = Inr rb \<and>
    frame json_wire (json_req ReqStats) = frame json_wire rb"
proof -
  have "send_command json_wire \<lparr>ci_connected = True, ci_writes = 3,
      ci_reply = \<lparr>st_in = frame json_wire (json_resp RespOk), st_eof = False\<rparr>\<rparr> CmdStats =
      (frame json_wire (json_req ReqStats), Prints [''Success''])"
    using json.client_prints[of RespOk "json_resp RespOk" False]
    by (simp add: send_command_def write_frame_def request_of_def json_wire_def json_lengths print_response_def)
  from send_command_prints_only_responses[OF this] show ?thesis by blast
qed

text \<open>
  C36. Starting the daemon through \<open>main\<close> always panics: \<open>main\<close> initialises the logger and \<open>run_daemon\<close>
  initialises it again, which \<open>env_logger\<close> documents as a panic. No other subcommand panics in this
  way.
\<close>

theorem main_daemon_panics:
  assumes "env_logger_init False = Inr True" and "env_logger_init True = Inl LoggerAlreadySet"
  shows "main env_logger_init daemon_body monitor w io cmd = Inl LoggerAlreadySet \<longleftrightarrow> (\<exists>iface. cmd = CmdDaemon iface)"
  using assms by (cases cmd) (simp_all add: main_def run_daemon_logged_def)

theorem main_daemon_panics_witness:
  "main (\<lambda>set. if set then Inl LoggerAlreadySet else Inr True) (\<lambda>iface. ()) () json_wire
     \<lparr>ci_connected = True, ci_writes = 3, ci_reply = \<lparr>st_in = [], st_eof = False\<rparr>\<rparr> (CmdDaemon ''eth0'') = Inl LoggerAlreadySet"
  by (subst main_daemon_panics) simp_all

text \<open>
  What the tests of \<open>send_command\<close> check on four examples holds of every command and every response:
  against the fake daemon, which answers any request with a given response, \<open>send_command\<close> writes a frame
  the fake daemon accepts and prints that response; without a daemon to connect to it fails, having
  written nothing.
\<close>

theorem send_command_against_fake_daemon:
  assumes "wire_format w" and "request_of cmd = Some req"
    and "req_to_vec w req = Inr rb" and "length rb < 2 ^ 32"
    and "resp_to_vec w resp = Inr pb" and "length pb < 2 ^ 32"
  shows "\<exists>sent reply.
      (\<forall>any. fst (send_command w \<lparr>ci_connected = True, ci_writes = 3, ci_reply = any\<rparr> cmd) = sent) \<and>
      fake_daemon w resp \<lparr>c_stream = \<lparr>st_in = sent, st_eof = c\<rparr>, c_writes = 2\<rparr> = Served () reply \<and>
      send_command w \<lparr>ci_connected = True, ci_writes = 3, ci_reply = \<lparr>st_in = reply, st_eof = d\<rparr>\<rparr> cmd =
        (sent, Prints (print_response resp)) \<and>
      send_command w \<lparr>ci_connected = False, ci_writes = n, ci_reply = st\<rparr> cmd = ([], Fails ConnectFailed)"
proof (intro exI conjI allI)
  show "fst (send_command w \<lparr>ci_connected = True, ci_writes = 3, ci_reply = any\<rparr> cmd) = frame w rb" for any
    by (rule wire_format.client_sends[OF assms(1-3)])
  show "fake_daemon w resp \<lparr>c_stream = \<lparr>st_in = frame w rb, st_eof = c\<rparr>, c_writes = 2\<rparr> = Served () (frame w pb)"
    by (rule wire_format.fake_daemon_answers[OF assms(1,3,4,5)])
  show "send_command w \<lparr>ci_connected = True, ci_writes = 3, ci_reply = \<lparr>st_in = frame w pb, st_eof = d\<rparr>\<rparr> cmd =
      (frame w rb, Prints (print_response resp))"
    using assms(2,3) wire_format.client_prints[OF assms(1,5,6)] by (simp add: send_command_def write_frame_def)
qed (simp add: send_command_def)

theorem send_command_against_fake_daemon_witness:
  "\<exists>sent reply. fake_daemon json_wire (RespList [''1.2.3.4'']) \<lparr>c_stream = \<lparr>st_in = sent, st_eof = False\<rparr>, c_writes = 2\<rparr> =
      Served () reply \<and>
    send_command json_wire \<lparr>ci_connected = True, ci_writes = 3, ci_reply = \<lparr>st_in = reply, st_eof = True\<rparr>\<rparr> CmdList =
      (sent, Prints [''Active bans:'', ''  1.2.3.4''])"
proof -
  have l: "length (json_req ReqList) < 2 ^ 32" "length (json_resp (RespList [''1.2.3.4''])) < 2 ^ 32"
    by (simp_all add: json_lengths)
  have v: "request_of CmdList = Some ReqList" "req_to_vec json_wire ReqList = Inr (json_req ReqList)"
    "resp_to_vec json_wire (RespList [''1.2.3.4'']) = Inr (json_resp (RespList [''1.2.3.4'']))"
    by (simp_all add: json_wire_def request_of_def)
  show ?thesis
    using send_command_against_fake_daemon[OF json.wire_format_axioms v(1,2) l(1) v(3) l(2), of False True 0 "\<lparr>st_in = [], st_eof = True\<rparr>"]
    by (auto simp: print_response_def)
qed

end
