(* ===== verification/Firewall_System.thy ===== *)
theory Firewall_System
  imports Xdp_Filter Cli
begin

text \<open>
  The kernel program and the daemon together. They share the two BPF maps: the daemon writes the
  bans between requests, the XDP program reads them and updates the statistics on every packet. The
  state also holds the two clocks the code reads: \<open>bpf_ktime_get_ns\<close> (since boot) in the kernel and
  the wall clock in the daemon. A run interleaves packets, requests and the passing of time in any
  order.
\<close>

record ('b, 's) sys =
  sy_bans :: 'b
  sy_stats :: 's
  sy_ktime :: u64
  sy_utc :: "i64 option"

datatype label =
    Packet xdp_ctx "xdp_action prog"
  | Request DaemonRequest DaemonResponse
  | Tick

inductive sys_step ::
  "net_hdrs \<Rightarrow> ('b, BanValue) map_ops \<Rightarrow> ('s, StatsValue) map_ops \<Rightarrow> profile \<Rightarrow>
     ('b, 's) sys \<Rightarrow> label \<Rightarrow> ('b, 's) sys \<Rightarrow> bool"
  for nh bops sops p where
  packet:
    "ctx_wf ctx \<Longrightarrow>
     rustguard nh bops sops (sy_ktime s) ctx (sy_bans s) (sy_stats s) = (a, log, stats') \<Longrightarrow>
     sys_step nh bops sops p s (Packet ctx a) (s\<lparr>sy_stats := stats'\<rparr>)"
| request:
    "handle_request bops sops p (sy_utc s) (sy_bans s) (sy_stats s) req = Inr (bans', resp) \<Longrightarrow>
     sys_step nh bops sops p s (Request req resp) (s\<lparr>sy_bans := bans'\<rparr>)"
| tick:
    "sy_ktime s \<le> k \<Longrightarrow> sys_step nh bops sops p s Tick (s\<lparr>sy_ktime := k, sy_utc := u\<rparr>)"

inductive_cases packet_stepE: "sys_step nh bops sops p s (Packet ctx a) t"
inductive_cases request_stepE: "sys_step nh bops sops p s (Request req resp) t"

inductive run ::
  "net_hdrs \<Rightarrow> ('b, BanValue) map_ops \<Rightarrow> ('s, StatsValue) map_ops \<Rightarrow> profile \<Rightarrow>
     ('b, 's) sys \<Rightarrow> label list \<Rightarrow> ('b, 's) sys \<Rightarrow> bool"
  for nh bops sops p where
  run_nil: "run nh bops sops p s [] s"
| run_cons:
    "sys_step nh bops sops p s l t \<Longrightarrow> run nh bops sops p t ls u \<Longrightarrow> run nh bops sops p s (l # ls) u"

text \<open>The maps as loading the programs creates them: empty.\<close>

definition fresh ::
  "('b, BanValue) map_ops \<Rightarrow> ('s, StatsValue) map_ops \<Rightarrow> ('b \<Rightarrow> bool) \<Rightarrow> ('b, 's) sys \<Rightarrow> bool" where
  "fresh bops sops valid s \<longleftrightarrow>
     valid (sy_bans s) \<and> mo_get bops (sy_bans s) = Map.empty \<and> mo_get sops (sy_stats s) = Map.empty"

text \<open>A packet of the run that comes from \<open>src\<close> over TCP or UDP.\<close>

definition packet_from :: "u32 \<Rightarrow> xdp_ctx \<Rightarrow> bool" where
  "packet_from src ctx \<longleftrightarrow> (\<exists>port. classify (packet_bytes ctx) = Flow src port)"

definition spares :: "u32 \<Rightarrow> label \<Rightarrow> bool" where
  "spares k l \<longleftrightarrow> (case l of Request req _ \<Rightarrow> req_addr req \<noteq> Some k | _ \<Rightarrow> True)"

section \<open>Statistics\<close>

lemma count_drop_absent: "mo_get sops st 0 = None \<Longrightarrow> count_drop sops st = st"
  by (simp add: count_drop_def)

lemma rustguard_stats:
  assumes "rustguard nh bops sops now ctx bans st = (a, log, st')"
  shows "st' = (if a = Ret XDP_DROP then count_drop sops st else st)"
  using assms
  by (auto simp: rustguard_def try_rustguard_def split: prog.splits option.splits prod.splits if_splits)

lemma rustguard_stats_absent:
  assumes "rustguard nh bops sops now ctx bans st = (a, log, st')" and "mo_get sops st 0 = None"
  shows "st' = st"
  using rustguard_stats[OF assms(1)] count_drop_absent[OF assms(2)] by simp

lemma step_stats_absent:
  assumes "sys_step nh bops sops p s l t" and "mo_get sops (sy_stats s) 0 = None"
  shows "mo_get sops (sy_stats t) 0 = None"
  using assms by cases (auto dest: rustguard_stats_absent)

lemma step_stats_reply:
  assumes "sys_step nh bops sops p s (Request ReqStats resp) t" and "mo_get sops (sy_stats s) 0 = None"
  shows "resp = RespStats ''No stats''"
  using assms by (auto elim!: request_stepE simp: handle_request_def handle_stats_def)

lemma run_stats_absent:
  assumes "run nh bops sops p s ls t" and "mo_get sops (sy_stats s) 0 = None"
  shows "mo_get sops (sy_stats t) 0 = None \<and>
    (\<forall>resp. Request ReqStats resp \<in> set ls \<longrightarrow> resp = RespStats ''No stats'')"
  using assms
proof (induction rule: run.induct)
  case (run_cons s l t ls u)
  have "mo_get sops (sy_stats t) 0 = None"
    using step_stats_absent[OF run_cons.hyps(1)] run_cons.prems by blast
  moreover have "l = Request ReqStats resp \<Longrightarrow> resp = RespStats ''No stats''" for resp
    using step_stats_reply run_cons.hyps(1) run_cons.prems by blast
  ultimately show ?case using run_cons.IH by auto
qed simp

section \<open>Bans\<close>

locale firewall = network_headers nh + ban_table bops max_entries valid
  for nh :: net_hdrs and bops :: "('b, BanValue) map_ops" and max_entries :: nat and valid :: "'b \<Rightarrow> bool" +
  fixes sops :: "('s, StatsValue) map_ops" and p :: profile
begin

lemma step_valid: "sys_step nh bops sops p s l t \<Longrightarrow> valid (sy_bans s) \<Longrightarrow> valid (sy_bans t)"
  by (cases rule: sys_step.cases) (auto dest: handle_request_valid)

lemma step_spares:
  assumes "sys_step nh bops sops p s l t" and "valid (sy_bans s)" and "spares k l"
  shows "mo_get bops (sy_bans t) k = mo_get bops (sy_bans s) k"
  using assms by cases (auto simp: spares_def dest: handle_request_other)

lemma step_packet_action:
  assumes "sys_step nh bops sops p s (Packet ctx a) t"
  shows "a = Ret (filter_spec (mo_get bops (sy_bans s)) (sy_ktime s) (packet_bytes ctx))"
  using assms rustguard_action[of ctx bops sops "sy_ktime s" "sy_bans s" "sy_stats s"]
  by (auto elim!: packet_stepE)

lemma run_valid: "run nh bops sops p s ls t \<Longrightarrow> valid (sy_bans s) \<Longrightarrow> valid (sy_bans t)"
  by (induction rule: run.induct) (auto dest: step_valid)

lemma step_ktime: "sys_step nh bops sops p s l t \<Longrightarrow> sy_ktime s \<le> sy_ktime t"
  by (cases rule: sys_step.cases) auto

lemma run_ktime: "run nh bops sops p s ls t \<Longrightarrow> sy_ktime s \<le> sy_ktime t"
  by (induction rule: run.induct) (auto dest: step_ktime)

text \<open>What holds of one entry until some time holds of every packet until then while the entry is spared.\<close>

lemma run_entry_until:
  assumes "run nh bops sops p s ls t" and "valid (sy_bans s)" and "\<forall>l \<in> set ls. spares k l"
    and "mo_get bops (sy_bans s) k = entry" and "sy_ktime t \<le> until"
    and "\<And>now bans pkt port. now \<le> until \<Longrightarrow> bans k = entry \<Longrightarrow> classify pkt = Flow k port \<Longrightarrow> filter_spec bans now pkt = act"
  shows "mo_get bops (sy_bans t) k = entry \<and>
    (\<forall>ctx a. Packet ctx a \<in> set ls \<and> packet_from k ctx \<longrightarrow> a = Ret act)"
  using assms(1-5)
proof (induction rule: run.induct)
  case (run_cons s l t ls u)
  have "valid (sy_bans t)" "mo_get bops (sy_bans t) k = entry"
    using step_valid[OF run_cons.hyps(1)] step_spares[OF run_cons.hyps(1)] run_cons.prems by auto
  moreover have "a = Ret act" if "l = Packet ctx a" and "packet_from k ctx" for ctx a
  proof -
    have "a = Ret (filter_spec (mo_get bops (sy_bans s)) (sy_ktime s) (packet_bytes ctx))"
      using step_packet_action run_cons.hyps(1) that(1) by blast
    moreover have "sy_ktime s \<le> until"
      using step_ktime[OF run_cons.hyps(1)] run_ktime[OF run_cons.hyps(2)] run_cons.prems(4) by (meson order_trans)
    ultimately show ?thesis using assms(6) run_cons.prems that(2) by (auto simp: packet_from_def)
  qed
  ultimately show ?case using run_cons.IH run_cons.prems by auto
qed simp

lemma run_entry:
  assumes "run nh bops sops p s ls t" and "valid (sy_bans s)" and "\<forall>l \<in> set ls. spares k l"
    and "mo_get bops (sy_bans s) k = entry"
    and "\<And>now bans pkt port. bans k = entry \<Longrightarrow> classify pkt = Flow k port \<Longrightarrow> filter_spec bans now pkt = act"
  shows "mo_get bops (sy_bans t) k = entry \<and>
    (\<forall>ctx a. Packet ctx a \<in> set ls \<and> packet_from k ctx \<longrightarrow> a = Ret act)"
  using assms(1-4) order_refl by (rule run_entry_until) (rule assms(5))

lemma active_entry_drops:
  "e = 0 \<or> until \<le> e \<Longrightarrow> now \<le> until \<Longrightarrow> (bans :: u32 \<rightharpoonup> BanValue) k = Some \<lparr>end_time = e\<rparr> \<Longrightarrow>
     classify pkt = Flow k port \<Longrightarrow> filter_spec bans now pkt = XDP_DROP"
  by (auto simp: filter_spec_def ban_active_def)

lemma permanent_entry_drops:
  "(bans :: u32 \<rightharpoonup> BanValue) k = Some \<lparr>end_time = 0\<rparr> \<Longrightarrow> classify pkt = Flow k port \<Longrightarrow> filter_spec bans now pkt = XDP_DROP"
  by (simp add: filter_spec_def ban_active_def)

lemma absent_entry_passes:
  "bans k = None \<Longrightarrow> classify pkt = Flow k port \<Longrightarrow> filter_spec bans now pkt = XDP_PASS"
  by (simp add: filter_spec_def)

end

interpretation rfc_firewall: firewall rfc_headers "alist_ops n" n "alist_valid n" sops p for n sops p
  by unfold_locales

section \<open>Properties\<close>

text \<open>
  C29. Drops are never counted: no part of the program creates the counter entry, so in every run from
  empty maps the statistics stay as they were and every statistics request is answered
  \<open>No stats\<close>, however many packets were dropped.
\<close>

theorem statistics_never_available:
  assumes "fresh bops sops valid s" and "run nh bops sops p s ls t"
  shows "mo_get sops (sy_stats t) 0 = None \<and>
    (\<forall>resp. Request ReqStats resp \<in> set ls \<longrightarrow> resp = RespStats ''No stats'')"
proof -
  have "mo_get sops (sy_stats s) 0 = None" using assms(1) by (simp add: fresh_def)
  with assms(2) show ?thesis by (rule run_stats_absent)
qed

text \<open>A system with empty maps, and a run over it: a ban, a dropped packet, a statistics request.\<close>

definition sample_sys :: "((u32 \<times> BanValue) list, (u32 \<times> StatsValue) list) sys" where
  "sample_sys = \<lparr>sy_bans = [], sy_stats = [], sy_ktime = 5, sy_utc = Some 1000\<rparr>"

definition sample_banned :: "((u32 \<times> BanValue) list, (u32 \<times> StatsValue) list) sys" where
  "sample_banned = sample_sys\<lparr>sy_bans := [(0x0a000001, \<lparr>end_time = 0\<rparr>)]\<rparr>"

definition sample_packet :: label where
  "sample_packet = Packet (ctx_of_packet 4096 (sample_frame 6)) (Ret XDP_DROP)"

lemma sample_fresh: "fresh (alist_ops 1024) (alist_ops 1024) (alist_valid 1024) sample_sys"
  by (simp add: fresh_def sample_sys_def alist_valid_def alist_ops_def)

lemma sample_ban_handled:
  "handle_request (alist_ops 1024) (alist_ops 1024) Release (sy_utc sample_sys) (sy_bans sample_sys) (sy_stats sample_sys)
     (ReqBan ''10.0.0.1'' None) = Inr (sy_bans sample_banned, RespOk)"
  by (simp add: handle_request_def handle_ban_def from_str_sample u32_of_sample ban_end_time_def
      insert_ignored_def alist_ops_def sample_sys_def sample_banned_def)

lemma sample_ban_step:
  "sys_step rfc_headers (alist_ops 1024) (alist_ops 1024) Release sample_sys (Request (ReqBan ''10.0.0.1'' None) RespOk) sample_banned"
  using sys_step.request[OF sample_ban_handled] by (simp add: sample_banned_def)

lemma sample_packet_step:
  "sys_step rfc_headers (alist_ops 1024) (alist_ops 1024) Release sample_banned sample_packet sample_banned"
proof -
  let ?r = "rustguard rfc_headers (alist_ops 1024) (alist_ops 1024) (sy_ktime sample_banned)
    (ctx_of_packet 4096 (sample_frame 6)) (sy_bans sample_banned) (sy_stats sample_banned)"
  have a: "fst ?r = Ret XDP_DROP"
    unfolding rfc.rustguard_action[OF sample_frame_ctx(1)]
    by (simp add: sample_frame_ctx(2) filter_spec_def classify_sample_frame alist_ops_def ban_active_def
        sample_banned_def)
  have none: "mo_get (alist_ops 1024) (sy_stats sample_banned) 0 = None"
    by (simp add: sample_banned_def sample_sys_def alist_ops_def)
  have "?r = (fst ?r, fst (snd ?r), snd (snd ?r))" by simp
  from rustguard_stats_absent[OF this none] have st: "snd (snd ?r) = sy_stats sample_banned" .
  have "?r = (Ret XDP_DROP, fst (snd ?r), sy_stats sample_banned)" using a st by (simp add: prod_eq_iff)
  from sys_step.packet[OF sample_frame_ctx(1) this] show ?thesis by (simp add: sample_packet_def)
qed

lemma sample_stats_step:
  "sys_step rfc_headers (alist_ops 1024) (alist_ops 1024) Release sample_banned
     (Request ReqStats (RespStats ''No stats'')) sample_banned"
proof -
  have "handle_request (alist_ops 1024) (alist_ops 1024) Release (sy_utc sample_banned) (sy_bans sample_banned)
      (sy_stats sample_banned) ReqStats = Inr (sy_bans sample_banned, RespStats ''No stats'')"
    by (simp add: handle_request_def handle_stats_def alist_ops_def sample_banned_def sample_sys_def)
  from sys_step.request[OF this] show ?thesis by simp
qed

lemmas sample_runs = run.run_cons[OF sample_ban_step] run.run_cons[OF sample_packet_step]
  run.run_cons[OF sample_stats_step] run.run_nil

theorem statistics_never_available_witness:
  "fresh (alist_ops 1024) (alist_ops 1024) (alist_valid 1024) sample_sys \<and>
   mo_get (alist_ops 1024) (sy_stats sample_banned) 0 = None \<and>
   run rfc_headers (alist_ops 1024) (alist_ops 1024) Release sample_sys
     [Request (ReqBan ''10.0.0.1'' None) RespOk, sample_packet, Request ReqStats (RespStats ''No stats'')] sample_banned"
proof -
  have r: "run rfc_headers (alist_ops 1024) (alist_ops 1024) Release sample_sys
     [Request (ReqBan ''10.0.0.1'' None) RespOk, sample_packet, Request ReqStats (RespStats ''No stats'')] sample_banned"
    by (intro sample_runs)
  show ?thesis using statistics_never_available[OF sample_fresh r] r sample_fresh by blast
qed

text \<open>
  In every reachable state the table of bans is a valid map of at most \<open>max_entries\<close> addresses: no
  sequence of packets, requests and clock ticks corrupts or overfills it.
\<close>

theorem reachable_bans_bounded:
  assumes "firewall nh bops max_entries valid" and "fresh bops sops valid s" and "run nh bops sops p s ls t"
  shows "valid (sy_bans t) \<and> card (dom (mo_get bops (sy_bans t))) \<le> max_entries"
proof -
  have "valid (sy_bans t)"
    using firewall.run_valid[OF assms(1,3)] assms(2) by (simp add: fresh_def)
  moreover have "bpf_hash_map bops max_entries valid"
    using assms(1) by (simp add: firewall_def ban_table_def)
  ultimately show ?thesis using bpf_hash_map.at_most_max[of bops max_entries valid "sy_bans t"] by simp
qed

theorem reachable_bans_bounded_witness:
  "card (dom (mo_get (alist_ops BANNED_IPS_max_entries) (sy_bans sample_banned))) \<le> BANNED_IPS_max_entries"
  unfolding BANNED_IPS_max_entries_def
  by (rule reachable_bans_bounded[OF rfc_firewall.firewall_axioms sample_fresh
        run.run_cons[OF sample_ban_step run.run_nil], THEN conjunct2])

text \<open>
  A permanent ban holds until it is lifted: from a state where an address is banned without end, in
  any interleaving of packets, ticks and requests none of which names that address, every TCP or UDP
  packet from it is dropped, and the ban is still there at the end.
\<close>

theorem permanent_ban_holds:
  assumes "firewall nh bops max_entries valid" and "valid (sy_bans s)"
    and "mo_get bops (sy_bans s) k = Some \<lparr>end_time = 0\<rparr>"
    and "run nh bops sops p s ls t" and "\<forall>l \<in> set ls. spares k l"
  shows "mo_get bops (sy_bans t) k = Some \<lparr>end_time = 0\<rparr> \<and>
    (\<forall>ctx a. Packet ctx a \<in> set ls \<and> packet_from k ctx \<longrightarrow> a = Ret XDP_DROP)"
  using assms(4,2,5,3) by (rule firewall.run_entry[OF assms(1)]) (rule firewall.permanent_entry_drops[OF assms(1)])

theorem permanent_ban_holds_witness:
  "mo_get (alist_ops 1024) (sy_bans sample_banned) 0x0a000001 = Some \<lparr>end_time = 0\<rparr> \<and>
   packet_from 0x0a000001 (ctx_of_packet 4096 (sample_frame 6))"
proof -
  have r: "run rfc_headers (alist_ops 1024) (alist_ops 1024) Release sample_banned
     [sample_packet, Request ReqStats (RespStats ''No stats'')] sample_banned"
    by (intro sample_runs)
  have "alist_valid 1024 (sy_bans sample_banned)"
    and "mo_get (alist_ops 1024) (sy_bans sample_banned) 0x0a000001 = Some \<lparr>end_time = 0\<rparr>"
    by (simp_all add: sample_banned_def alist_valid_def alist_ops_def)
  from permanent_ban_holds[OF rfc_firewall.firewall_axioms this r]
  have "mo_get (alist_ops 1024) (sy_bans sample_banned) 0x0a000001 = Some \<lparr>end_time = 0\<rparr>"
    by (simp add: spares_def sample_packet_def req_addr_def)
  moreover have "packet_from 0x0a000001 (ctx_of_packet 4096 (sample_frame 6))"
    by (simp add: packet_from_def sample_frame_ctx(2) classify_sample_frame)
  ultimately show ?thesis by blast
qed

text \<open>
  C17. An address that is not in the table is never filtered: while no request names it, every TCP or UDP
  packet from it passes, whatever else is banned, unbanned or dropped meanwhile.
\<close>

theorem unbanned_address_passes:
  assumes "firewall nh bops max_entries valid" and "valid (sy_bans s)"
    and "mo_get bops (sy_bans s) k = None"
    and "run nh bops sops p s ls t" and "\<forall>l \<in> set ls. spares k l"
  shows "mo_get bops (sy_bans t) k = None \<and>
    (\<forall>ctx a. Packet ctx a \<in> set ls \<and> packet_from k ctx \<longrightarrow> a = Ret XDP_PASS)"
  using assms(4,2,5,3) by (rule firewall.run_entry[OF assms(1)]) (rule firewall.absent_entry_passes[OF assms(1)])

theorem unbanned_address_passes_witness:
  "mo_get (alist_ops 1024) (sy_bans sample_banned) 7 = None"
proof (rule conjunct1[OF unbanned_address_passes[OF rfc_firewall.firewall_axioms]])
  show "run rfc_headers (alist_ops 1024) (alist_ops 1024) Release sample_sys
      [Request (ReqBan ''10.0.0.1'' None) RespOk, sample_packet] sample_banned"
    by (intro sample_runs)
qed (simp_all add: sample_sys_def alist_valid_def alist_ops_def spares_def sample_packet_def req_addr_def
    from_str_sample u32_of_sample)

text \<open>
  C16. How long a ban with a TTL lasts. The daemon adds the TTL to the wall clock and the XDP program
  compares the sum with the time since boot. So \<open>d\<close> nanoseconds after the request a packet from the
  address is dropped exactly when \<open>d \<le> boot + ttl * 10 ^ 9\<close>, where \<open>boot\<close> is the wall clock at boot: the
  ban outlives its TTL by the age of the epoch at boot time.
\<close>

theorem ttl_ban_lifetime:
  assumes "firewall nh bops max_entries valid" and "valid bans" and "ipv4_from_str target = Some ip"
    and "mo_get bops bans (u32_of_ipv4 ip) \<noteq> None \<or> card (dom (mo_get bops bans)) < max_entries"
    and "handle_request bops sops p (Some wall) bans stats (ReqBan target (Some ttl)) = Inr (bans', resp)"
    and "unat wall = boot + unat (ktime :: u64)" and "unat wall + unat ttl * 10 ^ 9 < 2 ^ 64" and "0 < unat wall"
    and "unat now = unat ktime + d" and "ctx_wf ctx" and "classify (packet_bytes ctx) = Flow (u32_of_ipv4 ip) port"
  shows "fst (rustguard nh bops sops now ctx bans' stats) = Ret XDP_DROP \<longleftrightarrow> d \<le> boot + unat ttl * 10 ^ 9"
proof -
  have ok: "end_time_nat (get_boot_time_ns (Some wall)) ttl < 2 ^ 64"
    using assms(7) by (simp add: end_time_nat_def get_boot_time_ns_def)
  obtain e where e: "ban_end_time p (get_boot_time_ns (Some wall)) (Some ttl) = Inr e"
    and n: "unat e = unat wall + unat ttl * 10 ^ 9"
    using ban_end_time_ok[OF ok, of p] by (auto simp: end_time_nat_def get_boot_time_ns_def)
  have bt: "ban_table bops max_entries valid" using assms(1) by (simp add: firewall_def)
  have "mo_get bops bans' (u32_of_ipv4 ip) = Some \<lparr>end_time = e\<rparr>"
    using ban_table.ban_stored[OF bt assms(2,3) e assms(4), of sops stats] assms(5) by auto
  moreover have "e \<noteq> 0" using n assms(8) by auto
  moreover have "now \<le> e \<longleftrightarrow> d \<le> boot + unat ttl * 10 ^ 9"
    using n assms(6,9) by (simp add: word_le_nat_alt)
  moreover have "network_headers nh" using assms(1) by (simp add: firewall_def)
  ultimately show ?thesis
    using network_headers.rustguard_action[OF _ assms(10), of nh bops sops now bans' stats] assms(11)
    by (simp add: filter_spec_def ban_active_def)
qed

text \<open>Booted one second after the epoch, banned for a second, still dropped after a second and a half.\<close>

theorem ttl_ban_lifetime_witness:
  "fst (rustguard rfc_headers (alist_ops 8) (alist_ops 8) 1500000010 (ctx_of_packet 4096 (sample_frame 6))
     [(0x0a000001, \<lparr>end_time = 2000000010\<rparr>)] []) = Ret XDP_DROP"
proof -
  have "fst (rustguard rfc_headers (alist_ops 8) (alist_ops 8) 1500000010 (ctx_of_packet 4096 (sample_frame 6))
      [(0x0a000001, \<lparr>end_time = 2000000010\<rparr>)] []) = Ret XDP_DROP \<longleftrightarrow>
    (1500000000 :: nat) \<le> 1000000000 + unat (1 :: u64) * 10 ^ 9"
  proof (rule ttl_ban_lifetime[OF rfc_firewall.firewall_axioms[of 8], where bans = "[]" and wall = 1000000010
        and ktime = 10 and target = "''10.0.0.1''" and ip = "[10, 0, 0, 1]" and p = Release])
    show "handle_request (alist_ops 8) (alist_ops 8) Release (Some 1000000010) [] [] (ReqBan ''10.0.0.1'' (Some 1)) =
        Inr ([(0x0a000001, \<lparr>end_time = 2000000010\<rparr>)], RespOk)"
      by (simp add: handle_request_def handle_ban_def from_str_sample u32_of_sample ban_end_time_def rust_mul_def
          rust_add_def get_boot_time_ns_def insert_ignored_def alist_ops_def)
  qed (simp_all add: alist_valid_def alist_ops_def from_str_sample u32_of_sample sample_frame_ctx
      classify_sample_frame)
  then show ?thesis by simp
qed

end
