(* ===== verification/Firewall_Refinement.thy ===== *)
theory Firewall_Refinement
  imports Firewall_System
begin

text \<open>
  What the firewall promises, as a transition system over a finite map of bans, and two refinement
  steps towards it. The system of \<open>Firewall_System\<close> (maps behind their operations, packets in memory)
  refines it step by step. The node below adds the byte level: a step of the daemon is one turn of the
  accept loop on whatever bytes a client sends, and the task may be waiting or dead while packets keep
  arriving. Every run of a node is explained by a run of the system, and so by one of the specification.
\<close>

section \<open>The specification\<close>

record registry =
  rg_bans :: "u32 \<rightharpoonup> BanValue"
  rg_dropped :: "StatsValue option"
  rg_ktime :: u64
  rg_utc :: "i64 option"

datatype fw_label = Verdict bytes "xdp_action prog" | Answered DaemonRequest DaemonResponse | Elapsed

text \<open>When a ban ends: never (zero), or \<open>ttl\<close> seconds from now; without overflow checks modulo \<open>2 ^ 64\<close>.\<close>

definition ends_at :: "profile \<Rightarrow> i64 option \<Rightarrow> u64 option \<Rightarrow> u64 \<Rightarrow> bool" where
  "ends_at p utc ttl e \<longleftrightarrow>
     (case ttl of
        None \<Rightarrow> e = 0
      | Some t \<Rightarrow>
          let n = (case utc of None \<Rightarrow> 0 | Some now \<Rightarrow> unat now) + unat t * 10 ^ 9
          in (p = Dev \<longrightarrow> n < 2 ^ 64) \<and> unat e = n mod 2 ^ 64)"

inductive fw_step :: "nat \<Rightarrow> profile \<Rightarrow> registry \<Rightarrow> fw_label \<Rightarrow> registry \<Rightarrow> bool" for max_entries p where
  fw_drop:
    "filter_spec (rg_bans r) (rg_ktime r) pkt = XDP_DROP \<Longrightarrow>
     fw_step max_entries p r (Verdict pkt (Ret XDP_DROP))
       (r\<lparr>rg_dropped := map_option (\<lambda>s. s\<lparr>packets_dropped := packets_dropped s + 1\<rparr>) (rg_dropped r)\<rparr>)"
| fw_keep:
    "filter_spec (rg_bans r) (rg_ktime r) pkt = a \<Longrightarrow> a \<noteq> XDP_DROP \<Longrightarrow>
     fw_step max_entries p r (Verdict pkt (Ret a)) r"
| fw_ban:
    "ipv4_from_str target = Some ip \<Longrightarrow> k = u32_of_ipv4 ip \<Longrightarrow> ends_at p (rg_utc r) ttl e \<Longrightarrow>
     k \<in> dom (rg_bans r) \<or> card (dom (rg_bans r)) < max_entries \<Longrightarrow>
     fw_step max_entries p r (Answered (ReqBan target ttl) RespOk) (r\<lparr>rg_bans := (rg_bans r)(k \<mapsto> \<lparr>end_time = e\<rparr>)\<rparr>)"
| fw_ban_full:
    "ipv4_from_str target = Some ip \<Longrightarrow> k = u32_of_ipv4 ip \<Longrightarrow>
     k \<notin> dom (rg_bans r) \<Longrightarrow> card (dom (rg_bans r)) = max_entries \<Longrightarrow>
     fw_step max_entries p r (Answered (ReqBan target ttl) RespOk) r"
| fw_unban:
    "ipv4_from_str target = Some ip \<Longrightarrow>
     fw_step max_entries p r (Answered (ReqUnban target) RespOk) (r\<lparr>rg_bans := (rg_bans r)(u32_of_ipv4 ip := None)\<rparr>)"
| fw_invalid:
    "ipv4_from_str target = None \<Longrightarrow> req = ReqBan target ttl \<or> req = ReqUnban target \<Longrightarrow>
     fw_step max_entries p r (Answered req (RespError ''invalid ip'')) r"
| fw_list:
    "distinct ks \<Longrightarrow> set ks = dom (rg_bans r) \<Longrightarrow>
     fw_step max_entries p r (Answered ReqList (RespList (map (\<lambda>k. ipv4_to_string (ipv4_of_u32 k)) ks))) r"
| fw_stats:
    "msg = (case rg_dropped r of None \<Rightarrow> ''No stats''
            | Some s \<Rightarrow> ''Packets dropped: '' @ dec_string (unat (packets_dropped s))) \<Longrightarrow>
     fw_step max_entries p r (Answered ReqStats (RespStats msg)) r"
| fw_elapse: "rg_ktime r \<le> k \<Longrightarrow> fw_step max_entries p r Elapsed (r\<lparr>rg_ktime := k, rg_utc := u\<rparr>)"

inductive fw_run :: "nat \<Rightarrow> profile \<Rightarrow> registry \<Rightarrow> fw_label list \<Rightarrow> registry \<Rightarrow> bool" for max_entries p where
  fw_nil: "fw_run max_entries p r [] r"
| fw_cons: "fw_step max_entries p r l r' \<Longrightarrow> fw_run max_entries p r' ls r'' \<Longrightarrow> fw_run max_entries p r (l # ls) r''"

text \<open>
  The specification is tight: but for the order of a list and the passing of time, an event determines what
  it does.
\<close>

lemma ends_at_unique: "ends_at p utc ttl e \<Longrightarrow> ends_at p utc ttl e' \<Longrightarrow> e = e'"
  by (cases ttl) (auto simp: ends_at_def Let_def word_unat_eq_iff)

lemma fw_step_deterministic:
  assumes "fw_step max_entries p r l r1" and "fw_step max_entries p r l r2" and "l \<noteq> Elapsed"
  shows "r1 = r2"
  using assms(1)
proof cases
  case (fw_ban target ip k ttl e)
  from assms(2) show ?thesis
    by cases (use fw_ban in \<open>auto dest: ends_at_unique[of p "rg_utc r" ttl e]\<close>)
next
  case (fw_unban target ip)
  from assms(2) show ?thesis by cases (use fw_unban in auto)
qed (use assms(2,3) in \<open>auto elim: fw_step.cases\<close>)

section \<open>The system refines the specification\<close>

definition registry_of :: "('b, BanValue) map_ops \<Rightarrow> ('s, StatsValue) map_ops \<Rightarrow> ('b, 's) sys \<Rightarrow> registry" where
  "registry_of bops sops s =
     \<lparr>rg_bans = mo_get bops (sy_bans s), rg_dropped = mo_get sops (sy_stats s) 0,
      rg_ktime = sy_ktime s, rg_utc = sy_utc s\<rparr>"

fun fw_label_of :: "label \<Rightarrow> fw_label" where
  "fw_label_of (Packet ctx a) = Verdict (packet_bytes ctx) a"
| "fw_label_of (Request req resp) = Answered req resp"
| "fw_label_of Tick = Elapsed"

lemma registry_of_simps [simp]:
  "rg_bans (registry_of bops sops s) = mo_get bops (sy_bans s)"
  "rg_dropped (registry_of bops sops s) = mo_get sops (sy_stats s) 0"
  "rg_ktime (registry_of bops sops s) = sy_ktime s"
  "rg_utc (registry_of bops sops s) = sy_utc s"
  by (simp_all add: registry_of_def)

lemma ends_at_Some:
  "ends_at p utc (Some t) e \<longleftrightarrow>
     (p = Dev \<longrightarrow> end_time_nat (get_boot_time_ns utc) t < 2 ^ 64) \<and>
     unat e = end_time_nat (get_boot_time_ns utc) t mod 2 ^ 64"
  by (cases utc) (simp_all add: ends_at_def end_time_nat_def get_boot_time_ns_def Let_def)

lemma ban_end_time_ends_at:
  assumes "ban_end_time p (get_boot_time_ns utc) ttl = Inr e"
  shows "ends_at p utc ttl e"
proof (cases ttl)
  case (Some t)
  let ?now = "get_boot_time_ns utc"
  show ?thesis
  proof (cases p)
    case Dev
    have lt: "end_time_nat ?now t < 2 ^ 64"
      using ban_end_time_overflow_dev[of ?now t] assms Dev Some by force
    then show ?thesis using ban_end_time_ok[OF lt, of p] assms by (auto simp: Some ends_at_Some)
  next
    case Release
    then show ?thesis
      using assms ban_end_time_release[of ?now t] ban_end_time_release_nat[of ?now t]
      by (auto simp: Some ends_at_Some)
  qed
qed (use assms in \<open>simp add: ends_at_def ban_end_time_def\<close>)

lemma ends_at_ban_end_time:
  assumes "ends_at p utc ttl e"
  shows "ban_end_time p (get_boot_time_ns utc) ttl = Inr e"
proof (cases "ban_end_time p (get_boot_time_ns utc) ttl")
  case (Inl pn)
  obtain t where t: "ttl = Some t" using Inl by (cases ttl) (simp_all add: ban_end_time_def)
  have "p = Dev" using Inl ban_end_time_release[of "get_boot_time_ns utc" t] t by (cases p) simp_all
  then have "end_time_nat (get_boot_time_ns utc) t < 2 ^ 64" using assms t by (simp add: ends_at_Some)
  from ban_end_time_ok[OF this, of p] show ?thesis using Inl t by simp
next
  case (Inr e')
  then show ?thesis using ban_end_time_ends_at[OF Inr] ends_at_unique[OF assms] by simp
qed

locale firewall_maps = firewall nh bops max_entries valid sops p + stats: bpf_hash_map sops smax svalid
  for nh :: net_hdrs and bops :: "('b, BanValue) map_ops" and max_entries :: nat and valid :: "'b \<Rightarrow> bool"
    and sops :: "('s, StatsValue) map_ops" and p :: profile and smax :: nat and svalid :: "'s \<Rightarrow> bool"
begin

lemma count_drop_abs:
  assumes "svalid st"
  shows "svalid (count_drop sops st)"
    and "mo_get sops (count_drop sops st) 0 =
      map_option (\<lambda>s. s\<lparr>packets_dropped := packets_dropped s + 1\<rparr>) (mo_get sops st 0)"
  using assms stats.poke_present[OF assms, of 0] by (simp_all add: count_drop_def split: option.split)

lemma packet_refines:
  assumes "sys_step nh bops sops p s (Packet ctx a) t" and "svalid (sy_stats s)"
  shows "svalid (sy_stats t)"
    and "fw_step max_entries p (registry_of bops sops s) (Verdict (packet_bytes ctx) a) (registry_of bops sops t)"
proof -
  obtain log st where r: "rustguard nh bops sops (sy_ktime s) ctx (sy_bans s) (sy_stats s) = (a, log, st)"
    and t: "t = s\<lparr>sy_stats := st\<rparr>"
    using assms(1) by (auto elim: packet_stepE)
  have a: "a = Ret (filter_spec (mo_get bops (sy_bans s)) (sy_ktime s) (packet_bytes ctx))"
    by (rule step_packet_action[OF assms(1)])
  have st: "st = (if a = Ret XDP_DROP then count_drop sops (sy_stats s) else sy_stats s)"
    by (rule rustguard_stats[OF r])
  then show "svalid (sy_stats t)" using count_drop_abs[OF assms(2)] assms(2) t by simp
  show "fw_step max_entries p (registry_of bops sops s) (Verdict (packet_bytes ctx) a) (registry_of bops sops t)"
  proof (cases "a = Ret XDP_DROP")
    case True
    have "registry_of bops sops t = (registry_of bops sops s)\<lparr>rg_dropped :=
        map_option (\<lambda>s. s\<lparr>packets_dropped := packets_dropped s + 1\<rparr>) (rg_dropped (registry_of bops sops s))\<rparr>"
      using t st True count_drop_abs[OF assms(2)] by (simp add: registry_of_def)
    then show ?thesis
      using a True fw_drop[of "registry_of bops sops s" "packet_bytes ctx" max_entries p] by simp
  next
    case False
    then show ?thesis using a t st by (auto intro!: fw_keep)
  qed
qed

lemma ban_refines:
  assumes "handle_ban bops p (sy_utc s) (sy_bans s) target ttl = Inr (bans', resp)" and "valid (sy_bans s)"
  shows "fw_step max_entries p (registry_of bops sops s) (Answered (ReqBan target ttl) resp)
    (registry_of bops sops (s\<lparr>sy_bans := bans'\<rparr>))"
proof (cases "ipv4_from_str target")
  case None
  then show ?thesis using assms(1) by (auto simp: handle_ban_def intro: fw_invalid)
next
  case (Some ip)
  obtain e where e: "ban_end_time p (get_boot_time_ns (sy_utc s)) ttl = Inr e"
    using assms(1) Some by (auto simp: handle_ban_def res_bind_eq_Inr)
  let ?k = "u32_of_ipv4 ip" and ?r = "registry_of bops sops s"
  obtain b where b: "handle_ban bops p (sy_utc s) (sy_bans s) target ttl = Inr (b, RespOk)"
    "mo_get bops b = (if has_room (sy_bans s) ?k then (mo_get bops (sy_bans s))(?k \<mapsto> \<lparr>end_time = e\<rparr>)
      else mo_get bops (sy_bans s))"
    by (rule ban_ok[OF assms(2) Some e])
  then have eq: "bans' = b" "resp = RespOk" using assms(1) by simp_all
  show ?thesis
  proof (cases "has_room (sy_bans s) ?k")
    case True
    then have "registry_of bops sops (s\<lparr>sy_bans := b\<rparr>) = ?r\<lparr>rg_bans := (rg_bans ?r)(?k \<mapsto> \<lparr>end_time = e\<rparr>)\<rparr>"
      using b(2) by (simp add: registry_of_def)
    then show ?thesis
      using eq True fw_ban[OF Some refl, of p ?r ttl e max_entries] ban_end_time_ends_at[OF e]
      by (auto simp: has_room_def)
  next
    case False
    then have "registry_of bops sops (s\<lparr>sy_bans := b\<rparr>) = ?r" using b(2) by (simp add: registry_of_def)
    moreover have "card (dom (rg_bans ?r)) = max_entries" "?k \<notin> dom (rg_bans ?r)"
      using False at_most_max[OF assms(2)] by (auto simp: has_room_def)
    ultimately show ?thesis using eq fw_ban_full[OF Some refl] by simp
  qed
qed

lemma request_refines:
  assumes "handle_request bops sops p (sy_utc s) (sy_bans s) (sy_stats s) req = Inr (bans', resp)"
    and "valid (sy_bans s)"
  shows "fw_step max_entries p (registry_of bops sops s) (Answered req resp)
    (registry_of bops sops (s\<lparr>sy_bans := bans'\<rparr>))"
proof (cases req)
  case (ReqBan target ttl)
  then show ?thesis using assms ban_refines by (simp add: handle_request_def)
next
  case (ReqUnban target)
  then have h: "handle_unban bops (sy_bans s) target = (bans', resp)"
    using assms(1) by (simp add: handle_request_def)
  show ?thesis
  proof (cases "ipv4_from_str target")
    case None
    then show ?thesis using h ReqUnban by (auto simp: handle_unban_def intro: fw_invalid)
  next
    case (Some ip)
    let ?r = "registry_of bops sops s"
    have "registry_of bops sops (s\<lparr>sy_bans := bans'\<rparr>) = ?r\<lparr>rg_bans := (rg_bans ?r)(u32_of_ipv4 ip := None)\<rparr>"
      using unban_ok(3)[OF assms(2) Some] h by (simp add: registry_of_def)
    then show ?thesis using unban_ok(1)[OF assms(2) Some] h ReqUnban fw_unban[OF Some, of max_entries p ?r] by simp
  qed
next
  case ReqList
  obtain ks where "handle_list bops (sy_bans s) = RespList (map (\<lambda>k. ipv4_to_string (ipv4_of_u32 k)) ks)"
    "distinct ks" "set ks = dom (mo_get bops (sy_bans s))"
    by (rule list_keys[OF assms(2)])
  then show ?thesis
    using assms(1) ReqList fw_list[of ks "registry_of bops sops s" max_entries p] by (auto simp: handle_request_def)
next
  case ReqStats
  then have "bans' = sy_bans s" and "resp = handle_stats sops (sy_stats s)"
    using assms(1) by (auto simp: handle_request_def)
  then show ?thesis
    using ReqStats fw_stats[OF refl, of max_entries p "registry_of bops sops s"]
    by (cases "mo_get sops (sy_stats s) 0") (simp_all add: handle_stats_def)
qed

lemma step_refines:
  assumes "sys_step nh bops sops p s l t" and "valid (sy_bans s)" and "svalid (sy_stats s)"
  shows "fw_step max_entries p (registry_of bops sops s) (fw_label_of l) (registry_of bops sops t) \<and>
    valid (sy_bans t) \<and> svalid (sy_stats t)"
proof -
  have "valid (sy_bans t)" using step_valid[OF assms(1,2)] .
  with assms show ?thesis
  proof cases
    case (packet ctx a log stats')
    then show ?thesis using packet_refines[of s ctx a t] assms \<open>valid (sy_bans t)\<close> by simp
  next
    case (request req bans' resp)
    then show ?thesis using request_refines assms(2,3) \<open>valid (sy_bans t)\<close> by simp
  next
    case (tick k u)
    then show ?thesis
      using assms(3) \<open>valid (sy_bans t)\<close> fw_elapse[of "registry_of bops sops s" k max_entries p u]
      by (simp add: registry_of_def)
  qed
qed

lemma run_refines:
  assumes "run nh bops sops p s ls t" and "valid (sy_bans s)" and "svalid (sy_stats s)"
  shows "fw_run max_entries p (registry_of bops sops s) (map fw_label_of ls) (registry_of bops sops t)"
  using assms
proof (induction rule: run.induct)
  case (run_nil s)
  then show ?case by (simp add: fw_nil)
next
  case (run_cons s l t ls u)
  then show ?case using step_refines[OF run_cons.hyps(1)] by (auto intro: fw_cons)
qed

end

interpretation rfc_maps: firewall_maps rfc_headers "alist_ops n" n "alist_valid n" "alist_ops m" p m "alist_valid m" for n p m
  by unfold_locales

section \<open>The node: bytes on the socket\<close>

record ('b, 's) node =
  nd_sys :: "('b, 's) sys"
  nd_task :: task

datatype node_label =
    Seen xdp_ctx "xdp_action prog"
  | Conn "conn option" "bytes list" \<comment> \<open>what \<open>accept\<close> returned, and what the client received\<close>
  | Clock

inductive node_step ::
  "wire \<Rightarrow> net_hdrs \<Rightarrow> ('b, BanValue) map_ops \<Rightarrow> ('s, StatsValue) map_ops \<Rightarrow> profile \<Rightarrow>
     ('b, 's) node \<Rightarrow> node_label \<Rightarrow> ('b, 's) node \<Rightarrow> bool"
  for w nh bops sops p where
  seen:
    "sys_step nh bops sops p (nd_sys n) (Packet ctx a) s' \<Longrightarrow>
     node_step w nh bops sops p n (Seen ctx a) (n\<lparr>nd_sys := s'\<rparr>)"
| clock:
    "sys_step nh bops sops p (nd_sys n) Tick s' \<Longrightarrow> node_step w nh bops sops p n Clock (n\<lparr>nd_sys := s'\<rparr>)"
| conn:
    "nd_task n = Listening \<Longrightarrow>
     accept_loop w bops sops p [\<lparr>t_utc = sy_utc (nd_sys n), t_stats = sy_stats (nd_sys n), t_conn = c\<rparr>]
       (sy_bans (nd_sys n)) = (bans', outs, task') \<Longrightarrow>
     node_step w nh bops sops p n (Conn c outs) \<lparr>nd_sys = (nd_sys n)\<lparr>sy_bans := bans'\<rparr>, nd_task = task'\<rparr>"

inductive node_run ::
  "wire \<Rightarrow> net_hdrs \<Rightarrow> ('b, BanValue) map_ops \<Rightarrow> ('s, StatsValue) map_ops \<Rightarrow> profile \<Rightarrow>
     ('b, 's) node \<Rightarrow> node_label list \<Rightarrow> ('b, 's) node \<Rightarrow> bool"
  for w nh bops sops p where
  node_nil: "node_run w nh bops sops p n [] n"
| node_cons:
    "node_step w nh bops sops p n l n' \<Longrightarrow> node_run w nh bops sops p n' ls n'' \<Longrightarrow>
     node_run w nh bops sops p n (l # ls) n''"

inductive_cases conn_stepE: "node_step w nh bops sops p n (Conn c outs) n'"
inductive_cases node_consE: "node_run w nh bops sops p n (l # ls) n'"

lemma conn_step_served:
  assumes "node_step w nh bops sops p n (Conn (Some c) outs) n'"
    and "serve_conn w bops sops p (sy_utc (nd_sys n)) c (sy_bans (nd_sys n)) (sy_stats (nd_sys n)) = Served bans' out"
  shows "outs = [out] \<and> nd_sys n' = (nd_sys n)\<lparr>sy_bans := bans'\<rparr>"
  using assms(1) by cases (use assms(2) in simp)

text \<open>The request in what a client sends, if it sends a whole one.\<close>

definition request_in :: "wire \<Rightarrow> conn \<Rightarrow> DaemonRequest option" where
  "request_in w c =
     (case read_u32 w (c_stream c) of
        Got (len, st) \<Rightarrow>
          (case read_exact (unat len) st of
             Got (buf, st') \<Rightarrow> (case req_from_slice w buf of Inr req \<Rightarrow> Some req | Inl e \<Rightarrow> None)
           | _ \<Rightarrow> None)
      | _ \<Rightarrow> None)"

text \<open>
  How the events of a node are explained by those of the system: a packet and the clock by
  themselves, a connection by the request in it together with the response in the reply; a connection
  without a request, or whose request panics, by nothing at all.
\<close>

inductive explains :: "wire \<Rightarrow> node_label list \<Rightarrow> label list \<Rightarrow> bool" for w where
  ex_nil: "explains w [] []"
| ex_seen: "explains w ls as \<Longrightarrow> explains w (Seen ctx a # ls) (Packet ctx a # as)"
| ex_clock: "explains w ls as \<Longrightarrow> explains w (Clock # ls) (Tick # as)"
| ex_answered:
    "explains w ls as \<Longrightarrow> request_in w c = Some req \<Longrightarrow> resp_to_vec w resp = Inr pb \<Longrightarrow>
     explains w (Conn (Some c) [write_frame w (c_writes c) pb] # ls) (Request req resp # as)"
| ex_rejected:
    "explains w ls as \<Longrightarrow> request_in w c = None \<Longrightarrow> resp_to_vec w (RespError ''invalid request'') = Inr pb \<Longrightarrow>
     explains w (Conn (Some c) [write_frame w (c_writes c) pb] # ls) as"
| ex_unread: "explains w ls as \<Longrightarrow> request_in w c = None \<Longrightarrow> explains w (Conn (Some c) [[]] # ls) as"
| ex_silent: "explains w ls as \<Longrightarrow> explains w (Conn c [] # ls) as"

lemma explains_packets:
  "explains w ls as \<Longrightarrow> Packet ctx a \<in> set as \<longleftrightarrow> Seen ctx a \<in> set ls"
  by (induction rule: explains.induct) auto

lemma explains_requests:
  "explains w ls as \<Longrightarrow> Request req resp \<in> set as \<Longrightarrow>
     \<exists>c outs. Conn (Some c) outs \<in> set ls \<and> request_in w c = Some req"
  by (induction rule: explains.induct) auto

context wire_format
begin

text \<open>The ways a connection can go.\<close>

lemma serve_conn_cases:
  obtains (stalled) "serve_conn w bops sops p utc c bans stats = Stalled"
  | (unread) "serve_conn w bops sops p utc c bans stats = Served bans []" and "request_in w c = None"
  | (rejected) pb where "serve_conn w bops sops p utc c bans stats = Served bans (write_frame w (c_writes c) pb)"
      and "request_in w c = None" and "resp_to_vec w (RespError ''invalid request'') = Inr pb"
  | (panicked) pn where "serve_conn w bops sops p utc c bans stats = Crashed pn bans"
  | (answered) req bans' resp pb where
      "serve_conn w bops sops p utc c bans stats = Served bans' (write_frame w (c_writes c) pb)"
      and "request_in w c = Some req" and "resp_to_vec w resp = Inr pb"
      and "handle_request bops sops p utc bans stats req = Inr (bans', resp)"
proof (cases "read_u32 w (c_stream c)")
  case (Got x)
  then obtain len st where len: "read_u32 w (c_stream c) = Got (len, st)" by (cases x) simp
  show ?thesis
  proof (cases "read_exact (unat len) st")
    case (Got y)
    then obtain buf st' where buf: "read_exact (unat len) st = Got (buf, st')" by (cases y) simp
    note now = len buf serve_conn_def request_in_def answer_def
    show ?thesis
    proof (cases "req_from_slice w buf")
      case (Inl e)
      moreover obtain pb where "resp_to_vec w (RespError ''invalid request'') = Inr pb" using resp_total by blast
      ultimately show ?thesis using rejected[of pb] by (simp add: now)
    next
      case (Inr req)
      show ?thesis
      proof (cases "handle_request bops sops p utc bans stats req")
        case (Inl pn)
        then show ?thesis using Inr panicked by (simp add: now)
      next
        case (Inr r)
        then obtain bans' resp where r: "handle_request bops sops p utc bans stats req = Inr (bans', resp)"
          by (cases r) simp
        obtain pb where "resp_to_vec w resp = Inr pb" using resp_total by blast
        then show ?thesis using r \<open>req_from_slice w buf = Inr req\<close> answered[of bans' pb req resp] by (simp add: now)
      qed
    qed
  qed (use len stalled unread in \<open>simp_all add: serve_conn_def request_in_def\<close>)
qed (use stalled unread in \<open>simp_all add: serve_conn_def request_in_def\<close>)

lemma turn_explained:
  assumes "accept_loop w bops sops p [\<lparr>t_utc = sy_utc s, t_stats = sy_stats s, t_conn = c\<rparr>] (sy_bans s) =
      (bans', outs, task')"
    and "run nh bops sops p (s\<lparr>sy_bans := bans'\<rparr>) as t" and "explains w ls as"
  shows "\<exists>as'. run nh bops sops p s as' t \<and> explains w (Conn c outs # ls) as'"
proof (cases c)
  case None
  then have "bans' = sy_bans s" "outs = []" using assms(1) by simp_all
  then show ?thesis using assms(2,3) ex_silent by auto
next
  case (Some d)
  show ?thesis
  proof (cases rule: serve_conn_cases[of bops sops p "sy_utc s" d "sy_bans s" "sy_stats s"])
    case (answered req bans'' resp pb)
    then have "bans' = bans''" "outs = [write_frame w (c_writes d) pb]" using assms(1) Some by simp_all
    then show ?thesis
      using assms(2) run_cons[OF sys_step.request[OF answered(4)]] ex_answered[OF assms(3) answered(2,3)] Some by blast
  qed (use assms Some ex_silent[OF assms(3)] ex_unread[OF assms(3)] ex_rejected[OF assms(3)] in auto)
qed

lemma node_run_explained:
  "node_run w nh bops sops p n ls n' \<Longrightarrow>
     \<exists>as. run nh bops sops p (nd_sys n) as (nd_sys n') \<and> explains w ls as"
proof (induction rule: node_run.induct)
  case (node_nil n)
  then show ?case using run_nil ex_nil by blast
next
  case (node_cons n l n' ls n'')
  then obtain as where as: "run nh bops sops p (nd_sys n') as (nd_sys n'')" "explains w ls as" by blast
  from node_cons.hyps(1) show ?case
  proof cases
    case (seen ctx a s')
    then show ?thesis using as run_cons ex_seen by fastforce
  next
    case (clock s')
    then show ?thesis using as run_cons ex_clock by fastforce
  next
    case (conn c bans' outs task')
    then show ?thesis using as turn_explained by auto
  qed
qed

end

section \<open>Properties\<close>

text \<open>
  C1. Refinement of the firewall's specification by the running node: take any run of a node, that is, any
  interleaving of packets, clock ticks and connections, in which clients send arbitrary bytes, stall, or
  are cut off, and the accept task may stall or die. Then a run of the specification, from the contents of the
  maps before to their contents after, explains it: it has the same packets with the same verdicts in the
  same order, and its requests are those that clients sent, answered by the responses the clients got.
\<close>

theorem node_refines_firewall_spec:
  assumes "wire_format w" and "firewall_maps nh bops max_entries valid sops smax svalid"
    and "valid (sy_bans (nd_sys n))" and "svalid (sy_stats (nd_sys n))" and "node_run w nh bops sops p n ls n'"
  shows "\<exists>as. explains w ls as \<and>
    fw_run max_entries p (registry_of bops sops (nd_sys n)) (map fw_label_of as) (registry_of bops sops (nd_sys n'))"
  using wire_format.node_run_explained[OF assms(1,5)] firewall_maps.run_refines[OF assms(2) _ assms(3,4)] by blast

text \<open>A client that bans 10.0.0.1 and closes, then a packet from that address.\<close>

definition sample_client :: conn where
  "sample_client =
     \<lparr>c_stream = \<lparr>st_in = frame json_wire (json_req (ReqBan ''10.0.0.1'' None)), st_eof = True\<rparr>, c_writes = 2\<rparr>"

definition sample_events :: "node_label list" where
  "sample_events =
     [Conn (Some sample_client) [frame json_wire (json_resp RespOk)],
      Seen (ctx_of_packet 4096 (sample_frame 6)) (Ret XDP_DROP)]"

lemma sample_client_served:
  "serve_conn json_wire (alist_ops 1024) (alist_ops 1024) Release (sy_utc sample_sys) sample_client (sy_bans sample_sys)
     (sy_stats sample_sys) = Served (sy_bans sample_banned) (frame json_wire (json_resp RespOk))"
  using json.server_answers[OF _ _ sample_ban_handled, of "json_req (ReqBan ''10.0.0.1'' None)" "json_resp RespOk" "[]" True]
  by (simp add: sample_client_def json_wire_def json_lengths)

lemma sample_node_run:
  "node_run json_wire rfc_headers (alist_ops 1024) (alist_ops 1024) Release
     \<lparr>nd_sys = sample_sys, nd_task = Listening\<rparr> sample_events \<lparr>nd_sys = sample_banned, nd_task = Listening\<rparr>"
proof -
  let ?step = "node_step json_wire rfc_headers (alist_ops 1024) (alist_ops 1024) Release"
  let ?banned = "\<lparr>nd_sys = sample_banned, nd_task = Listening\<rparr>"
  have "?step \<lparr>nd_sys = sample_sys, nd_task = Listening\<rparr> (Conn (Some sample_client) [frame json_wire (json_resp RespOk)]) ?banned"
    using conn[of "\<lparr>nd_sys = sample_sys, nd_task = Listening\<rparr>" json_wire "alist_ops 1024" "alist_ops 1024" Release
        "Some sample_client"] sample_client_served
    by (simp add: sample_banned_def)
  moreover have "?step ?banned (Seen (ctx_of_packet 4096 (sample_frame 6)) (Ret XDP_DROP)) ?banned"
    using seen[of rfc_headers "alist_ops 1024" "alist_ops 1024" Release ?banned] sample_packet_step
    by (fastforce simp: sample_packet_def)
  ultimately show ?thesis unfolding sample_events_def by (blast intro: node_nil node_cons)
qed

theorem node_refines_firewall_spec_witness:
  "\<exists>as. explains json_wire sample_events as \<and>
     fw_run 1024 Release (registry_of (alist_ops 1024) (alist_ops 1024) sample_sys) (map fw_label_of as)
       (registry_of (alist_ops 1024) (alist_ops 1024) sample_banned)"
  using node_refines_firewall_spec[OF json.wire_format_axioms rfc_maps.firewall_maps_axioms _ _ sample_node_run]
  by (simp add: sample_sys_def alist_valid_def)

text \<open>No connection of the run carries a request about the address.\<close>

definition node_spares :: "wire \<Rightarrow> u32 \<Rightarrow> node_label \<Rightarrow> bool" where
  "node_spares w k l \<longleftrightarrow>
     (case l of
        Conn (Some c) _ \<Rightarrow> (case request_in w c of Some req \<Rightarrow> req_addr req \<noteq> Some k | None \<Rightarrow> True)
      | _ \<Rightarrow> True)"

lemma explains_spares:
  "explains w ls as \<Longrightarrow> \<forall>l \<in> set ls. node_spares w k l \<Longrightarrow> \<forall>l \<in> set as. spares k l"
  by (induction rule: explains.induct) (auto simp: node_spares_def spares_def)

text \<open>
  C4. The whole of a ban: when the user gives the command \<open>ban\<close>, with a time to live or without, for an address and the
  daemon, listening, serves that connection with room in the table, the client prints \<open>Success\<close>; and from then on,
  whatever bytes other clients send and even if the daemon stalls or dies, every TCP or UDP packet from the address is
  dropped for as long as no request names it and the kernel's clock has not passed the end of the ban (\<open>ends_at\<close>).
  Without a time to live the ban has no end.
\<close>

theorem ban_command_blocks_address:
  assumes "wire_format w" and "firewall nh bops max_entries valid" and "valid (sy_bans s)"
    and "ipv4_from_str target = Some ip"
    and "mo_get bops (sy_bans s) (u32_of_ipv4 ip) \<noteq> None \<or> card (dom (mo_get bops (sy_bans s))) < max_entries"
    and "ends_at p (sy_utc s) ttl e" and "req_to_vec w (ReqBan target ttl) = Inr rb" and "length rb < 2 ^ 32"
    and "resp_to_vec w RespOk = Inr pb" and "length pb < 2 ^ 32"
    and "sent = fst (send_command w \<lparr>ci_connected = True, ci_writes = 3, ci_reply = any\<rparr> (CmdBan target ttl))"
    and "node_run w nh bops sops p \<lparr>nd_sys = s, nd_task = Listening\<rparr>
      (Conn (Some \<lparr>c_stream = \<lparr>st_in = sent, st_eof = c\<rparr>, c_writes = 2\<rparr>) outs # ls) n"
    and "\<forall>l \<in> set ls. node_spares w (u32_of_ipv4 ip) l" and "e = 0 \<or> sy_ktime (nd_sys n) \<le> e"
  shows "(\<exists>reply. outs = [reply] \<and>
      snd (send_command w \<lparr>ci_connected = True, ci_writes = 3, ci_reply = \<lparr>st_in = reply, st_eof = d\<rparr>\<rparr> (CmdBan target ttl)) =
        Prints [''Success'']) \<and>
    (\<forall>ctx a. Seen ctx a \<in> set ls \<and> packet_from (u32_of_ipv4 ip) ctx \<longrightarrow> a = Ret XDP_DROP)"
proof -
  have bt: "ban_table bops max_entries valid" using assms(2) by (simp add: firewall_def)
  let ?k = "u32_of_ipv4 ip"
  have e: "ban_end_time p (get_boot_time_ns (sy_utc s)) ttl = Inr e" using assms(6) by (rule ends_at_ban_end_time)
  obtain b where h: "handle_request bops sops p (sy_utc s) (sy_bans s) (sy_stats s) (ReqBan target ttl) = Inr (b, RespOk)"
    and b: "valid b" "mo_get bops b ?k = Some \<lparr>end_time = e\<rparr>"
    using ban_table.ban_stored[OF bt assms(3,4) e assms(5), of sops "sy_stats s"] by fastforce
  have sent: "sent = frame w rb"
    using wire_format.client_sends[OF assms(1) _ assms(7)] assms(11) by (simp add: request_of_def)
  obtain n1 where step: "node_step w nh bops sops p \<lparr>nd_sys = s, nd_task = Listening\<rparr>
      (Conn (Some \<lparr>c_stream = \<lparr>st_in = frame w rb, st_eof = c\<rparr>, c_writes = 2\<rparr>) outs) n1"
    and rest: "node_run w nh bops sops p n1 ls n"
    using assms(12) unfolding sent by (rule node_consE)
  have "serve_conn w bops sops p (sy_utc s) \<lparr>c_stream = \<lparr>st_in = frame w rb, st_eof = c\<rparr>, c_writes = 2\<rparr> (sy_bans s)
      (sy_stats s) = Served b (frame w pb)"
    using wire_format.server_answers[OF assms(1,7,8) h assms(9), of "[]" c] by simp
  with conn_step_served[OF step] have outs: "outs = [frame w pb]" and n1: "nd_sys n1 = s\<lparr>sy_bans := b\<rparr>" by simp_all
  obtain as where as: "run nh bops sops p (nd_sys n1) as (nd_sys n)" "explains w ls as"
    using wire_format.node_run_explained[OF assms(1) rest] by blast
  have "\<forall>ctx a. Packet ctx a \<in> set as \<and> packet_from ?k ctx \<longrightarrow> a = Ret XDP_DROP"
    using firewall.run_entry_until[OF assms(2) as(1) _ explains_spares[OF as(2) assms(13)] _ order_refl
        firewall.active_entry_drops[OF assms(2,14)]] b n1 by simp
  moreover have "snd (send_command w \<lparr>ci_connected = True, ci_writes = 3, ci_reply = \<lparr>st_in = frame w pb, st_eof = d\<rparr>\<rparr>
      (CmdBan target ttl)) = Prints [''Success'']"
    using wire_format.client_prints[OF assms(1,9,10)] assms(7)
    by (simp add: send_command_def request_of_def print_response_def)
  ultimately show ?thesis using outs explains_packets[OF as(2)] by simp
qed

theorem ban_command_blocks_address_witness:
  "snd (send_command json_wire \<lparr>ci_connected = True, ci_writes = 3,
       ci_reply = \<lparr>st_in = frame json_wire (json_resp RespOk), st_eof = True\<rparr>\<rparr> (CmdBan ''10.0.0.1'' None)) =
     Prints [''Success''] \<and>
   packet_from 0x0a000001 (ctx_of_packet 4096 (sample_frame 6)) \<and>
   tl sample_events = [Seen (ctx_of_packet 4096 (sample_frame 6)) (Ret XDP_DROP)]"
proof -
  let ?any = "\<lparr>st_in = [], st_eof = True\<rparr>"
  have req: "req_to_vec json_wire (ReqBan ''10.0.0.1'' None) = Inr (json_req (ReqBan ''10.0.0.1'' None))"
    and resp: "resp_to_vec json_wire RespOk = Inr (json_resp RespOk)"
    by (simp_all add: json_wire_def)
  have "fst (send_command json_wire \<lparr>ci_connected = True, ci_writes = 3, ci_reply = ?any\<rparr> (CmdBan ''10.0.0.1'' None)) =
      frame json_wire (json_req (ReqBan ''10.0.0.1'' None))"
    using json.client_sends[OF _ req] by (simp add: request_of_def)
  moreover have "node_run json_wire rfc_headers (alist_ops 1024) (alist_ops 1024) Release
     \<lparr>nd_sys = sample_sys, nd_task = Listening\<rparr> (Conn (Some sample_client) [frame json_wire (json_resp RespOk)] # tl sample_events)
     \<lparr>nd_sys = sample_banned, nd_task = Listening\<rparr>"
    using sample_node_run by (simp add: sample_events_def)
  moreover have "\<forall>l \<in> set (tl sample_events). node_spares json_wire (u32_of_ipv4 [10, 0, 0, 1]) l"
    by (simp add: sample_events_def node_spares_def)
  moreover have "length (json_req (ReqBan ''10.0.0.1'' None)) < 2 ^ 32" "length (json_resp RespOk) < 2 ^ 32"
    by (simp_all add: json_lengths)
  moreover have "alist_valid 1024 (sy_bans sample_sys)" "card (dom (mo_get (alist_ops 1024) (sy_bans sample_sys))) < 1024"
    by (simp_all add: sample_sys_def alist_valid_def alist_ops_def)
  moreover have "packet_from 0x0a000001 (ctx_of_packet 4096 (sample_frame 6))"
    by (simp add: packet_from_def sample_frame_ctx(2) classify_sample_frame)
  moreover have "ends_at Release (sy_utc sample_sys) None 0" by (simp add: ends_at_def)
  ultimately show ?thesis
    using ban_command_blocks_address[OF json.wire_format_axioms rfc_firewall.firewall_axioms[of 1024] _ from_str_sample _ _ req _ resp,
        of sample_sys Release 0 "frame json_wire (json_req (ReqBan ''10.0.0.1'' None))" ?any "alist_ops 1024" True
        "[frame json_wire (json_resp RespOk)]" "tl sample_events" "\<lparr>nd_sys = sample_banned, nd_task = Listening\<rparr>" True]
    by (simp add: u32_of_sample sample_client_def sample_events_def)
qed

end
