(* ===== verification/Daemon_Steps.thy ===== *)
theory Daemon_Steps
  imports Firewall_Refinement
begin

text \<open>
  The accept task one await at a time. Between any two of its awaits packets arrive and time passes, and the
  client may send more bytes or close; the task is in the phase that the code of \<open>run_daemon\<close> has reached. The
  handling of a request (from parsing to the serialised response) has no await and is one step; its only
  write to shared state is a single map operation.

  Every run refines the specification of the firewall, and a connection ends as \<open>serve_conn\<close> says, whatever
  was interleaved with it.
\<close>

section \<open>Phases\<close>

datatype phase =
    Accepting \<comment> \<open>\<open>listener.accept().await\<close>\<close>
  | ReadingLen \<comment> \<open>\<open>stream.read_u32().await\<close>\<close>
  | ReadingBody u32 \<comment> \<open>\<open>stream.read_exact(&mut buf).await\<close>\<close>
  | Handling bytes
  | WritingLen bytes \<comment> \<open>\<open>stream.write_u32(..).await\<close>\<close>
  | WritingBody bytes \<comment> \<open>\<open>stream.write_all(&resp_bytes).await\<close>\<close>
  | Flushing bytes \<comment> \<open>\<open>stream.flush().await\<close>\<close>
  | Died panic

record ('b, 's) live =
  lv_sys :: "('b, 's) sys"
  lv_phase :: phase
  lv_stream :: stream \<comment> \<open>of the connection being served\<close>
  lv_sent :: bytes \<comment> \<open>what the client of that connection has received\<close>

datatype live_label =
    LPacket xdp_ctx "xdp_action prog"
  | LTick
  | LArrive bytes
  | LClose
  | LAccept
  | LAcceptError
  | LReadLen
  | LReadBody
  | LReadError
  | LHandle "i64 option" "(DaemonRequest \<times> DaemonResponse) option" \<comment> \<open>the clock, and the request if there was one\<close>
  | LPanic
  | LWrite
  | LWriteError
  | LFlush \<comment> \<open>whether it succeeds or not\<close>

definition in_connection :: "phase \<Rightarrow> bool" where
  "in_connection ph \<longleftrightarrow> (case ph of Accepting \<Rightarrow> False | Died _ \<Rightarrow> False | _ \<Rightarrow> True)"

inductive live_step ::
  "wire \<Rightarrow> net_hdrs \<Rightarrow> ('b, BanValue) map_ops \<Rightarrow> ('s, StatsValue) map_ops \<Rightarrow> profile \<Rightarrow>
     ('b, 's) live \<Rightarrow> live_label \<Rightarrow> ('b, 's) live \<Rightarrow> bool"
  for w nh bops sops p where
  l_packet:
    "sys_step nh bops sops p (lv_sys s) (Packet ctx a) s' \<Longrightarrow>
     live_step w nh bops sops p s (LPacket ctx a) (s\<lparr>lv_sys := s'\<rparr>)"
| l_tick:
    "sys_step nh bops sops p (lv_sys s) Tick s' \<Longrightarrow> live_step w nh bops sops p s LTick (s\<lparr>lv_sys := s'\<rparr>)"
| l_arrive:
    "in_connection (lv_phase s) \<Longrightarrow> \<not> st_eof (lv_stream s) \<Longrightarrow>
     live_step w nh bops sops p s (LArrive bs) (s\<lparr>lv_stream := (lv_stream s)\<lparr>st_in := st_in (lv_stream s) @ bs\<rparr>\<rparr>)"
| l_close:
    "in_connection (lv_phase s) \<Longrightarrow>
     live_step w nh bops sops p s LClose (s\<lparr>lv_stream := (lv_stream s)\<lparr>st_eof := True\<rparr>\<rparr>)"
| l_accept_error:
    "lv_phase s = Accepting \<Longrightarrow> live_step w nh bops sops p s LAcceptError s"
| l_accept:
    "lv_phase s = Accepting \<Longrightarrow>
     live_step w nh bops sops p s LAccept
       (s\<lparr>lv_phase := ReadingLen, lv_stream := \<lparr>st_in = [], st_eof = False\<rparr>, lv_sent := []\<rparr>)"
| l_read_len:
    "lv_phase s = ReadingLen \<Longrightarrow> read_u32 w (lv_stream s) = Got (len, st) \<Longrightarrow>
     live_step w nh bops sops p s LReadLen (s\<lparr>lv_phase := ReadingBody len, lv_stream := st\<rparr>)"
| l_read_len_error:
    "lv_phase s = ReadingLen \<Longrightarrow> read_u32 w (lv_stream s) = IoErr \<Longrightarrow>
     live_step w nh bops sops p s LReadError (s\<lparr>lv_phase := Accepting\<rparr>)"
| l_read_body:
    "lv_phase s = ReadingBody len \<Longrightarrow> read_exact (unat len) (lv_stream s) = Got (buf, st) \<Longrightarrow>
     live_step w nh bops sops p s LReadBody (s\<lparr>lv_phase := Handling buf, lv_stream := st\<rparr>)"
| l_read_body_error:
    "lv_phase s = ReadingBody len \<Longrightarrow> read_exact (unat len) (lv_stream s) = IoErr \<Longrightarrow>
     live_step w nh bops sops p s LReadError (s\<lparr>lv_phase := Accepting\<rparr>)"
| l_handle:
    "lv_phase s = Handling buf \<Longrightarrow>
     answer w bops sops p (sy_utc (lv_sys s)) (sy_bans (lv_sys s)) (sy_stats (lv_sys s)) buf = Inr (bans', resp) \<Longrightarrow>
     resp_to_vec w resp = Inr resp_bytes \<Longrightarrow>
     live_step w nh bops sops p s
       (LHandle (sy_utc (lv_sys s)) (case req_from_slice w buf of Inl _ \<Rightarrow> None | Inr req \<Rightarrow> Some (req, resp)))
       (s\<lparr>lv_phase := WritingLen resp_bytes, lv_sys := (lv_sys s)\<lparr>sy_bans := bans'\<rparr>\<rparr>)"
| l_unwrap:
    "lv_phase s = Handling buf \<Longrightarrow>
     answer w bops sops p (sy_utc (lv_sys s)) (sy_bans (lv_sys s)) (sy_stats (lv_sys s)) buf = Inr (bans', resp) \<Longrightarrow>
     resp_to_vec w resp = Inl e \<Longrightarrow>
     live_step w nh bops sops p s
       (LHandle (sy_utc (lv_sys s)) (case req_from_slice w buf of Inl _ \<Rightarrow> None | Inr req \<Rightarrow> Some (req, resp)))
       (s\<lparr>lv_phase := Died UnwrapFailed, lv_sys := (lv_sys s)\<lparr>sy_bans := bans'\<rparr>\<rparr>)"
| l_panic:
    "lv_phase s = Handling buf \<Longrightarrow>
     answer w bops sops p (sy_utc (lv_sys s)) (sy_bans (lv_sys s)) (sy_stats (lv_sys s)) buf = Inl pn \<Longrightarrow>
     live_step w nh bops sops p s LPanic (s\<lparr>lv_phase := Died pn\<rparr>)"
| l_write_len:
    "lv_phase s = WritingLen bs \<Longrightarrow>
     live_step w nh bops sops p s LWrite
       (s\<lparr>lv_phase := WritingBody bs, lv_sent := lv_sent s @ put_u32 w (word_of_nat (length bs))\<rparr>)"
| l_write_body:
    "lv_phase s = WritingBody bs \<Longrightarrow>
     live_step w nh bops sops p s LWrite (s\<lparr>lv_phase := Flushing bs, lv_sent := lv_sent s @ bs\<rparr>)"
| l_flush:
    "lv_phase s = Flushing bs \<Longrightarrow> live_step w nh bops sops p s LFlush (s\<lparr>lv_phase := Accepting\<rparr>)"
| l_write_error:
    "lv_phase s = WritingLen bs \<or> lv_phase s = WritingBody bs \<Longrightarrow>
     live_step w nh bops sops p s LWriteError (s\<lparr>lv_phase := Accepting\<rparr>)"

inductive live_run ::
  "wire \<Rightarrow> net_hdrs \<Rightarrow> ('b, BanValue) map_ops \<Rightarrow> ('s, StatsValue) map_ops \<Rightarrow> profile \<Rightarrow>
     ('b, 's) live \<Rightarrow> live_label list \<Rightarrow> ('b, 's) live \<Rightarrow> bool"
  for w nh bops sops p where
  live_nil: "live_run w nh bops sops p s [] s"
| live_cons:
    "live_step w nh bops sops p s l t \<Longrightarrow> live_run w nh bops sops p t ls u \<Longrightarrow> live_run w nh bops sops p s (l # ls) u"

section \<open>Refinement\<close>

fun sys_labels :: "live_label \<Rightarrow> label list" where
  "sys_labels (LPacket ctx a) = [Packet ctx a]"
| "sys_labels LTick = [Tick]"
| "sys_labels (LHandle _ (Some (req, resp))) = [Request req resp]"
| "sys_labels _ = []"

lemma run_append: "run nh bops sops p s ls t \<Longrightarrow> run nh bops sops p t ls' u \<Longrightarrow> run nh bops sops p s (ls @ ls') u"
  by (induction rule: run.induct) (auto intro: run_cons)

lemma run_single: "sys_step nh bops sops p s l t \<Longrightarrow> run nh bops sops p s [l] t"
  by (blast intro: run_cons run_nil)

lemma live_step_sys:
  assumes "live_step w nh bops sops p s l t"
  shows "run nh bops sops p (lv_sys s) (sys_labels l) (lv_sys t)"
  using assms
proof cases
  case (l_handle buf bans' resp resp_bytes)
  then show ?thesis
    using run_nil[of nh bops sops p "lv_sys s"] run_single[OF sys_step.request]
    by (cases "req_from_slice w buf") (auto simp: answer_def)
next
  case (l_unwrap buf bans' resp e)
  then show ?thesis
    using run_nil[of nh bops sops p "lv_sys s"] run_single[OF sys_step.request]
    by (cases "req_from_slice w buf") (auto simp: answer_def)
qed (auto intro: run_nil run_single)

lemma live_run_sys:
  "live_run w nh bops sops p s ls t \<Longrightarrow> run nh bops sops p (lv_sys s) (concat (map sys_labels ls)) (lv_sys t)"
  by (induction rule: live_run.induct) (auto intro: run_nil run_append live_step_sys)

section \<open>One connection\<close>

text \<open>What the labels of a connection say of its client: the bytes it sent, whether it closed, the writes that reached it.\<close>

definition arrived :: "live_label list \<Rightarrow> bytes" where
  "arrived ls = concat (map (\<lambda>l. case l of LArrive bs \<Rightarrow> bs | _ \<Rightarrow> []) ls)"

definition conn_of :: "live_label list \<Rightarrow> conn" where
  "conn_of ls = \<lparr>c_stream = \<lparr>st_in = arrived ls, st_eof = LClose \<in> set ls\<rparr>, c_writes = count_list ls LWrite\<rparr>"

definition handled_at :: "live_label list \<Rightarrow> i64 option set" where
  "handled_at ls = {utc. \<exists>r. LHandle utc r \<in> set ls}"

text \<open>The effect of a label on a stream. A read that has succeeded succeeds all the same later.\<close>

fun feed :: "live_label \<Rightarrow> stream \<Rightarrow> stream" where
  "feed (LArrive bs) st = st\<lparr>st_in := st_in st @ bs\<rparr>"
| "feed LClose st = st\<lparr>st_eof := True\<rparr>"
| "feed _ st = st"

lemma read_exact_feed: "read_exact n st = Got (x, st') \<Longrightarrow> read_exact n (feed l st) = Got (x, feed l st')"
  by (cases l) (auto simp: read_exact_def split: if_splits)

lemma read_u32_feed: "read_u32 w st = Got (x, st') \<Longrightarrow> read_u32 w (feed l st) = Got (x, feed l st')"
  using read_exact_feed[of 4 st] by (fastforce simp: read_u32_def split: io.splits)

definition body_read :: "wire \<Rightarrow> stream \<Rightarrow> bytes \<Rightarrow> stream \<Rightarrow> bool" where
  "body_read w whole buf st \<longleftrightarrow>
     (\<exists>len st1. read_u32 w whole = Got (len, st1) \<and> read_exact (unat len) st1 = Got (buf, st))"

lemma body_read_feed: "body_read w whole buf st \<Longrightarrow> body_read w (feed l whole) buf (feed l st)"
  using read_u32_feed read_exact_feed by (fastforce simp: body_read_def)

text \<open>
  Where a connection stands, given its whole stream so far, the writes done and the clock its request
  was handled at.
\<close>

inductive conn_inv ::
  "wire \<Rightarrow> ('b, BanValue) map_ops \<Rightarrow> ('s, StatsValue) map_ops \<Rightarrow> profile \<Rightarrow> 'b \<Rightarrow>
     stream \<Rightarrow> nat \<Rightarrow> i64 option set \<Rightarrow> ('b, 's) live \<Rightarrow> bool"
  for w bops sops p bans where
  ci_len:
    "lv_phase s = ReadingLen \<Longrightarrow> sy_bans (lv_sys s) = bans \<Longrightarrow> lv_sent s = [] \<Longrightarrow> lv_stream s = whole \<Longrightarrow>
     conn_inv w bops sops p bans whole 0 {} s"
| ci_body:
    "lv_phase s = ReadingBody len \<Longrightarrow> sy_bans (lv_sys s) = bans \<Longrightarrow> lv_sent s = [] \<Longrightarrow>
     read_u32 w whole = Got (len, lv_stream s) \<Longrightarrow> conn_inv w bops sops p bans whole 0 {} s"
| ci_handling:
    "lv_phase s = Handling buf \<Longrightarrow> sy_bans (lv_sys s) = bans \<Longrightarrow> lv_sent s = [] \<Longrightarrow>
     body_read w whole buf (lv_stream s) \<Longrightarrow> conn_inv w bops sops p bans whole 0 {} s"
| ci_writing_len:
    "lv_phase s = WritingLen pb \<Longrightarrow> body_read w whole buf (lv_stream s) \<Longrightarrow>
     answer w bops sops p utc bans stats buf = Inr (sy_bans (lv_sys s), resp) \<Longrightarrow> resp_to_vec w resp = Inr pb \<Longrightarrow>
     lv_sent s = [] \<Longrightarrow> conn_inv w bops sops p bans whole 0 {utc} s"
| ci_writing_body:
    "lv_phase s = WritingBody pb \<Longrightarrow> body_read w whole buf (lv_stream s) \<Longrightarrow>
     answer w bops sops p utc bans stats buf = Inr (sy_bans (lv_sys s), resp) \<Longrightarrow> resp_to_vec w resp = Inr pb \<Longrightarrow>
     lv_sent s = put_u32 w (word_of_nat (length pb)) \<Longrightarrow> conn_inv w bops sops p bans whole (Suc 0) {utc} s"
| ci_flushing:
    "lv_phase s = Flushing pb \<Longrightarrow> body_read w whole buf (lv_stream s) \<Longrightarrow>
     answer w bops sops p utc bans stats buf = Inr (sy_bans (lv_sys s), resp) \<Longrightarrow> resp_to_vec w resp = Inr pb \<Longrightarrow>
     lv_sent s = frame w pb \<Longrightarrow> conn_inv w bops sops p bans whole 2 {utc} s"
| ci_served:
    "lv_phase s = Accepting \<Longrightarrow> at \<subseteq> {utc} \<Longrightarrow>
     serve_conn w bops sops p utc \<lparr>c_stream = whole, c_writes = k\<rparr> bans stats = Served (sy_bans (lv_sys s)) (lv_sent s) \<Longrightarrow>
     conn_inv w bops sops p bans whole k at s"
| ci_died:
    "lv_phase s = Died pn \<Longrightarrow> at \<subseteq> {utc} \<Longrightarrow>
     serve_conn w bops sops p utc \<lparr>c_stream = whole, c_writes = k\<rparr> bans stats = Crashed pn (sy_bans (lv_sys s)) \<Longrightarrow>
     conn_inv w bops sops p bans whole k at s"

definition written_by :: "live_label \<Rightarrow> nat" where
  "written_by l = (if l = LWrite then 1 else 0)"

definition clock_of :: "live_label \<Rightarrow> i64 option set" where
  "clock_of l = (case l of LHandle utc r \<Rightarrow> {utc} | _ \<Rightarrow> {})"

lemma serve_conn_body_read:
  "body_read w whole buf st \<Longrightarrow>
     serve_conn w bops sops p utc \<lparr>c_stream = whole, c_writes = k\<rparr> bans stats =
       (case answer w bops sops p utc bans stats buf of
          Inl pn \<Rightarrow> Crashed pn bans
        | Inr (bans', resp) \<Rightarrow>
            (case resp_to_vec w resp of
               Inl e \<Rightarrow> Crashed UnwrapFailed bans'
             | Inr pb \<Rightarrow> Served bans' (write_frame w k pb)))"
  by (auto simp: body_read_def serve_conn_def split: sum.splits)

lemma env_step_bans: "sys_step nh bops sops p s l t \<Longrightarrow> \<forall>req resp. l \<noteq> Request req resp \<Longrightarrow> sy_bans t = sy_bans s"
  by (cases rule: sys_step.cases) auto

text \<open>Packets and the clock do not touch what the invariant speaks of; nor does the client, but for the stream.\<close>

lemma conn_inv_env:
  assumes "conn_inv w bops sops p bans whole k at s" and "in_connection (lv_phase s) \<or> l \<noteq> LClose \<and> (\<forall>bs. l \<noteq> LArrive bs)"
    and "lv_phase t = lv_phase s" and "lv_sent t = lv_sent s" and "sy_bans (lv_sys t) = sy_bans (lv_sys s)"
    and "lv_stream t = feed l (lv_stream s)"
  shows "conn_inv w bops sops p bans (feed l whole) k at t"
  using assms(1)
proof cases
  case ci_len
  then show ?thesis using assms(3-) by (auto intro: conn_inv.ci_len)
next
  case (ci_body len)
  then show ?thesis using assms(3-) read_u32_feed by (auto intro: conn_inv.ci_body)
next
  case (ci_handling buf)
  then show ?thesis using assms(3-) body_read_feed by (auto intro: conn_inv.ci_handling)
next
  case (ci_writing_len pb buf utc stats resp)
  then show ?thesis using assms(3-) body_read_feed[of w whole buf] by (auto intro!: conn_inv.ci_writing_len)
next
  case (ci_writing_body pb buf utc stats resp)
  then show ?thesis using assms(3-) body_read_feed[of w whole buf] by (auto intro!: conn_inv.ci_writing_body)
next
  case (ci_flushing pb buf utc stats resp)
  then show ?thesis using assms(3-) body_read_feed[of w whole buf] by (auto intro!: conn_inv.ci_flushing)
next
  case (ci_served utc stats)
  then have "feed l whole = whole" using assms(2) by (cases l) (auto simp: in_connection_def)
  then show ?thesis using ci_served assms(3-) by (auto intro: conn_inv.ci_served)
next
  case (ci_died pn utc stats)
  then have "feed l whole = whole" using assms(2) by (cases l) (auto simp: in_connection_def)
  then show ?thesis using ci_died assms(3-) by (auto intro: conn_inv.ci_died)
qed

lemmas label_defs = written_by_def clock_of_def

lemma conn_inv_read:
  assumes "live_step w nh bops sops p s l t" and "conn_inv w bops sops p bans whole k at s"
    and "l \<in> {LReadLen, LReadBody, LReadError}"
  shows "conn_inv w bops sops p bans whole k at t"
  using assms(1)
proof cases
  case (l_read_len len st)
  from assms(2) show ?thesis by cases (use l_read_len in \<open>auto intro!: ci_body\<close>)
next
  case l_read_len_error
  from assms(2) show ?thesis by cases (use l_read_len_error in \<open>auto simp: serve_conn_def intro!: ci_served\<close>)
next
  case (l_read_body len buf st)
  from assms(2) show ?thesis by cases (use l_read_body in \<open>auto simp: body_read_def intro!: ci_handling\<close>)
next
  case (l_read_body_error len)
  from assms(2) show ?thesis by cases (use l_read_body_error in \<open>auto simp: serve_conn_def intro!: ci_served\<close>)
qed (use assms(3) in auto)

lemma conn_inv_answer:
  assumes "live_step w nh bops sops p s l t" and "conn_inv w bops sops p bans whole k at s"
    and "l = LPanic \<or> (\<exists>utc r. l = LHandle utc r)"
  shows "conn_inv w bops sops p bans whole k (at \<union> clock_of l) t"
  using assms(1)
proof cases
  case (l_handle buf bans' resp resp_bytes)
  from assms(2) show ?thesis by cases (use l_handle in \<open>auto simp: clock_of_def intro!: ci_writing_len\<close>)
next
  case (l_unwrap buf bans' resp e)
  from assms(2) show ?thesis
    by cases (use l_unwrap in \<open>auto simp: clock_of_def serve_conn_body_read
        intro!: ci_died[where utc = "sy_utc (lv_sys s)" and stats = "sy_stats (lv_sys s)"]\<close>)
next
  case (l_panic buf pn)
  from assms(2) show ?thesis
    by cases (use l_panic in \<open>auto simp: clock_of_def serve_conn_body_read
        intro!: ci_died[where utc = "sy_utc (lv_sys s)" and stats = "sy_stats (lv_sys s)"]\<close>)
qed (use assms(3) in auto)

lemma conn_inv_write:
  assumes "live_step w nh bops sops p s l t" and "conn_inv w bops sops p bans whole k at s"
    and "l \<in> {LWrite, LWriteError, LFlush}"
  shows "conn_inv w bops sops p bans whole (k + written_by l) at t"
  using assms(2)
proof cases
  case (ci_writing_len pb buf utc stats resp)
  from assms(1) show ?thesis
    by cases (use assms(3) ci_writing_len ci_writing_body[of t pb w whole buf bops sops p utc bans stats resp]
        in \<open>auto simp: written_by_def serve_conn_body_read write_frame_def
          intro!: ci_served[where utc = utc and stats = stats]\<close>)
next
  case (ci_writing_body pb buf utc stats resp)
  from assms(1) show ?thesis
    by cases (use assms(3) ci_writing_body ci_flushing[of t pb w whole buf bops sops p utc bans stats resp]
        in \<open>auto simp: written_by_def serve_conn_body_read write_frame_def frame_def numeral_2_eq_2
          intro!: ci_served[where utc = utc and stats = stats]\<close>)
next
  case (ci_flushing pb buf utc stats resp)
  from assms(1) show ?thesis
    by cases (use assms(3) ci_flushing in \<open>auto simp: written_by_def serve_conn_body_read write_frame_def
        intro!: ci_served[where utc = utc and stats = stats]\<close>)
qed (use assms(1,3) in \<open>auto elim: live_step.cases\<close>)

lemma conn_inv_step:
  assumes "live_step w nh bops sops p s l t" and "conn_inv w bops sops p bans whole k at s" and "l \<noteq> LAccept"
  shows "conn_inv w bops sops p bans (feed l whole) (k + written_by l) (at \<union> clock_of l) t"
proof -
  note env = conn_inv_env[OF assms(2), of l t]
  from assms(1) show ?thesis
  proof cases
    case (l_packet ctx a s')
    then show ?thesis using env env_step_bans[OF l_packet(3)] by (simp add: label_defs)
  next
    case (l_tick s')
    then show ?thesis using env env_step_bans[OF l_tick(3)] by (simp add: label_defs)
  qed (use assms(3) env conn_inv_read[OF assms(1,2)] conn_inv_answer[OF assms(1,2)] conn_inv_write[OF assms(1,2)]
      in \<open>simp_all add: label_defs\<close>)
qed

text \<open>From the labels of a run to the connection they make.\<close>

lemma conn_inv_run:
  assumes "live_run w nh bops sops p s ls t" and "conn_inv w bops sops p bans whole k at s" and "LAccept \<notin> set ls"
  shows "conn_inv w bops sops p bans (foldl (\<lambda>st l. feed l st) whole ls) (k + count_list ls LWrite) (at \<union> handled_at ls) t"
  using assms
proof (induction arbitrary: whole k at rule: live_run.induct)
  case (live_nil s)
  then show ?case by (simp add: handled_at_def)
next
  case (live_cons s l t ls u)
  have "l \<noteq> LAccept" using live_cons.prems(2) by auto
  with conn_inv_step[OF live_cons.hyps(1) live_cons.prems(1)]
  have "conn_inv w bops sops p bans (feed l whole) (k + written_by l) (at \<union> clock_of l) t" by blast
  from live_cons.IH[OF this] have "conn_inv w bops sops p bans (foldl (\<lambda>st l. feed l st) (feed l whole) ls)
      (k + written_by l + count_list ls LWrite) (at \<union> clock_of l \<union> handled_at ls) u"
    using live_cons.prems(2) by simp
  moreover have "handled_at (l # ls) = clock_of l \<union> handled_at ls"
    by (auto simp: handled_at_def clock_of_def split: live_label.splits)
  moreover have "k + written_by l + count_list ls LWrite = k + count_list (l # ls) LWrite" by (simp add: written_by_def)
  ultimately show ?case by (simp add: Un_assoc)
qed

lemma foldl_feed:
  "foldl (\<lambda>st l. feed l st) \<lparr>st_in = a, st_eof = e\<rparr> ls = \<lparr>st_in = a @ arrived ls, st_eof = e \<or> LClose \<in> set ls\<rparr>"
proof (induction ls arbitrary: a e)
  case (Cons l ls)
  then show ?case by (cases l) (simp_all add: arrived_def)
qed (simp add: arrived_def)

section \<open>Progress\<close>

text \<open>The awaits a connection still has before it.\<close>

fun rank :: "phase \<Rightarrow> nat" where
  "rank ReadingLen = 6"
| "rank (ReadingBody _) = 5"
| "rank (Handling _) = 4"
| "rank (WritingLen _) = 3"
| "rank (WritingBody _) = 2"
| "rank (Flushing _) = 1"
| "rank _ = 0"

text \<open>The steps the task takes by itself.\<close>

definition task_label :: "live_label \<Rightarrow> bool" where
  "task_label l \<longleftrightarrow>
     (case l of LReadLen \<Rightarrow> True | LReadBody \<Rightarrow> True | LReadError \<Rightarrow> True | LHandle _ _ \<Rightarrow> True | LPanic \<Rightarrow> True
      | LWrite \<Rightarrow> True | LWriteError \<Rightarrow> True | LFlush \<Rightarrow> True | _ \<Rightarrow> False)"

lemma rank_step:
  assumes "live_step w nh bops sops p s l t" and "l \<noteq> LAccept"
  shows "rank (lv_phase t) + (if task_label l then 1 else 0) \<le> rank (lv_phase s)"
  using assms by cases (auto simp: task_label_def)

lemma rank_run:
  assumes "live_run w nh bops sops p s ls t" and "LAccept \<notin> set ls"
  shows "rank (lv_phase t) + length (filter task_label ls) \<le> rank (lv_phase s)"
  using assms
proof (induction rule: live_run.induct)
  case (live_cons s l t ls u)
  have "l \<noteq> LAccept" using live_cons.prems by auto
  then show ?case using rank_step[OF live_cons.hyps(1)] live_cons by (auto split: if_splits)
qed simp

text \<open>What the task waits for: enough bytes, or the end of the stream.\<close>

definition blocked :: "wire \<Rightarrow> ('b, 's) live \<Rightarrow> bool" where
  "blocked w s \<longleftrightarrow>
     (case lv_phase s of
        ReadingLen \<Rightarrow> read_u32 w (lv_stream s) = Pending
      | ReadingBody len \<Rightarrow> read_exact (unat len) (lv_stream s) = Pending
      | _ \<Rightarrow> False)"

lemma blocked_not_closed: "blocked w s \<Longrightarrow> \<not> st_eof (lv_stream s)"
  by (auto simp: blocked_def read_u32_def read_exact_def split: phase.splits io.splits if_splits)

lemma task_not_stuck:
  assumes "wire_format w" and "0 < rank (lv_phase s)" and "\<not> blocked w s"
  shows "\<exists>l t. task_label l \<and> live_step w nh bops sops p s l t"
proof (cases "lv_phase s")
  case ReadingLen
  show ?thesis
  proof (cases "read_u32 w (lv_stream s)")
    case (Got x)
    then show ?thesis
      using l_read_len[OF ReadingLen, of w "fst x" "snd x" nh bops sops p]
      by (intro exI[of _ LReadLen] exI conjI) (simp_all add: task_label_def)
  next
    case IoErr
    then show ?thesis
      using l_read_len_error[OF ReadingLen, of w nh bops sops p]
      by (intro exI[of _ LReadError] exI conjI) (simp_all add: task_label_def)
  qed (use assms(3) ReadingLen in \<open>simp add: blocked_def\<close>)
next
  case (ReadingBody len)
  show ?thesis
  proof (cases "read_exact (unat len) (lv_stream s)")
    case (Got x)
    then show ?thesis
      using l_read_body[OF ReadingBody, of "fst x" "snd x" w nh bops sops p]
      by (intro exI[of _ LReadBody] exI conjI) (simp_all add: task_label_def)
  next
    case IoErr
    then show ?thesis
      using l_read_body_error[OF ReadingBody, of w nh bops sops p]
      by (intro exI[of _ LReadError] exI conjI) (simp_all add: task_label_def)
  qed (use assms(3) ReadingBody in \<open>simp add: blocked_def\<close>)
next
  case (Handling buf)
  show ?thesis
  proof (cases "answer w bops sops p (sy_utc (lv_sys s)) (sy_bans (lv_sys s)) (sy_stats (lv_sys s)) buf")
    case (Inl pn)
    show ?thesis
      using l_panic[OF Handling Inl, of nh] by (intro exI[of _ LPanic] exI conjI) (simp_all add: task_label_def)
  next
    case (Inr r)
    then have a: "answer w bops sops p (sy_utc (lv_sys s)) (sy_bans (lv_sys s)) (sy_stats (lv_sys s)) buf = Inr (fst r, snd r)"
      by simp
    obtain pb where "resp_to_vec w (snd r) = Inr pb" using wire_format.resp_total[OF assms(1)] by blast
    note l_handle[OF Handling a this, of nh]
    moreover have "task_label (LHandle u r)" for u r by (simp add: task_label_def)
    ultimately show ?thesis by blast
  qed
next
  case (WritingLen bs)
  then show ?thesis using l_write_len[OF WritingLen, of w nh bops sops p]
    by (intro exI[of _ LWrite] exI conjI) (simp_all add: task_label_def)
next
  case (WritingBody bs)
  then show ?thesis using l_write_body[OF WritingBody, of w nh bops sops p]
    by (intro exI[of _ LWrite] exI conjI) (simp_all add: task_label_def)
next
  case (Flushing bs)
  then show ?thesis using l_flush[OF Flushing, of w nh bops sops p]
    by (intro exI[of _ LFlush] exI conjI) (simp_all add: task_label_def)
qed (use assms(2) in simp_all)

text \<open>A closed stream stays closed until the next connection.\<close>

lemma closed_step:
  assumes "live_step w nh bops sops p s l t" and "l \<noteq> LAccept" and "st_eof (lv_stream s)"
  shows "st_eof (lv_stream t)"
  using assms by cases (auto simp: read_u32_def read_exact_def split: io.splits if_splits)

lemma closed_run:
  "live_run w nh bops sops p s ls t \<Longrightarrow> LAccept \<notin> set ls \<Longrightarrow> st_eof (lv_stream s) \<Longrightarrow> st_eof (lv_stream t)"
proof (induction rule: live_run.induct)
  case (live_cons s l t ls u)
  have "l \<noteq> LAccept" using live_cons.prems by auto
  then show ?case using closed_step[OF live_cons.hyps(1)] live_cons by simp
qed

text \<open>A task that waits for its client, or has died, leaves only packets and the clock.\<close>

definition env_label :: "live_label \<Rightarrow> bool" where
  "env_label l \<longleftrightarrow> l = LTick \<or> (\<exists>ctx a. l = LPacket ctx a)"

lemma blocked_step:
  assumes "live_step w nh bops sops p s l t" and "blocked w s \<or> (\<exists>pn. lv_phase s = Died pn)"
    and "l \<noteq> LClose" and "\<forall>bs. l \<noteq> LArrive bs"
  shows "env_label l \<and> lv_phase t = lv_phase s \<and> lv_stream t = lv_stream s \<and> sy_bans (lv_sys t) = sy_bans (lv_sys s)"
  using assms(1)
proof cases
  case (l_packet ctx a s')
  then show ?thesis using env_step_bans[OF l_packet(3)] by (simp add: env_label_def)
next
  case (l_tick s')
  then show ?thesis using env_step_bans[OF l_tick(3)] by (simp add: env_label_def)
qed (use assms(2-) in \<open>auto simp: blocked_def\<close>)

lemma blocked_run:
  assumes "live_run w nh bops sops p s ls t" and "blocked w s \<or> (\<exists>pn. lv_phase s = Died pn)"
    and "LClose \<notin> set ls" and "\<forall>bs. LArrive bs \<notin> set ls"
  shows "list_all env_label ls \<and> lv_phase t = lv_phase s \<and> sy_bans (lv_sys t) = sy_bans (lv_sys s)"
  using assms
proof (induction rule: live_run.induct)
  case (live_cons s l t ls u)
  have l: "l \<noteq> LClose" "\<forall>bs. l \<noteq> LArrive bs" using live_cons.prems by auto
  note b = blocked_step[OF live_cons.hyps(1) live_cons.prems(1) l]
  then have "blocked w t \<or> (\<exists>pn. lv_phase t = Died pn)" using live_cons.prems(1) by (auto simp: blocked_def split: phase.splits)
  then show ?case using b live_cons by simp
qed simp

section \<open>Properties\<close>

text \<open>
  C2. The interleaved daemon refines the specification of the firewall: in every run in which the accept task
  proceeds await by await, with packets, clock ticks and further bytes of the client between any two of them,
  the map contents evolve as the specification allows, with the packets' verdicts and the handled requests as
  its events, in the order in which they happened.
\<close>

theorem live_refines_firewall_spec:
  assumes "firewall_maps nh bops max_entries valid sops smax svalid"
    and "valid (sy_bans (lv_sys s))" and "svalid (sy_stats (lv_sys s))" and "live_run w nh bops sops p s ls t"
  shows "fw_run max_entries p (registry_of bops sops (lv_sys s)) (map fw_label_of (concat (map sys_labels ls)))
    (registry_of bops sops (lv_sys t))"
  using live_run_sys[OF assms(4)] assms(2,3) by (rule firewall_maps.run_refines[OF assms(1)])

text \<open>A client that bans 10.0.0.1 in two pieces, with a packet from that address between them and after.\<close>

definition sample_live :: "((u32 \<times> BanValue) list, (u32 \<times> StatsValue) list) live" where
  "sample_live = \<lparr>lv_sys = sample_sys, lv_phase = Accepting, lv_stream = \<lparr>st_in = [], st_eof = True\<rparr>, lv_sent = []\<rparr>"

abbreviation sample_rb :: bytes where
  "sample_rb \<equiv> json_req (ReqBan ''10.0.0.1'' None)"

definition sample_live_labels :: "live_label list" where
  "sample_live_labels =
     [LArrive (take 4 (frame json_wire sample_rb)), LReadLen, LArrive sample_rb, LReadBody,
      LHandle (sy_utc sample_sys) (Some (ReqBan ''10.0.0.1'' None, RespOk)),
      LPacket (ctx_of_packet 4096 (sample_frame 6)) (Ret XDP_DROP), LWrite, LWrite, LFlush]"

definition sample_live_end :: "((u32 \<times> BanValue) list, (u32 \<times> StatsValue) list) live" where
  "sample_live_end =
     \<lparr>lv_sys = sample_banned, lv_phase = Accepting, lv_stream = \<lparr>st_in = [], st_eof = False\<rparr>,
      lv_sent = frame json_wire (json_resp RespOk)\<rparr>"

abbreviation sample_at ::
  "((u32 \<times> BanValue) list, (u32 \<times> StatsValue) list) sys \<Rightarrow> phase \<Rightarrow> bytes \<Rightarrow> bytes \<Rightarrow>
     ((u32 \<times> BanValue) list, (u32 \<times> StatsValue) list) live" where
  "sample_at sys ph bs out \<equiv> \<lparr>lv_sys = sys, lv_phase = ph, lv_stream = \<lparr>st_in = bs, st_eof = False\<rparr>, lv_sent = out\<rparr>"

lemma sample_reading:
  "live_run json_wire rfc_headers (alist_ops 1024) (alist_ops 1024) Release sample_live
     (LAccept # take 4 sample_live_labels) (sample_at sample_sys (Handling sample_rb) [] [])"
proof -
  let ?step = "live_step json_wire rfc_headers (alist_ops 1024) (alist_ops 1024) Release"
  let ?len = "word_of_nat (length sample_rb) :: u32"
  have len: "length sample_rb < 2 ^ 32" by (simp add: json_lengths)
  have four: "take 4 (frame json_wire sample_rb) = put_u32 json_wire ?len"
    by (simp add: frame_def json.put_len)
  have "?step sample_live LAccept (sample_at sample_sys ReadingLen [] [])"
    using l_accept[of sample_live json_wire rfc_headers] by (simp add: sample_live_def)
  moreover have "?step (sample_at sample_sys ReadingLen [] []) (LArrive (take 4 (frame json_wire sample_rb)))
      (sample_at sample_sys ReadingLen (put_u32 json_wire ?len) [])"
    using l_arrive[of "sample_at sample_sys ReadingLen [] []" json_wire rfc_headers] by (simp add: in_connection_def four)
  moreover have "?step (sample_at sample_sys ReadingLen (put_u32 json_wire ?len) []) LReadLen
      (sample_at sample_sys (ReadingBody ?len) [] [])"
    using l_read_len[of "sample_at sample_sys ReadingLen (put_u32 json_wire ?len) []" json_wire ?len
        "\<lparr>st_in = [], st_eof = False\<rparr>" rfc_headers]
    by (simp add: read_u32_def read_exact_def json.put_len json.get_put)
  moreover have "?step (sample_at sample_sys (ReadingBody ?len) [] []) (LArrive sample_rb)
      (sample_at sample_sys (ReadingBody ?len) sample_rb [])"
    using l_arrive[of "sample_at sample_sys (ReadingBody ?len) [] []" json_wire rfc_headers] by (simp add: in_connection_def)
  moreover have "?step (sample_at sample_sys (ReadingBody ?len) sample_rb []) LReadBody
      (sample_at sample_sys (Handling sample_rb) [] [])"
    using l_read_body[of "sample_at sample_sys (ReadingBody ?len) sample_rb []" ?len sample_rb
        "\<lparr>st_in = [], st_eof = False\<rparr>" json_wire rfc_headers] json.read_frame_body[OF len, of "[]" False] by simp
  ultimately show ?thesis by (simp add: sample_live_labels_def) (blast intro: live_nil live_cons)
qed

lemma sample_handling:
  "live_step json_wire rfc_headers (alist_ops 1024) (alist_ops 1024) Release (sample_at sample_sys (Handling sample_rb) [] [])
     (LHandle (sy_utc sample_sys) (Some (ReqBan ''10.0.0.1'' None, RespOk)))
     (sample_at sample_banned (WritingLen (json_resp RespOk)) [] [])"
proof -
  have parse: "req_from_slice json_wire sample_rb = Inr (ReqBan ''10.0.0.1'' None)"
    by (rule json.req_roundtrip) (simp add: json_wire_def)
  then have "answer json_wire (alist_ops 1024) (alist_ops 1024) Release (sy_utc sample_sys) (sy_bans sample_sys)
      (sy_stats sample_sys) sample_rb = Inr (sy_bans sample_banned, RespOk)"
    using sample_ban_handled by (simp add: answer_def)
  moreover have "resp_to_vec json_wire RespOk = Inr (json_resp RespOk)" by (simp add: json_wire_def)
  ultimately show ?thesis
    using l_handle[of "sample_at sample_sys (Handling sample_rb) [] []" sample_rb json_wire "alist_ops 1024" "alist_ops 1024"
        Release "sy_bans sample_banned" RespOk "json_resp RespOk" rfc_headers] parse
    by (simp add: sample_banned_def)
qed

lemma sample_replying:
  "live_run json_wire rfc_headers (alist_ops 1024) (alist_ops 1024) Release
     (sample_at sample_banned (WritingLen (json_resp RespOk)) [] []) (drop 5 sample_live_labels) sample_live_end"
proof -
  let ?step = "live_step json_wire rfc_headers (alist_ops 1024) (alist_ops 1024) Release"
  let ?rs = "json_resp RespOk" and ?n = "put_u32 json_wire (word_of_nat (length (json_resp RespOk)))"
  have "?step (sample_at sample_banned (WritingLen ?rs) [] []) (LPacket (ctx_of_packet 4096 (sample_frame 6)) (Ret XDP_DROP))
      (sample_at sample_banned (WritingLen ?rs) [] [])"
    using l_packet[of rfc_headers "alist_ops 1024" "alist_ops 1024" Release "sample_at sample_banned (WritingLen ?rs) [] []"]
      sample_packet_step by (fastforce simp: sample_packet_def)
  moreover have "?step (sample_at sample_banned (WritingLen ?rs) [] []) LWrite (sample_at sample_banned (WritingBody ?rs) [] ?n)"
    using l_write_len[of "sample_at sample_banned (WritingLen ?rs) [] []" ?rs json_wire rfc_headers] by simp
  moreover have "?step (sample_at sample_banned (WritingBody ?rs) [] ?n) LWrite
      (sample_at sample_banned (Flushing ?rs) [] (frame json_wire ?rs))"
    using l_write_body[of "sample_at sample_banned (WritingBody ?rs) [] ?n" ?rs json_wire rfc_headers]
    by (simp add: frame_def)
  moreover have "?step (sample_at sample_banned (Flushing ?rs) [] (frame json_wire ?rs)) LFlush sample_live_end"
    using l_flush[of "sample_at sample_banned (Flushing ?rs) [] (frame json_wire ?rs)"] by (simp add: sample_live_end_def)
  ultimately show ?thesis by (simp add: sample_live_labels_def) (blast intro: live_nil live_cons)
qed

lemma live_run_append:
  "live_run w nh bops sops p s ls t \<Longrightarrow> live_run w nh bops sops p t ls' u \<Longrightarrow> live_run w nh bops sops p s (ls @ ls') u"
  by (induction rule: live_run.induct) (auto intro: live_cons)

lemma sample_live_run:
  "live_run json_wire rfc_headers (alist_ops 1024) (alist_ops 1024) Release sample_live (LAccept # sample_live_labels) sample_live_end"
  using live_run_append[OF sample_reading live_cons[OF sample_handling sample_replying]]
  by (simp add: sample_live_labels_def)

theorem live_refines_firewall_spec_witness:
  "fw_run 1024 Release (registry_of (alist_ops 1024) (alist_ops 1024) sample_sys)
     [Answered (ReqBan ''10.0.0.1'' None) RespOk, Verdict (sample_frame 6) (Ret XDP_DROP)]
     (registry_of (alist_ops 1024) (alist_ops 1024) sample_banned)"
  using live_refines_firewall_spec[OF rfc_maps.firewall_maps_axioms _ _ sample_live_run]
  by (simp add: sample_live_def sample_live_end_def sample_live_labels_def sample_sys_def alist_valid_def sample_frame_ctx(2))

text \<open>
  C8. Interleaving does not change the outcome of a connection: take any run of the daemon over one connection,
  in which the client's bytes come in pieces of any size at any time between the awaits, packets are filtered
  and the clock advances. When the connection is over, or the task has died in it, the table of bans, what the
  client received, and the panic are those \<open>serve_conn\<close> computes at once from all the client sent, for the
  statistics and the clock at the time its request was handled.
\<close>

theorem interleaved_connection_agrees:
  assumes "live_run w nh bops sops p s (LAccept # ls) t" and "lv_phase s = Accepting" and "LAccept \<notin> set ls"
  shows "\<exists>utc stats. handled_at ls \<subseteq> {utc} \<and>
    (case lv_phase t of
       Accepting \<Rightarrow> serve_conn w bops sops p utc (conn_of ls) (sy_bans (lv_sys s)) stats =
         Served (sy_bans (lv_sys t)) (lv_sent t)
     | Died pn \<Rightarrow> serve_conn w bops sops p utc (conn_of ls) (sy_bans (lv_sys s)) stats =
         Crashed pn (sy_bans (lv_sys t))
     | _ \<Rightarrow> blocked w t \<longrightarrow>
         serve_conn w bops sops p utc (conn_of ls) (sy_bans (lv_sys s)) stats = Stalled \<and>
         sy_bans (lv_sys t) = sy_bans (lv_sys s))"
proof -
  obtain s1 where "live_step w nh bops sops p s LAccept s1" and r: "live_run w nh bops sops p s1 ls t"
    using assms(1) by (auto elim: live_run.cases)
  then have "conn_inv w bops sops p (sy_bans (lv_sys s)) \<lparr>st_in = [], st_eof = False\<rparr> 0 {} s1"
    by (auto elim!: live_step.cases intro!: ci_len)
  from conn_inv_run[OF r this assms(3)]
  have "conn_inv w bops sops p (sy_bans (lv_sys s)) (c_stream (conn_of ls)) (c_writes (conn_of ls)) (handled_at ls) t"
    by (simp add: foldl_feed conn_of_def)
  then show ?thesis
    by cases (fastforce simp: blocked_def serve_conn_def conn_of_def)+
qed

theorem interleaved_connection_agrees_witness:
  "\<exists>utc stats. serve_conn json_wire (alist_ops 1024) (alist_ops 1024) Release utc (conn_of sample_live_labels) [] stats =
     Served (sy_bans sample_banned) (frame json_wire (json_resp RespOk))"
proof -
  have "lv_phase sample_live = Accepting" "LAccept \<notin> set sample_live_labels"
    by (simp_all add: sample_live_def sample_live_labels_def)
  from interleaved_connection_agrees[OF sample_live_run this] show ?thesis
    by (auto simp: sample_live_end_def sample_live_def sample_sys_def)
qed

text \<open>
  C9. A connection whose client has closed comes to an end: within that connection the task takes at most six
  more steps, and as long as it is neither back at \<open>accept\<close> nor dead, it can take one, whatever packets and clock
  ticks come between.
\<close>

theorem closed_connection_ends:
  assumes "wire_format w" and "live_run w nh bops sops p s ls t" and "LAccept \<notin> set ls" and "st_eof (lv_stream s)"
  shows "length (filter task_label ls) \<le> 6 \<and>
    (lv_phase t = Accepting \<or> (\<exists>pn. lv_phase t = Died pn) \<or>
     (\<exists>l u. task_label l \<and> live_step w nh bops sops p t l u))"
proof
  have "rank (lv_phase s) \<le> 6" by (cases "lv_phase s") simp_all
  then show "length (filter task_label ls) \<le> 6" using rank_run[OF assms(2,3)] by linarith
  have "\<not> blocked w t" using blocked_not_closed closed_run[OF assms(2-4)] by blast
  then show "lv_phase t = Accepting \<or> (\<exists>pn. lv_phase t = Died pn) \<or>
      (\<exists>l u. task_label l \<and> live_step w nh bops sops p t l u)"
    using task_not_stuck[OF assms(1), of t nh bops sops p] by (cases "lv_phase t") simp_all
qed

theorem closed_connection_ends_witness:
  "\<exists>l u. task_label l \<and> live_step json_wire rfc_headers (alist_ops 8) (alist_ops 8) Dev
     \<lparr>lv_sys = sample_sys, lv_phase = ReadingLen, lv_stream = \<lparr>st_in = [0, 0], st_eof = True\<rparr>, lv_sent = []\<rparr> l u"
  using closed_connection_ends[OF json.wire_format_axioms live_nil, of
      "\<lparr>lv_sys = sample_sys, lv_phase = ReadingLen, lv_stream = \<lparr>st_in = [0, 0], st_eof = True\<rparr>, lv_sent = []\<rparr>"
      rfc_headers "alist_ops 8" "alist_ops 8" Dev]
  by simp

text \<open>
  C20. A client that connects, sends less than a whole request and then neither sends nor closes blocks the daemon:
  until it does one of them, nothing happens but packets and the clock; no other connection is accepted, and
  the table of bans does not change. After a panic the daemon is in that state for good.
\<close>

theorem silent_client_blocks_daemon:
  assumes "live_run w nh bops sops p s ls t" and "blocked w s \<or> (\<exists>pn. lv_phase s = Died pn)"
    and "LClose \<notin> set ls" and "\<forall>bs. LArrive bs \<notin> set ls"
  shows "list_all env_label ls \<and> lv_phase t = lv_phase s \<and> sy_bans (lv_sys t) = sy_bans (lv_sys s)"
  using assms by (rule blocked_run)

theorem silent_client_blocks_daemon_witness:
  "blocked json_wire \<lparr>lv_sys = sample_banned, lv_phase = ReadingLen, lv_stream = \<lparr>st_in = [0, 0], st_eof = False\<rparr>, lv_sent = []\<rparr> \<and>
   list_all env_label [LPacket (ctx_of_packet 4096 (sample_frame 6)) (Ret XDP_DROP)]"
proof -
  let ?s = "\<lparr>lv_sys = sample_banned, lv_phase = ReadingLen, lv_stream = \<lparr>st_in = [0, 0], st_eof = False\<rparr>, lv_sent = []\<rparr>"
  have b: "blocked json_wire ?s" by (simp add: blocked_def read_u32_def read_exact_def)
  have "live_step json_wire rfc_headers (alist_ops 1024) (alist_ops 1024) Release ?s
      (LPacket (ctx_of_packet 4096 (sample_frame 6)) (Ret XDP_DROP)) ?s"
    using l_packet[of rfc_headers "alist_ops 1024" "alist_ops 1024" Release ?s] sample_packet_step
    by (fastforce simp: sample_packet_def)
  from silent_client_blocks_daemon[OF live_cons[OF this live_nil]] b show ?thesis by simp
qed

end
