(* ===== verification/Ban_History.thy ===== *)
theory Ban_History
  imports Daemon_Steps
begin

text \<open>
  What the requests of a run mean for the packets after it. The log of a run is the list of the requests the
  daemon handled, each with the wall clock it was handled at. As long as the bans of the log name no more addresses
  than the table holds, the last request of the log that names an address decides alone how its packets are
  treated: the table is a function of the log, whatever packets, connections and clock ticks came between.
\<close>

section \<open>The log of a run\<close>

fun handled :: "live_label \<Rightarrow> (i64 option \<times> DaemonRequest) list" where
  "handled (LHandle utc (Some (req, resp))) = [(utc, req)]"
| "handled _ = []"

definition request_log :: "live_label list \<Rightarrow> (i64 option \<times> DaemonRequest) list" where
  "request_log ls = concat (map handled ls)"

definition last_naming :: "u32 \<Rightarrow> (i64 option \<times> DaemonRequest) list \<Rightarrow> (i64 option \<times> DaemonRequest) option" where
  "last_naming k h = find (\<lambda>(utc, req). req_addr req = Some k) (rev h)"

definition bans_addr :: "DaemonRequest \<Rightarrow> u32 option" where
  "bans_addr req = (case req of ReqBan _ _ \<Rightarrow> req_addr req | _ \<Rightarrow> None)"

definition banned_addrs :: "(i64 option \<times> DaemonRequest) list \<Rightarrow> u32 set" where
  "banned_addrs h = set (List.map_filter (bans_addr \<circ> snd) h)"

text \<open>The log bans the address at the given time since boot.\<close>

definition bans_now :: "profile \<Rightarrow> (i64 option \<times> DaemonRequest) list \<Rightarrow> u32 \<Rightarrow> u64 \<Rightarrow> bool" where
  "bans_now p h k now \<longleftrightarrow>
     (\<exists>utc target ttl e. last_naming k h = Some (utc, ReqBan target ttl) \<and> ends_at p utc ttl e \<and> (e = 0 \<or> now \<le> e))"

text \<open>The entry of an address after the last request that names it.\<close>

definition decided :: "profile \<Rightarrow> (i64 option \<times> DaemonRequest) option \<Rightarrow> BanValue option \<Rightarrow> bool" where
  "decided p naming entry \<longleftrightarrow>
     (case naming of
        Some (utc, ReqBan target ttl) \<Rightarrow> \<exists>e. entry = Some \<lparr>end_time = e\<rparr> \<and> ends_at p utc ttl e
      | _ \<Rightarrow> entry = None)"

lemma last_naming_nil [simp]: "last_naming k [] = None"
  by (simp add: last_naming_def)

lemma last_naming_snoc [simp]:
  "last_naming k (h @ [(utc, req)]) = (if req_addr req = Some k then Some (utc, req) else last_naming k h)"
  by (simp add: last_naming_def)

lemma banned_addrs_append: "banned_addrs (h @ h') = banned_addrs h \<union> banned_addrs h'"
  by (auto simp: banned_addrs_def map_filter_def)

lemma decided_Some:
  "decided p naming (Some v) \<longleftrightarrow>
     (\<exists>utc target ttl. naming = Some (utc, ReqBan target ttl) \<and> ends_at p utc ttl (end_time v))"
  by (cases v) (auto simp: decided_def split: option.split DaemonRequest.split)

lemma decided_filter:
  assumes "decided p (last_naming k h) (bans k)" and "classify pkt = Flow k port"
  shows "filter_spec bans now pkt = (if bans_now p h k now then XDP_DROP else XDP_PASS)"
proof (cases "last_naming k h")
  case (Some r)
  obtain utc req where r: "r = (utc, req)" by (cases r)
  show ?thesis
    using assms
    by (cases req) (auto simp: Some r decided_def bans_now_def filter_spec_def ban_active_def dest: ends_at_unique)
qed (use assms in \<open>simp add: decided_def bans_now_def filter_spec_def\<close>)

section \<open>The table follows the log\<close>

context ban_table
begin

text \<open>The bans are what the log says, and only addresses of \<open>B\<close> are banned.\<close>

definition ledger :: "profile \<Rightarrow> u32 set \<Rightarrow> (i64 option \<times> DaemonRequest) list \<Rightarrow> 'b \<Rightarrow> bool" where
  "ledger p B h bans \<longleftrightarrow>
     valid bans \<and> dom (mo_get bops bans) \<subseteq> B \<and> (\<forall>k. decided p (last_naming k h) (mo_get bops bans k))"

lemma room_for_member:
  assumes "dom (mo_get bops bans) \<subseteq> B" and "card B \<le> max_entries" and "k \<in> B"
  shows "has_room bans k"
proof (cases "mo_get bops bans k")
  case None
  then have "dom (mo_get bops bans) \<subset> B" using assms(1,3) by blast
  then have "card (dom (mo_get bops bans)) < card B" by (rule psubset_card_mono[OF finite])
  then show ?thesis using assms(2) by (simp add: has_room_def)
qed (simp add: has_room_def)

lemma ledger_ban:
  assumes "ledger p B h bans" and "card B \<le> max_entries"
    and "handle_request bops sops p utc bans stats (ReqBan target ttl) = Inr (bans', resp)"
    and "bans_addr (ReqBan target ttl) = Some k" and "k \<in> B"
  shows "ledger p B (h @ [(utc, ReqBan target ttl)]) bans'"
proof -
  obtain ip where ip: "ipv4_from_str target = Some ip" "u32_of_ipv4 ip = k"
    using assms(4) by (auto simp: bans_addr_def req_addr_def)
  then obtain e where e: "ban_end_time p (get_boot_time_ns utc) ttl = Inr e"
    using assms(3) by (auto simp: handle_request_def handle_ban_def res_bind_eq_Inr)
  have "has_room bans k" using assms(1,2,5) room_for_member by (auto simp: ledger_def)
  then obtain b where b: "handle_request bops sops p utc bans stats (ReqBan target ttl) = Inr (b, RespOk)"
      "valid b" "mo_get bops b = (mo_get bops bans)(k \<mapsto> \<lparr>end_time = e\<rparr>)"
    using ban_stored[OF _ ip(1) e] assms(1) ip(2) unfolding ledger_def has_room_def by metis
  have "b = bans'" using b(1) assms(3) by simp
  then show ?thesis
    using b(2,3) assms(1,5) ban_end_time_ends_at[OF e] ip
    by (auto simp: ledger_def decided_def req_addr_def)
qed

lemma ledger_unban:
  assumes "ledger p B h bans" and "ipv4_from_str target = Some ip"
  shows "ledger p B (h @ [(utc, ReqUnban target)]) (fst (handle_unban bops bans target))"
  using unban_ok[OF _ assms(2), of bans] assms by (auto simp: ledger_def decided_def req_addr_def)

lemma ledger_request:
  assumes "ledger p B h bans" and "card B \<le> max_entries"
    and "handle_request bops sops p utc bans stats req = Inr (bans', resp)"
    and "set_option (bans_addr req) \<subseteq> B"
  shows "ledger p B (h @ [(utc, req)]) bans'"
proof (cases "req_addr req")
  case None
  then have "bans' = bans"
    using assms(3)
    by (auto simp: req_addr_def handle_request_def handle_ban_def handle_unban_def split: DaemonRequest.splits)
  then show ?thesis using assms(1) None by (simp add: ledger_def)
next
  case (Some k)
  show ?thesis
  proof (cases req)
    case (ReqBan target ttl)
    then have "bans_addr (ReqBan target ttl) = Some k" using Some by (simp add: bans_addr_def)
    then show ?thesis using ledger_ban[OF assms(1,2)] assms(3,4) ReqBan by simp
  next
    case (ReqUnban target)
    then obtain ip where "ipv4_from_str target = Some ip" using Some by (auto simp: req_addr_def)
    from ledger_unban[OF assms(1) this, of utc] show ?thesis using assms(3) ReqUnban by (simp add: handle_request_def)
  qed (use Some in \<open>simp_all add: req_addr_def\<close>)
qed

text \<open>
  Whatever the table has room for, an entry stems from the log: the last request that names its address is a ban,
  and the entry holds the end of that ban.
\<close>

definition from_log :: "profile \<Rightarrow> (i64 option \<times> DaemonRequest) list \<Rightarrow> 'b \<Rightarrow> bool" where
  "from_log p h bans \<longleftrightarrow>
     valid bans \<and> (\<forall>k v. mo_get bops bans k = Some v \<longrightarrow> decided p (last_naming k h) (Some v))"

lemma ban_entry:
  assumes "valid bans" and "handle_request bops sops p utc bans stats (ReqBan target ttl) = Inr (bans', resp)"
    and "req_addr (ReqBan target ttl) = Some k" and "mo_get bops bans' k = Some v"
  shows "ends_at p utc ttl (end_time v)"
proof -
  obtain ip where ip: "ipv4_from_str target = Some ip" "u32_of_ipv4 ip = k" using assms(3) by (auto simp: req_addr_def)
  then obtain e where e: "ban_end_time p (get_boot_time_ns utc) ttl = Inr e"
    using assms(2) by (auto simp: handle_request_def handle_ban_def res_bind_eq_Inr)
  have "v = \<lparr>end_time = e\<rparr>"
    using ban_ok[OF assms(1) ip(1) e] assms(2,4) ip(2)
    by (fastforce simp: handle_request_def has_room_def split: if_splits)
  then show ?thesis using ban_end_time_ends_at[OF e] by simp
qed

lemma from_log_request:
  assumes "from_log p h bans" and "handle_request bops sops p utc bans stats req = Inr (bans', resp)"
  shows "from_log p (h @ [(utc, req)]) bans'"
proof -
  have v: "valid bans'" using handle_request_valid assms by (auto simp: from_log_def)
  have "decided p (last_naming k (h @ [(utc, req)])) (Some v)" if entry: "mo_get bops bans' k = Some v" for k v
  proof (cases "req_addr req = Some k")
    case False
    then have "mo_get bops bans k = Some v" using handle_request_other[OF _ assms(2)] assms(1) entry by (simp add: from_log_def)
    then show ?thesis using assms(1) False by (simp add: from_log_def)
  next
    case True
    show ?thesis
    proof (cases req)
      case (ReqBan target ttl)
      then have "ends_at p utc ttl (end_time v)"
        using ban_entry[of bans sops p utc stats target ttl bans' resp k v] assms True entry by (simp add: from_log_def)
      then show ?thesis using True ReqBan by (simp add: decided_Some)
    next
      case (ReqUnban target)
      then obtain ip where ip: "ipv4_from_str target = Some ip" "u32_of_ipv4 ip = k" using True by (auto simp: req_addr_def)
      then have "mo_get bops bans' k = None"
        using unban_ok(3)[OF _ ip(1), of bans] assms ReqUnban by (auto simp: from_log_def handle_request_def)
      then show ?thesis using entry by simp
    qed (use True in \<open>simp_all add: req_addr_def\<close>)
  qed
  with v show ?thesis by (simp add: from_log_def)
qed

end

text \<open>A step of the daemon handles one request, or leaves the table and the log as they are.\<close>

lemma live_step_handles:
  assumes "live_step w nh bops sops p s l t"
  shows "handled l = [] \<and> sy_bans (lv_sys t) = sy_bans (lv_sys s) \<or>
    (\<exists>utc stats req resp. handled l = [(utc, req)] \<and>
       handle_request bops sops p utc (sy_bans (lv_sys s)) stats req = Inr (sy_bans (lv_sys t), resp))"
  using assms
proof cases
  case (l_handle buf bans' resp resp_bytes)
  then show ?thesis by (cases "req_from_slice w buf") (auto simp: answer_def)
next
  case (l_unwrap buf bans' resp e)
  then show ?thesis by (cases "req_from_slice w buf") (auto simp: answer_def)
next
  case (l_packet ctx a s')
  then show ?thesis by (auto elim!: packet_stepE)
next
  case (l_tick s')
  then show ?thesis by (auto elim: sys_step.cases)
qed simp_all

context firewall
begin

lemma ledger_step:
  assumes "live_step w nh bops sops p s l t" and "ledger p B h (sy_bans (lv_sys s))"
    and "card B \<le> max_entries" and "banned_addrs (handled l) \<subseteq> B"
  shows "ledger p B (h @ handled l) (sy_bans (lv_sys t))"
  using live_step_handles[OF assms(1)]
proof (elim disjE conjE exE)
  fix utc stats req resp
  assume l: "handled l = [(utc, req)]"
    and r: "handle_request bops sops p utc (sy_bans (lv_sys s)) stats req = Inr (sy_bans (lv_sys t), resp)"
  have "set_option (bans_addr req) \<subseteq> B"
    using assms(4) by (auto simp: l banned_addrs_def map_filter_def split: if_splits)
  then show ?thesis using ledger_request[OF assms(2,3) r] l by simp
qed (use assms(2) in simp)

lemma ledger_run:
  assumes "live_run w nh bops sops p s ls t" and "ledger p B h (sy_bans (lv_sys s))"
    and "card B \<le> max_entries" and "banned_addrs (request_log ls) \<subseteq> B"
  shows "ledger p B (h @ request_log ls) (sy_bans (lv_sys t))"
  using assms
proof (induction arbitrary: h rule: live_run.induct)
  case (live_cons s l t ls u)
  have "banned_addrs (handled l) \<subseteq> B" "banned_addrs (request_log ls) \<subseteq> B"
    using live_cons.prems(3) by (auto simp: request_log_def banned_addrs_append)
  moreover from this(1) have "ledger p B (h @ handled l) (sy_bans (lv_sys t))"
    by (rule ledger_step[OF live_cons.hyps(1) live_cons.prems(1,2)])
  ultimately show ?case using live_cons.IH[of "h @ handled l"] live_cons.prems(2) by (simp add: request_log_def)
qed (simp add: request_log_def)

lemma from_log_run:
  "live_run w nh bops sops p s ls t \<Longrightarrow> from_log p h (sy_bans (lv_sys s)) \<Longrightarrow>
     from_log p (h @ request_log ls) (sy_bans (lv_sys t))"
proof (induction arbitrary: h rule: live_run.induct)
  case (live_cons s l t ls u)
  have "from_log p (h @ handled l) (sy_bans (lv_sys t))"
    using live_step_handles[OF live_cons.hyps(1)] live_cons.prems from_log_request by fastforce
  then show ?case using live_cons.IH[of "h @ handled l"] by (simp add: request_log_def)
qed (simp add: request_log_def)

lemma ledger_fresh: "fresh bops sops valid s \<Longrightarrow> ledger p B [] (sy_bans s)"
  by (simp add: fresh_def ledger_def decided_def)

end

section \<open>Properties\<close>

text \<open>
  C3. The verdict follows the requests: take any run of the daemon from empty maps, its connections, packets and
  clock ticks interleaved in any way, whose bans name no more distinct addresses than the table holds. The next
  TCP or UDP packet from an address is dropped if the last handled request that names the address is a ban whose
  end time is 0 or not before the kernel's clock, and passes in every other case: the address was never named,
  or it was unbanned last, or its ban has ended.
\<close>

theorem verdict_follows_request_log:
  assumes "firewall nh bops max_entries valid" and "fresh bops sops valid (lv_sys s)"
    and "live_run w nh bops sops p s ls t" and "card (banned_addrs (request_log ls)) \<le> max_entries"
    and "live_step w nh bops sops p t (LPacket ctx a) u" and "packet_from k ctx"
  shows "a = Ret (if bans_now p (request_log ls) k (sy_ktime (lv_sys t)) then XDP_DROP else XDP_PASS)"
proof -
  have "ban_table bops max_entries valid" using assms(1) by (simp add: firewall_def)
  then have "decided p (last_naming k (request_log ls)) (mo_get bops (sy_bans (lv_sys t)) k)"
    using firewall.ledger_run[OF assms(1,3) firewall.ledger_fresh[OF assms(1,2)] assms(4) subset_refl]
    by (simp add: ban_table.ledger_def)
  moreover obtain port where "classify (packet_bytes ctx) = Flow k port"
    using assms(6) by (auto simp: packet_from_def)
  moreover have "a = Ret (filter_spec (mo_get bops (sy_bans (lv_sys t))) (sy_ktime (lv_sys t)) (packet_bytes ctx))"
    using assms(5) by cases (rule firewall.step_packet_action[OF assms(1)])
  ultimately show ?thesis by (simp add: decided_filter)
qed

lemma sample_live_verdict:
  "live_step json_wire rfc_headers (alist_ops 1024) (alist_ops 1024) Release sample_live_end
     (LPacket (ctx_of_packet 4096 (sample_frame 6)) (Ret XDP_DROP)) sample_live_end"
  using l_packet[of rfc_headers "alist_ops 1024" "alist_ops 1024" Release sample_live_end] sample_packet_step
  by (fastforce simp: sample_packet_def sample_live_end_def)

lemma sample_log: "request_log (LAccept # sample_live_labels) = [(sy_utc sample_sys, ReqBan ''10.0.0.1'' None)]"
  by (simp add: request_log_def sample_live_labels_def)

theorem verdict_follows_request_log_witness:
  "bans_now Release [(sy_utc sample_sys, ReqBan ''10.0.0.1'' None)] 0x0a000001 (sy_ktime sample_sys)"
proof -
  have card: "card (banned_addrs (request_log (LAccept # sample_live_labels))) \<le> 1024"
    by (simp add: sample_log banned_addrs_def map_filter_def bans_addr_def req_addr_def)
  have from10: "packet_from 0x0a000001 (ctx_of_packet 4096 (sample_frame 6))"
    by (simp add: packet_from_def sample_frame_ctx(2) classify_sample_frame)
  have fresh: "fresh (alist_ops 1024) (alist_ops 1024) (alist_valid 1024) (lv_sys sample_live)"
    using sample_fresh by (simp add: sample_live_def)
  from verdict_follows_request_log[OF rfc_firewall.firewall_axioms fresh sample_live_run card sample_live_verdict from10]
  show ?thesis by (simp add: sample_log sample_live_end_def sample_banned_def split: if_splits)
qed

text \<open>
  C18. Every ban was asked for: in every state the daemon reaches from empty maps, however its connections, packets and
  clock ticks interleave and even if the table has overflowed, an entry of the table belongs to an address whose last
  handled request is a ban, not an unban, and holds the end time of that ban; and there are at most
  \<open>max_entries\<close> entries. So no address is ever banned that no client asked to ban, and none stays banned after
  it was unbanned.
\<close>

theorem entries_stem_from_bans:
  assumes "firewall nh bops max_entries valid" and "fresh bops sops valid (lv_sys s)" and "live_run w nh bops sops p s ls t"
  shows "(\<forall>k v. mo_get bops (sy_bans (lv_sys t)) k = Some v \<longrightarrow>
      (\<exists>utc target ttl. last_naming k (request_log ls) = Some (utc, ReqBan target ttl) \<and>
        ends_at p utc ttl (end_time v))) \<and>
    card (dom (mo_get bops (sy_bans (lv_sys t)))) \<le> max_entries"
proof -
  have bt: "ban_table bops max_entries valid" using assms(1) by (simp add: firewall_def)
  have "ban_table.from_log bops valid p [] (sy_bans (lv_sys s))"
    using assms(2) by (simp add: fresh_def ban_table.from_log_def[OF bt])
  from firewall.from_log_run[OF assms(1,3) this]
  have v: "valid (sy_bans (lv_sys t))" and d: "mo_get bops (sy_bans (lv_sys t)) k = Some v \<Longrightarrow>
      decided p (last_naming k (request_log ls)) (Some v)" for k v
    by (simp_all add: ban_table.from_log_def[OF bt])
  show ?thesis
  proof (intro conjI allI impI)
    fix k v
    assume "mo_get bops (sy_bans (lv_sys t)) k = Some v"
    from d[OF this] show "\<exists>utc target ttl. last_naming k (request_log ls) = Some (utc, ReqBan target ttl) \<and>
        ends_at p utc ttl (end_time v)"
      by (simp add: decided_Some)
  next
    show "card (dom (mo_get bops (sy_bans (lv_sys t)))) \<le> max_entries"
      using bpf_hash_map.at_most_max v bt by (auto simp: ban_table_def)
  qed
qed

theorem entries_stem_from_bans_witness:
  "mo_get (alist_ops 1024) (sy_bans sample_banned) 0x0a000001 = Some \<lparr>end_time = 0\<rparr> \<and>
   (\<exists>utc target ttl. last_naming 0x0a000001 [(sy_utc sample_sys, ReqBan ''10.0.0.1'' None)] = Some (utc, ReqBan target ttl) \<and>
     ends_at Release utc ttl 0)"
proof -
  have e: "mo_get (alist_ops 1024) (sy_bans sample_banned) 0x0a000001 = Some \<lparr>end_time = 0\<rparr>"
    by (simp add: sample_banned_def alist_ops_def)
  have fresh: "fresh (alist_ops 1024) (alist_ops 1024) (alist_valid 1024) (lv_sys sample_live)"
    using sample_fresh by (simp add: sample_live_def)
  show ?thesis
    using entries_stem_from_bans[OF rfc_firewall.firewall_axioms fresh sample_live_run] e
    by (fastforce simp: sample_log sample_live_end_def)
qed

end
