(* ===== verification/Xdp_Counter.thy ===== *)
theory Xdp_Counter
  imports Xdp_Filter
begin

text \<open>
  The drop counter on several processors. The XDP program runs on each processor at the same time and
  \<open>STATS\<close> is one map for all of them; \<open>(*stat).packets_dropped = (*stat).packets_dropped.wrapping_add(1)\<close>
  is a plain load, an addition and a plain store. The step relation takes the load and the store of each processor
  as separate steps, in any interleaving; \<open>count_drop\<close>, which the model of the whole program uses, is the case of
  a processor that is not interrupted.
\<close>

datatype cpu_phase =
    NotCounting
  | Loaded StatsValue \<comment> \<open>between the load and the store\<close>

record 's counting =
  cn_stats :: 's
  cn_cpu :: "nat \<Rightarrow> cpu_phase"

datatype count_label =
    CAbsent nat \<comment> \<open>\<open>get_ptr_mut\<close> gives \<open>None\<close>\<close>
  | CLoad nat
  | CStore nat

inductive count_step :: "('s, StatsValue) map_ops \<Rightarrow> 's counting \<Rightarrow> count_label \<Rightarrow> 's counting \<Rightarrow> bool"
  for sops where
  c_absent:
    "cn_cpu s i = NotCounting \<Longrightarrow> mo_get sops (cn_stats s) 0 = None \<Longrightarrow> count_step sops s (CAbsent i) s"
| c_load:
    "cn_cpu s i = NotCounting \<Longrightarrow> mo_get sops (cn_stats s) 0 = Some v \<Longrightarrow>
     count_step sops s (CLoad i) (s\<lparr>cn_cpu := (cn_cpu s)(i := Loaded v)\<rparr>)"
| c_store:
    "cn_cpu s i = Loaded v \<Longrightarrow>
     count_step sops s (CStore i)
       (s\<lparr>cn_stats := mo_poke sops (cn_stats s) 0 (v\<lparr>packets_dropped := packets_dropped v + 1\<rparr>),
          cn_cpu := (cn_cpu s)(i := NotCounting)\<rparr>)"

inductive_cases absent_stepE: "count_step sops s (CAbsent i) t"
inductive_cases load_stepE: "count_step sops s (CLoad i) t"
inductive_cases store_stepE: "count_step sops s (CStore i) t"

inductive count_run :: "('s, StatsValue) map_ops \<Rightarrow> 's counting \<Rightarrow> count_label list \<Rightarrow> 's counting \<Rightarrow> bool"
  for sops where
  count_nil: "count_run sops s [] s"
| count_cons: "count_step sops s l t \<Longrightarrow> count_run sops t ls u \<Longrightarrow> count_run sops s (l # ls) u"

inductive_cases count_nilE: "count_run sops s [] t"
inductive_cases count_consE: "count_run sops s (l # ls) t"

definition idle :: "'s counting \<Rightarrow> bool" where
  "idle s \<longleftrightarrow> (\<forall>i. cn_cpu s i = NotCounting)"

text \<open>The drops counted so far, and the runs in which no processor is interrupted between load and store.\<close>

definition stores :: "count_label list \<Rightarrow> nat" where
  "stores ls = length (filter (\<lambda>l. case l of CStore _ \<Rightarrow> True | _ \<Rightarrow> False) ls)"

fun serial :: "count_label list \<Rightarrow> bool" where
  "serial [] \<longleftrightarrow> True"
| "serial (CAbsent i # ls) \<longleftrightarrow> serial ls"
| "serial (CLoad i # CStore j # ls) \<longleftrightarrow> i = j \<and> serial ls"
| "serial _ \<longleftrightarrow> False"

definition bumped :: "StatsValue \<Rightarrow> nat \<Rightarrow> StatsValue" where
  "bumped v n = v\<lparr>packets_dropped := packets_dropped v + word_of_nat n\<rparr>"

lemma stores_simps [simp]:
  "stores [] = 0" "stores (CAbsent i # ls) = stores ls" "stores (CLoad i # ls) = stores ls"
  "stores (CStore i # ls) = Suc (stores ls)"
  by (simp_all add: stores_def)

lemma bumped_0 [simp]: "bumped v 0 = v"
  by (simp add: bumped_def)

lemma bumped_Suc: "(bumped v n)\<lparr>packets_dropped := packets_dropped (bumped v n) + 1\<rparr> = bumped v (Suc n)"
  by (simp add: bumped_def)

lemma bumped_bumped: "bumped (bumped v m) n = bumped v (m + n)"
  by (simp add: bumped_def add.assoc)

text \<open>A load followed by the store of the same processor is \<open>count_drop\<close>.\<close>

lemma uninterrupted_count_drop:
  assumes "idle s" and "count_run sops s [CLoad i, CStore i] t"
  shows "cn_stats t = count_drop sops (cn_stats s) \<and> idle t"
  using assms by (auto elim!: count_consE count_nilE load_stepE store_stepE simp: idle_def count_drop_def)

section \<open>The counter under interleaving\<close>

locale drop_counter = bpf_hash_map sops max_entries valid
  for sops :: "('s, StatsValue) map_ops" and max_entries :: nat and valid :: "'s \<Rightarrow> bool"
begin

text \<open>
  The table \<open>base\<close> with the counter \<open>v\<close> moved on by some \<open>m\<close> that is at most the \<open>d\<close> stores so far and not 0 after
  the first one; every loaded value is \<open>v\<close> moved on by at most \<open>d\<close>.
\<close>

definition counter_inv :: "(u32 \<rightharpoonup> StatsValue) \<Rightarrow> StatsValue \<Rightarrow> nat \<Rightarrow> 's counting \<Rightarrow> bool" where
  "counter_inv base v d s \<longleftrightarrow>
     valid (cn_stats s) \<and>
     (\<exists>m \<le> d. (0 < d \<longrightarrow> 0 < m) \<and> mo_get sops (cn_stats s) = base(0 \<mapsto> bumped v m)) \<and>
     (\<forall>i x. cn_cpu s i = Loaded x \<longrightarrow> (\<exists>j \<le> d. x = bumped v j))"

lemma counter_inv_store:
  assumes "counter_inv base v d s" and "cn_cpu s i = Loaded x"
  shows "counter_inv base v (Suc d)
    (s\<lparr>cn_stats := mo_poke sops (cn_stats s) 0 (x\<lparr>packets_dropped := packets_dropped x + 1\<rparr>),
       cn_cpu := (cn_cpu s)(i := NotCounting)\<rparr>)"
proof -
  obtain j where j: "j \<le> d" "x = bumped v j" using assms by (auto simp: counter_inv_def)
  obtain m where m: "mo_get sops (cn_stats s) = base(0 \<mapsto> bumped v m)" "valid (cn_stats s)"
    using assms(1) by (auto simp: counter_inv_def)
  then have "valid (mo_poke sops (cn_stats s) 0 (bumped v (Suc j))) \<and>
      mo_get sops (mo_poke sops (cn_stats s) 0 (bumped v (Suc j))) = base(0 \<mapsto> bumped v (Suc j))"
    using poke_present[of "cn_stats s" 0] by simp
  moreover have "\<exists>n \<le> Suc d. y = bumped v n" if "cn_cpu s k = Loaded y" for k y
    using assms(1) that unfolding counter_inv_def by (meson le_SucI)
  ultimately show ?thesis using j by (auto simp: counter_inv_def bumped_Suc)
qed

lemma counter_inv_step:
  assumes "count_step sops s l t" and "counter_inv base v d s"
  shows "counter_inv base v (d + stores [l]) t"
  using assms
proof cases
  case (c_load i x)
  then show ?thesis using assms(2) by (auto simp: counter_inv_def)
next
  case (c_store i x)
  then show ?thesis using counter_inv_store[OF assms(2)] by simp
qed simp

lemma counter_inv_run:
  assumes "count_run sops s ls t" and "counter_inv base v d s"
  shows "counter_inv base v (d + stores ls) t"
  using assms
proof (induction arbitrary: d rule: count_run.induct)
  case (count_cons s l t ls u)
  have "counter_inv base v (d + stores [l] + stores ls) u"
    using count_cons counter_inv_step by blast
  moreover have "d + stores [l] + stores ls = d + stores (l # ls)" by (cases l) simp_all
  ultimately show ?case by simp
qed simp

lemma serial_run:
  assumes "serial ls" and "count_run sops s ls t" and "idle s" and "valid (cn_stats s)"
    and "mo_get sops (cn_stats s) 0 = Some v"
  shows "mo_get sops (cn_stats t) = (mo_get sops (cn_stats s))(0 \<mapsto> bumped v (stores ls))"
  using assms
proof (induction ls arbitrary: s v rule: serial.induct)
  case (3 i j ls)
  then obtain u where r: "count_run sops s [CLoad i, CStore i] u" and u: "count_run sops u ls t"
    by (auto elim!: count_consE intro: count_nil count_cons)
  have c: "cn_stats u = mo_poke sops (cn_stats s) 0 (bumped v (Suc 0))" and "idle u"
    using uninterrupted_count_drop[OF \<open>idle s\<close> r] 3(6) bumped_Suc[of v 0] by (simp_all add: count_drop_def)
  moreover have v: "valid (cn_stats u)" and g: "mo_get sops (cn_stats u) = (mo_get sops (cn_stats s))(0 \<mapsto> bumped v (Suc 0))"
    using poke_present[OF 3(5), of 0] 3(6) by (simp_all add: c)
  moreover have "mo_get sops (cn_stats u) 0 = Some (bumped v (Suc 0))" by (simp add: g)
  ultimately have "mo_get sops (cn_stats t) = (mo_get sops (cn_stats u))(0 \<mapsto> bumped (bumped v (Suc 0)) (stores ls))"
    using 3(1)[OF _ u] 3(2) unfolding serial.simps by blast
  then show ?case unfolding g by (simp add: bumped_bumped)
qed (auto elim!: count_consE count_nilE absent_stepE simp: fun_upd_idem)

end

interpretation alist_counter: drop_counter "alist_ops n" n "alist_valid n" for n
  by unfold_locales

section \<open>Properties\<close>

text \<open>
  C28. The drop counter on several processors: from a table with the counter present and no processor inside
  the update, after any interleaving of loads and stores the counter has gone up by at most the number of drops
  counted and, after at least one drop, by at least one; no other entry has changed; and it has gone up by exactly
  the number of drops when no update was interrupted by another.
\<close>

theorem drop_counter_bounds:
  assumes "drop_counter sops max_entries valid" and "valid (cn_stats s)" and "mo_get sops (cn_stats s) 0 = Some v"
    and "idle s" and "count_run sops s ls t"
  shows "\<exists>m \<le> stores ls. (0 < stores ls \<longrightarrow> 0 < m) \<and> (serial ls \<longrightarrow> m = stores ls) \<and>
    mo_get sops (cn_stats t) =
      (mo_get sops (cn_stats s))(0 \<mapsto> v\<lparr>packets_dropped := packets_dropped v + word_of_nat m\<rparr>)"
proof (cases "serial ls")
  case True
  from drop_counter.serial_run[OF assms(1) this assms(5,4,2,3)] show ?thesis
    by (intro exI[of _ "stores ls"]) (simp add: bumped_def)
next
  case False
  have "drop_counter.counter_inv sops valid (mo_get sops (cn_stats s)) v 0 s"
    using assms(2-4) by (auto simp: drop_counter.counter_inv_def[OF assms(1)] idle_def fun_upd_idem)
  from drop_counter.counter_inv_run[OF assms(1,5) this] show ?thesis
    using False by (auto simp: drop_counter.counter_inv_def[OF assms(1)] bumped_def)
qed

text \<open>Two processors load the counter before either stores: two drops, counted as one.\<close>

definition race_start :: "(u32 \<times> StatsValue) list counting" where
  "race_start = \<lparr>cn_stats = [(0, \<lparr>packets_dropped = 7\<rparr>)], cn_cpu = (\<lambda>_. NotCounting)\<rparr>"

definition race_end :: "(u32 \<times> StatsValue) list counting" where
  "race_end = \<lparr>cn_stats = [(0, \<lparr>packets_dropped = 8\<rparr>)], cn_cpu = (\<lambda>_. NotCounting)\<rparr>"

lemma race_run: "count_run (alist_ops 1024) race_start [CLoad 0, CLoad 1, CStore 0, CStore 1] race_end"
proof -
  let ?s1 = "race_start\<lparr>cn_cpu := (cn_cpu race_start)(0 := Loaded \<lparr>packets_dropped = 7\<rparr>)\<rparr>"
  let ?s2 = "?s1\<lparr>cn_cpu := (cn_cpu ?s1)(1 := Loaded \<lparr>packets_dropped = 7\<rparr>)\<rparr>"
  let ?s3 = "\<lparr>cn_stats = [(0, \<lparr>packets_dropped = 8\<rparr>)], cn_cpu = (cn_cpu ?s2)(0 := NotCounting)\<rparr>"
  have "count_step (alist_ops 1024) race_start (CLoad 0) ?s1" "count_step (alist_ops 1024) ?s1 (CLoad 1) ?s2"
    by (rule c_load; simp add: race_start_def alist_ops_def)+
  moreover have "count_step (alist_ops 1024) ?s2 (CStore 0) ?s3"
    using c_store[of ?s2 0 "\<lparr>packets_dropped = 7\<rparr>" "alist_ops 1024"] by (simp add: race_start_def alist_ops_def)
  moreover have "(cn_cpu ?s3)(1 := NotCounting) = (\<lambda>_. NotCounting)" by (auto simp: race_start_def)
  then have "count_step (alist_ops 1024) ?s3 (CStore 1) race_end"
    using c_store[of ?s3 1 "\<lparr>packets_dropped = 7\<rparr>" "alist_ops 1024"] by (simp add: race_end_def alist_ops_def)
  ultimately show ?thesis by (blast intro: count_cons count_nil)
qed

theorem drop_counter_bounds_witness:
  "stores [CLoad 0, CLoad 1, CStore 0, CStore 1] = 2 \<and>
   mo_get (alist_ops 1024) (cn_stats race_end) = [0 \<mapsto> \<lparr>packets_dropped = 7 + 1\<rparr>] \<and>
   (\<exists>m \<le> 2. 0 < m \<and> mo_get (alist_ops 1024) (cn_stats race_end) = [0 \<mapsto> \<lparr>packets_dropped = 7 + word_of_nat m\<rparr>])"
proof -
  have start: "alist_valid 1024 (cn_stats race_start)" "idle race_start"
      "mo_get (alist_ops 1024) (cn_stats race_start) = [0 \<mapsto> \<lparr>packets_dropped = 7\<rparr>]"
    by (simp_all add: race_start_def alist_valid_def idle_def alist_ops_def)
  then have "mo_get (alist_ops 1024) (cn_stats race_start) 0 = Some \<lparr>packets_dropped = 7\<rparr>" by simp
  from drop_counter_bounds[OF alist_counter.drop_counter_axioms start(1) this start(2) race_run]
  have "\<exists>m \<le> 2. 0 < m \<and> mo_get (alist_ops 1024) (cn_stats race_end) = [0 \<mapsto> \<lparr>packets_dropped = 7 + word_of_nat m\<rparr>]"
    by (simp add: start(3) numeral_2_eq_2)
  then show ?thesis by (simp add: race_end_def alist_ops_def)
qed

end
