(* ===== verification/Startup.thy ===== *)
theory Startup
  imports Cli
begin

text \<open>
  The start of \<open>run_daemon\<close> (\<open>rustguard/src/main.rs\<close>) and of \<open>monitor_run\<close> (\<open>monitor.rs\<close>): the sequence of
  calls into aya, tokio and the operating system, with what the code does when one fails. The calls
  are not modelled beyond whether they succeed, which is the parameter \<open>ok\<close> (for the \<open>i\<close>-th call made), and what they do
  to the file of the daemon's socket; their order and error handling are. A call whose error is ignored or logged goes on, \<open>?\<close> returns the error, \<open>unwrap\<close> and
  \<open>env_logger::init\<close> panic.
\<close>

datatype sys_op =
    InitLogger
  | SetRlimitMemlock
  | LoadEbpf
  | InitEbpfLogger
  | WatchLoggerFd
  | SpawnLogReader
  | ReadBtf
  | FindProgram string
  | ProgramTryInto string
  | LoadProgram string
  | LoadFExit string string
  | AttachXdp string string
  | AttachFExit string
  | TakeMap string
  | MapTryInto string
  | RemoveFile string
  | BindUds string
  | SetPermissions string nat
  | SpawnAccept
  | AwaitCtrlC
  | PollRing

datatype mode = Ignored | Tried | Unwrapped

datatype stmt = Do mode sys_op | IfOk sys_op "stmt list"

datatype script_result = Done | ReturnedErr sys_op | PanickedIn sys_op

type_synonym log = "(sys_op \<times> bool) list"

function exec :: "(nat \<Rightarrow> sys_op \<Rightarrow> bool) \<Rightarrow> nat \<Rightarrow> stmt list \<Rightarrow> log \<times> script_result" where
  "exec ok i [] = ([], Done)"
| "exec ok i (Do m c # ss) =
     (if ok i c \<or> m = Ignored then (case exec ok (Suc i) ss of (l, r) \<Rightarrow> ((c, ok i c) # l, r))
      else ([(c, False)], if m = Tried then ReturnedErr c else PanickedIn c))"
| "exec ok i (IfOk c body # ss) =
     (case exec ok (Suc i) (if ok i c then body @ ss else ss) of (l, r) \<Rightarrow> ((c, ok i c) # l, r))"
  by pat_completeness auto
termination by (relation "measure (\<lambda>(ok, i, ss). size_list size ss)") (auto simp: size_list_append)

text \<open>The eBPF logger: a failure to set it up is a warning, a failure to watch it returns.\<close>

definition ebpf_logger_steps :: "stmt list" where
  "ebpf_logger_steps = [IfOk InitEbpfLogger [Do Tried WatchLoggerFd, Do Ignored SpawnLogReader]]"

definition run_daemon_setup :: "string \<Rightarrow> stmt list" where
  "run_daemon_setup iface =
     [Do Unwrapped InitLogger, Do Ignored SetRlimitMemlock, Do Tried LoadEbpf] @ ebpf_logger_steps @
     [Do Unwrapped (FindProgram ''rustguard''), Do Tried (ProgramTryInto ''rustguard''),
      Do Tried (LoadProgram ''rustguard''), Do Tried (AttachXdp ''rustguard'' iface),
      Do Unwrapped (TakeMap ''BANNED_IPS''), Do Tried (MapTryInto ''BANNED_IPS''),
      Do Unwrapped (TakeMap ''STATS''), Do Tried (MapTryInto ''STATS''),
      Do Ignored (RemoveFile SOCKET_PATH), Do Tried (BindUds SOCKET_PATH),
      Do Tried (SetPermissions SOCKET_PATH 432)]" \<comment> \<open>0o660\<close>

definition run_daemon_steps :: "string \<Rightarrow> stmt list" where
  "run_daemon_steps iface =
     run_daemon_setup iface @
     [Do Ignored SpawnAccept, Do Tried AwaitCtrlC, Do Ignored (RemoveFile SOCKET_PATH)]"

definition monitor_setup :: "stmt list" where
  "monitor_setup =
     [Do Tried LoadEbpf] @ ebpf_logger_steps @
     [Do Tried ReadBtf,
      Do Unwrapped (FindProgram ''tcp_v4_connect_exit''), Do Tried (ProgramTryInto ''tcp_v4_connect_exit''),
      Do Tried (LoadFExit ''tcp_v4_connect_exit'' ''tcp_v4_connect''), Do Tried (AttachFExit ''tcp_v4_connect_exit''),
      Do Unwrapped (FindProgram ''incoming_connection''), Do Tried (ProgramTryInto ''incoming_connection''),
      Do Tried (LoadFExit ''incoming_connection'' ''inet_csk_accept''), Do Tried (AttachFExit ''incoming_connection''),
      Do Tried (TakeMap ''EVENTS''), Do Tried (MapTryInto ''EVENTS'')]"

definition monitor_run_steps :: "stmt list" where
  "monitor_run_steps = monitor_setup @ [Do Ignored PollRing]"

text \<open>
  The task that forwards the log of the kernel side: it waits until the logger is readable, unwrapping
  the result, flushes it, and clears the readiness. It goes through the results of the waits in
  order; the state \<open>'l\<close> of the logger and \<open>flush\<close> are aya's.
\<close>

fun log_reader :: "('l \<Rightarrow> 'l) \<Rightarrow> ('e + unit) list \<Rightarrow> 'l \<Rightarrow> 'l \<times> panic option" where
  "log_reader flush [] l = (l, None)"
| "log_reader flush (Inl e # rs) l = (l, Some UnwrapFailed)"
| "log_reader flush (Inr u # rs) l = log_reader flush rs (flush l)"

text \<open>It flushes once for each time the logger was readable, and ends at the first error.\<close>

lemma log_reader_flushes:
  "log_reader flush rs l =
     ((flush ^^ length (takeWhile (\<lambda>r. r = Inr ()) rs)) l,
      if \<forall>r \<in> set rs. r = Inr () then None else Some UnwrapFailed)"
  by (induction flush rs l rule: log_reader.induct) (simp_all add: funpow_swap1)

text \<open>
  The file of the daemon's socket, by its permission bits: removed, created by \<open>bind\<close> with the bits that the
  umask leaves (\<open>m0\<close>), and changed by \<open>set_permissions\<close>.
\<close>

definition socket_effect :: "nat \<Rightarrow> nat option \<Rightarrow> sys_op \<times> bool \<Rightarrow> nat option" where
  "socket_effect m0 f = (\<lambda>(c, done).
     if \<not> done then f
     else case c of
       RemoveFile path \<Rightarrow> if path = SOCKET_PATH then None else f
     | BindUds path \<Rightarrow> if path = SOCKET_PATH then Some m0 else f
     | SetPermissions path m \<Rightarrow> if path = SOCKET_PATH then map_option (\<lambda>_. m) f else f
     | _ \<Rightarrow> f)"

definition socket_file :: "nat \<Rightarrow> nat option \<Rightarrow> log \<Rightarrow> nat option" where
  "socket_file m0 f log = foldl (socket_effect m0) f log"

section \<open>Order of the calls\<close>

lemma exec_append:
  "exec ok i (xs @ ys) =
     (case exec ok i xs of
        (l, Done) \<Rightarrow> (case exec ok (i + length l) ys of (l', r) \<Rightarrow> (l @ l', r))
      | r \<Rightarrow> r)"
proof (induction ok i xs rule: exec.induct)
  case (1 ok i)
  then show ?case by (simp split: prod.split)
next
  case (2 ok i m c ss)
  then show ?case by (auto split: prod.splits script_result.splits)
next
  case (3 ok i c body ss)
  then show ?case by (auto split: prod.splits script_result.splits)
qed

text \<open>Every call whose failure is not ignored has succeeded when the script has come to its end.\<close>

lemma exec_done:
  "exec ok i ss = (l, Done) \<Longrightarrow> Do m c \<in> set ss \<Longrightarrow> m \<noteq> Ignored \<Longrightarrow> (c, True) \<in> set l"
proof (induction ok i ss arbitrary: l rule: exec.induct)
  case (2 ok i m' c' ss)
  then show ?case by (auto split: if_splits prod.splits)
next
  case (3 ok i c' body ss)
  then show ?case by (cases "ok i c'") (auto split: prod.splits)
qed simp

text \<open>The calls a script can make.\<close>

fun calls :: "stmt \<Rightarrow> sys_op set" where
  "calls (Do m c) = {c}"
| "calls (IfOk c body) = insert c (\<Union>(calls ` set body))"

lemma exec_calls: "exec ok i ss = (l, r) \<Longrightarrow> fst ` set l \<subseteq> \<Union>(calls ` set ss)"
proof (induction ok i ss arbitrary: l r rule: exec.induct)
  case (2 ok i m c ss)
  then show ?case by (fastforce split: if_splits prod.splits)
next
  case (3 ok i c body ss)
  then show ?case by (cases "ok i c") (fastforce split: prod.splits)+
qed simp

lemma exec_reached:
  assumes "exec ok i (xs @ Do Ignored c # ys) = (l, r)" and "c \<in> fst ` set l" and "c \<notin> \<Union>(calls ` set xs)"
  obtains pre post where "l = pre @ (c, ok (i + length pre) c) # post" and "exec ok i xs = (pre, Done)"
proof -
  obtain pre r1 where pre: "exec ok i xs = (pre, r1)" by (cases "exec ok i xs")
  obtain post r2 where post: "exec ok (Suc (i + length pre)) ys = (post, r2)" by (cases "exec ok (Suc (i + length pre)) ys")
  have "c \<notin> fst ` set pre" using exec_calls[OF pre] assms(3) by auto
  then have "r1 = Done" using assms(1,2) pre by (auto simp: exec_append split: script_result.splits)
  then have "l = pre @ (c, ok (i + length pre) c) # post" using pre post assms(1) by (simp add: exec_append)
  then show ?thesis using that pre \<open>r1 = Done\<close> by simp
qed

lemma exec_failed:
  "exec ok i ss = (l, r) \<Longrightarrow> r = ReturnedErr c \<or> r = PanickedIn c \<Longrightarrow> c \<in> \<Union>(calls ` set ss)"
proof (induction ok i ss arbitrary: l rule: exec.induct)
  case (2 ok i m c' ss)
  then show ?case by (fastforce split: if_splits prod.splits)
next
  case (3 ok i c' body ss)
  then show ?case by (cases "ok i c'") (fastforce split: prod.splits)+
qed auto

text \<open>The calls of the daemon before it touches its socket, and from there on.\<close>

definition before_socket :: "string \<Rightarrow> stmt list" where
  "before_socket iface = take (length (run_daemon_setup iface) - 3) (run_daemon_setup iface)"

definition socket_steps :: "stmt list" where
  "socket_steps =
     [Do Ignored (RemoveFile SOCKET_PATH), Do Tried (BindUds SOCKET_PATH), Do Tried (SetPermissions SOCKET_PATH 432),
      Do Ignored SpawnAccept, Do Tried AwaitCtrlC, Do Ignored (RemoveFile SOCKET_PATH)]"

lemma run_daemon_split: "run_daemon_steps iface = before_socket iface @ socket_steps"
  by (simp add: run_daemon_steps_def run_daemon_setup_def before_socket_def socket_steps_def ebpf_logger_steps_def)

lemma before_socket_calls:
  "{SpawnAccept, AwaitCtrlC, SetPermissions SOCKET_PATH 432} \<inter> \<Union>(calls ` set (before_socket iface)) = {}"
  by (auto simp: before_socket_def run_daemon_setup_def ebpf_logger_steps_def)

text \<open>What is left of the file, from the outcomes of the last calls.\<close>

lemma socket_steps_file:
  assumes "exec ok i socket_steps = (l, r)"
  shows "(\<forall>pre b post. l = pre @ (SpawnAccept, b) # post \<longrightarrow> socket_file m0 f pre = Some 432)"
    and "r = Done \<Longrightarrow> l \<noteq> [] \<and> socket_file m0 f l = (if snd (last l) then None else Some 432)"
    and "r = ReturnedErr (SetPermissions SOCKET_PATH 432) \<Longrightarrow> socket_file m0 f l = Some m0"
    and "r = ReturnedErr AwaitCtrlC \<Longrightarrow> socket_file m0 f l = Some 432"
  using assms
  by (auto simp: socket_steps_def socket_file_def socket_effect_def Cons_eq_append_conv append_eq_Cons_conv
      split: if_splits)

section \<open>Properties\<close>

text \<open>
  C32. The daemon takes requests only when it is fully set up: in every execution, whichever calls fail,
  when the task that accepts connections is started, the filter is attached to the interface, both maps
  are open, and the socket is bound with mode 0660. The monitor likewise polls the ring only after both
  tracing programs are attached.
\<close>

theorem serves_only_when_ready:
  "(\<forall>log r. exec ok 0 (run_daemon_steps iface) = (log, r) \<and> SpawnAccept \<in> fst ` set log \<longrightarrow>
      (\<exists>pre b post. log = pre @ (SpawnAccept, b) # post \<and>
         {(AttachXdp ''rustguard'' iface, True), (MapTryInto ''BANNED_IPS'', True), (MapTryInto ''STATS'', True),
          (BindUds SOCKET_PATH, True), (SetPermissions SOCKET_PATH 432, True)} \<subseteq> set pre)) \<and>
   (\<forall>log r. exec ok 0 monitor_run_steps = (log, r) \<and> PollRing \<in> fst ` set log \<longrightarrow>
      (\<exists>pre b post. log = pre @ (PollRing, b) # post \<and>
         {(AttachFExit ''tcp_v4_connect_exit'', True), (AttachFExit ''incoming_connection'', True)} \<subseteq> set pre))"
proof (intro conjI allI impI; elim conjE)
  fix log r
  assume e: "exec ok 0 (run_daemon_steps iface) = (log, r)" and s: "SpawnAccept \<in> fst ` set log"
  obtain pre b post where l: "log = pre @ (SpawnAccept, b) # post"
    and d: "exec ok 0 (run_daemon_setup iface) = (pre, Done)"
  proof (rule exec_reached[OF _ s])
    show "exec ok 0 (run_daemon_setup iface @ Do Ignored SpawnAccept #
        [Do Tried AwaitCtrlC, Do Ignored (RemoveFile SOCKET_PATH)]) = (log, r)"
      using e by (simp add: run_daemon_steps_def)
    show "SpawnAccept \<notin> \<Union>(calls ` set (run_daemon_setup iface))"
      by (simp add: run_daemon_setup_def ebpf_logger_steps_def)
  qed
  note m = exec_done[OF d, of Tried]
  show "\<exists>pre b post. log = pre @ (SpawnAccept, b) # post \<and>
      {(AttachXdp ''rustguard'' iface, True), (MapTryInto ''BANNED_IPS'', True), (MapTryInto ''STATS'', True),
       (BindUds SOCKET_PATH, True), (SetPermissions SOCKET_PATH 432, True)} \<subseteq> set pre"
    using l m by (intro exI[of _ pre] exI[of _ b] exI[of _ post]) (simp add: run_daemon_setup_def)
next
  fix log r
  assume e: "exec ok 0 monitor_run_steps = (log, r)" and s: "PollRing \<in> fst ` set log"
  obtain pre b post where l: "log = pre @ (PollRing, b) # post"
    and d: "exec ok 0 monitor_setup = (pre, Done)"
  proof (rule exec_reached[OF _ s])
    show "exec ok 0 (monitor_setup @ Do Ignored PollRing # []) = (log, r)"
      using e by (simp add: monitor_run_steps_def)
    show "PollRing \<notin> \<Union>(calls ` set monitor_setup)"
      by (simp add: monitor_setup_def ebpf_logger_steps_def)
  qed
  note m = exec_done[OF d, of Tried]
  show "\<exists>pre b post. log = pre @ (PollRing, b) # post \<and>
      {(AttachFExit ''tcp_v4_connect_exit'', True), (AttachFExit ''incoming_connection'', True)} \<subseteq> set pre"
    using l m by (intro exI[of _ pre] exI[of _ b] exI[of _ post]) (simp add: monitor_setup_def)
qed

theorem serves_only_when_ready_witness:
  "\<exists>log r pre b post. exec (\<lambda>i c. c \<noteq> InitEbpfLogger) 0 (run_daemon_steps ''eth0'') = (log, r) \<and>
     log = pre @ (SpawnAccept, b) # post \<and> (AttachXdp ''rustguard'' ''eth0'', True) \<in> set pre"
proof -
  obtain log r where e: "exec (\<lambda>i c. c \<noteq> InitEbpfLogger) 0 (run_daemon_steps ''eth0'') = (log, r)"
    by (cases "exec (\<lambda>i c. c \<noteq> InitEbpfLogger) 0 (run_daemon_steps ''eth0'')")
  then have "SpawnAccept \<in> fst ` set log"
    by (auto simp: run_daemon_steps_def run_daemon_setup_def ebpf_logger_steps_def)
  with e show ?thesis
    using conjunct1[OF serves_only_when_ready[of "\<lambda>i c. c \<noteq> InitEbpfLogger" "''eth0''"]] by fastforce
qed

text \<open>
  C33. The life of the daemon's socket file: whenever the daemon starts to accept connections the file exists
  with exactly the mode 0660; when the daemon ends in order it has removed the file, if that call succeeds.
  When \<open>set_permissions\<close> fails, the file stays behind with the mode the umask gave it, and when waiting for
  Ctrl-C fails, it stays behind with mode 0660.
\<close>

theorem socket_file_lifecycle:
  assumes "exec ok 0 (run_daemon_steps iface) = (log, r)"
  shows "(\<forall>pre b post. log = pre @ (SpawnAccept, b) # post \<longrightarrow> socket_file m0 f pre = Some 432) \<and>
    (r = Done \<longrightarrow> socket_file m0 f log = (if snd (last log) then None else Some 432)) \<and>
    (r = ReturnedErr (SetPermissions SOCKET_PATH 432) \<longrightarrow> socket_file m0 f log = Some m0) \<and>
    (r = ReturnedErr AwaitCtrlC \<longrightarrow> socket_file m0 f log = Some 432)"
proof -
  obtain l1 r1 where e1: "exec ok 0 (before_socket iface) = (l1, r1)" by (cases "exec ok 0 (before_socket iface)")
  have no: "SpawnAccept \<notin> fst ` set l1" using exec_calls[OF e1] before_socket_calls[of iface] by blast
  show ?thesis
  proof (cases "r1 = Done")
    case False
    then have lr: "log = l1" "r = r1" using assms e1 by (auto simp: run_daemon_split exec_append split: script_result.splits)
    moreover have "r1 \<noteq> ReturnedErr (SetPermissions SOCKET_PATH 432)" "r1 \<noteq> ReturnedErr AwaitCtrlC"
      using exec_failed[OF e1] before_socket_calls[of iface] by blast+
    ultimately show ?thesis using no False by fastforce
  next
    case True
    obtain l2 where e2: "exec ok (length l1) socket_steps = (l2, r)" and log: "log = l1 @ l2"
      using assms e1 True by (auto simp: run_daemon_split exec_append split: prod.splits)
    have split: "socket_file m0 f (l1 @ xs) = socket_file m0 (socket_file m0 f l1) xs" for xs by (simp add: socket_file_def)
    note at_end = socket_steps_file[OF e2, of m0 "socket_file m0 f l1"]
    have "socket_file m0 f pre = Some 432" if reached: "log = pre @ (SpawnAccept, b) # post" for pre b post
    proof -
      obtain us where "pre = l1 @ us" "l2 = us @ (SpawnAccept, b) # post"
        using reached no log by (fastforce simp: append_eq_append_conv2 Cons_eq_append_conv)
      then show ?thesis using at_end(1) split by simp
    qed
    then show ?thesis using at_end(2-4) split log by auto
  qed
qed

theorem socket_file_lifecycle_witness:
  "socket_file 493 (Some 0) (fst (exec (\<lambda>i c. c \<noteq> SetPermissions SOCKET_PATH 432) 0 (run_daemon_steps ''eth0''))) = Some 493"
proof -
  let ?ok = "\<lambda>(i :: nat) c. c \<noteq> SetPermissions SOCKET_PATH 432"
  obtain log r where e: "exec ?ok 0 (run_daemon_steps ''eth0'') = (log, r)" by (cases "exec ?ok 0 (run_daemon_steps ''eth0'')")
  then have "r = ReturnedErr (SetPermissions SOCKET_PATH 432)"
    by (auto simp: run_daemon_steps_def run_daemon_setup_def ebpf_logger_steps_def)
  then show ?thesis using socket_file_lifecycle[OF e] e by simp
qed

end
