(* ===== verification/Kernel_Helpers.thy ===== *)
theory Kernel_Helpers
  imports Net_Event
begin

unbundle bit_operations_syntax

text \<open>
  The wrappers around the BPF helpers of \<open>rustguard-ebpf/src/kernel.rs\<close>. The helpers are kernel code:
  what they return during one run of a probe is the record \<open>helpers\<close>, a parameter of the model.
  \<open>bpf_probe_read_kernel\<close> reads a number of bytes at an address or fails with an error code.
\<close>

record helpers =
  bpf_ktime_get_ns :: u64
  bpf_get_current_pid_tgid :: u64
  bpf_get_current_uid_gid :: u64
  bpf_get_current_comm :: "i32 + bytes"
  bpf_get_socket_cookie :: "u64 \<Rightarrow> u64"
  bpf_probe_read_kernel :: "u64 \<Rightarrow> nat \<Rightarrow> i64 + bytes"

definition timestamp_ns :: "helpers \<Rightarrow> u64" where
  "timestamp_ns h = bpf_ktime_get_ns h"

definition pid :: "helpers \<Rightarrow> u32" where
  "pid h = ucast (drop_bit 32 (bpf_get_current_pid_tgid h))"

definition tid :: "helpers \<Rightarrow> u32" where
  "tid h = ucast (bpf_get_current_pid_tgid h)"

definition uid :: "helpers \<Rightarrow> u32" where
  "uid h = ucast (bpf_get_current_uid_gid h)"

definition pid_tgid :: "helpers \<Rightarrow> u64" where
  "pid_tgid h = bpf_get_current_pid_tgid h"

definition current_comm :: "helpers \<Rightarrow> i32 + bytes" where
  "current_comm h = bpf_get_current_comm h"

definition socket_cookie :: "helpers \<Rightarrow> u64 \<Rightarrow> u64" where
  "socket_cookie h ctx_ptr = bpf_get_socket_cookie h ctx_ptr"

definition ns_since :: "helpers \<Rightarrow> u64 \<Rightarrow> u64" where
  "ns_since h start = timestamp_ns h - start"

definition is_zero_cookie :: "u64 \<Rightarrow> bool" where
  "is_zero_cookie cookie \<longleftrightarrow> cookie = 0"

text \<open>The loop of \<open>comm_to_str\<close>: the index of the first zero byte from \<open>i\<close> on, or the length of the array.\<close>

function comm_len :: "bytes \<Rightarrow> nat \<Rightarrow> nat" where
  "comm_len comm i =
     (if i < TASK_COMM_LEN then if comm ! i = 0 then i else comm_len comm (i + 1) else TASK_COMM_LEN)"
  by auto
termination by (relation "measure (\<lambda>(comm, i). TASK_COMM_LEN - i)") auto

declare comm_len.simps [simp del]

definition comm_to_str :: "bytes \<Rightarrow> bytes" where
  "comm_to_str comm = take (comm_len comm 0) comm"

lemma comm_len_takeWhile:
  assumes "length comm = TASK_COMM_LEN" and "i \<le> TASK_COMM_LEN"
  shows "comm_len comm i = i + length (takeWhile (\<lambda>b. b \<noteq> 0) (drop i comm))"
  using assms
proof (induction comm i rule: comm_len.induct)
  case (1 comm i)
  show ?case
  proof (cases "i < TASK_COMM_LEN")
    case True
    then have "drop i comm = comm ! i # drop (Suc i) comm" using 1(2) by (simp add: Cons_nth_drop_Suc)
    then show ?thesis using True 1 by (simp add: comm_len.simps[of comm i])
  qed (use 1 in \<open>simp add: comm_len.simps\<close>)
qed

lemma takeWhile_eq_take_length: "take (length (takeWhile P xs)) xs = takeWhile P xs"
  by (induction xs) simp_all

text \<open>The process and thread ids are the two halves of \<open>pid_tgid\<close>: together they give it back.\<close>

lemma pid_tid_halves: "push_bit 32 (ucast (pid h)) OR ucast (tid h) = pid_tgid h"
  by (intro bit_word_eqI) (auto simp: pid_def tid_def pid_tgid_def bit_simps)

section \<open>Properties\<close>

text \<open>
  \<open>comm_to_str\<close> terminates on every array and returns the bytes before the first zero byte, the whole
  array when it has none.
\<close>

theorem comm_to_str_prefix:
  assumes "length comm = TASK_COMM_LEN"
  shows "comm_to_str comm = takeWhile (\<lambda>b. b \<noteq> 0) comm"
  using comm_len_takeWhile[OF assms, of 0] by (simp add: comm_to_str_def takeWhile_eq_take_length)

theorem comm_to_str_prefix_witness:
  "comm_to_str (map (\<lambda>c. of_char c) ''curl'' @ replicate 12 0) = map (\<lambda>c. of_char c) ''curl''"
  by (subst comm_to_str_prefix) (simp_all add: TASK_COMM_LEN_def)

end
