(* ===== verification/Bindgen_Bitfield.thy ===== *)
theory Bindgen_Bitfield
  imports Repr_C Net_Event
begin

unbundle bit_operations_syntax

text \<open>
  The bitfield runtime at the head of \<open>rustguard-ebpf/src/vmlinux.rs\<close>
  (\<open>__BindgenBitfieldUnit\<close>): reading and writing a range of bits of a byte array, once through
  \<open>&self\<close> and once through a raw pointer, on both byte orders.

  A failed \<open>debug_assert!\<close> and an index outside the storage are errors of the safe methods; an access
  outside the storage through the raw pointer is undefined behaviour (\<open>WildAccess\<close>). Both storages
  satisfy the locale \<open>bit_cells\<close>, in which the loops of \<open>get\<close> and \<open>set\<close> are verified once.
\<close>

datatype bit_error = DebugAssertFailed | IndexOutOfBounds | WildAccess

definition debug_assert :: "profile \<Rightarrow> bool \<Rightarrow> bit_error + unit" where
  "debug_assert p c = (if p = Dev \<and> \<not> c then Inl DebugAssertFailed else Inr ())"

definition bit_index_of :: "endian \<Rightarrow> nat \<Rightarrow> nat" where
  "bit_index_of en index = (case en of BigEndian \<Rightarrow> 7 - index mod 8 | LittleEndian \<Rightarrow> index mod 8)"

definition extract_bit :: "endian \<Rightarrow> u8 \<Rightarrow> nat \<Rightarrow> bool" where
  "extract_bit en byte index = (let mask = push_bit (bit_index_of en index) 1 in byte AND mask = mask)"

definition change_bit :: "endian \<Rightarrow> u8 \<Rightarrow> nat \<Rightarrow> bool \<Rightarrow> u8" where
  "change_bit en byte index val =
     (let mask = push_bit (bit_index_of en index) 1 in if val then byte OR mask else byte AND NOT mask)"

section \<open>Bits of a byte array\<close>

definition get_bit :: "profile \<Rightarrow> endian \<Rightarrow> bytes \<Rightarrow> nat \<Rightarrow> bit_error + bool" where
  "get_bit p en storage index =
     res_bind (debug_assert p (index div 8 < length storage)) (\<lambda>_.
       if index div 8 < length storage then Inr (extract_bit en (storage ! (index div 8)) index)
       else Inl IndexOutOfBounds)"

definition set_bit :: "profile \<Rightarrow> endian \<Rightarrow> bytes \<Rightarrow> nat \<Rightarrow> bool \<Rightarrow> bit_error + bytes" where
  "set_bit p en storage index val =
     res_bind (debug_assert p (index div 8 < length storage)) (\<lambda>_.
       if index div 8 < length storage
       then Inr (storage[index div 8 := change_bit en (storage ! (index div 8)) index val])
       else Inl IndexOutOfBounds)"

text \<open>The raw methods: \<open>this\<close> points to \<open>n\<close> bytes of storage in the memory \<open>m\<close>.\<close>

type_synonym memory = "nat \<Rightarrow> u8"

definition raw_get_bit :: "profile \<Rightarrow> endian \<Rightarrow> nat \<Rightarrow> nat \<Rightarrow> memory \<Rightarrow> nat \<Rightarrow> bit_error + bool" where
  "raw_get_bit p en n this m index =
     res_bind (debug_assert p (index div 8 < n)) (\<lambda>_.
       if index div 8 < n then Inr (extract_bit en (m (this + index div 8)) index) else Inl WildAccess)"

definition raw_set_bit ::
  "profile \<Rightarrow> endian \<Rightarrow> nat \<Rightarrow> nat \<Rightarrow> memory \<Rightarrow> nat \<Rightarrow> bool \<Rightarrow> bit_error + memory" where
  "raw_set_bit p en n this m index val =
     res_bind (debug_assert p (index div 8 < n)) (\<lambda>_.
       if index div 8 < n
       then Inr (m(this + index div 8 := change_bit en (m (this + index div 8)) index val))
       else Inl WildAccess)"

section \<open>Ranges of bits\<close>

text \<open>The index of bit \<open>i\<close> of a value of \<open>w\<close> bits; \<open>1 << index\<close> on \<open>u64\<close> shifts modulo 64 in a release build.\<close>

definition val_index :: "endian \<Rightarrow> nat \<Rightarrow> nat \<Rightarrow> nat" where
  "val_index en w i = (case en of BigEndian \<Rightarrow> w - 1 - i | LittleEndian \<Rightarrow> i)"

definition shl_one :: "nat \<Rightarrow> u64" where
  "shl_one i = push_bit (i mod 64) 1"

fun get_loop :: "endian \<Rightarrow> nat \<Rightarrow> (nat \<Rightarrow> bit_error + bool) \<Rightarrow> nat list \<Rightarrow> u64 \<Rightarrow> bit_error + u64" where
  "get_loop en w rd [] val = Inr val"
| "get_loop en w rd (i # is) val =
     res_bind (rd i) (\<lambda>b. get_loop en w rd is (if b then val OR shl_one (val_index en w i) else val))"

fun set_loop ::
  "endian \<Rightarrow> nat \<Rightarrow> ('m \<Rightarrow> nat \<Rightarrow> bool \<Rightarrow> bit_error + 'm) \<Rightarrow> u64 \<Rightarrow> nat list \<Rightarrow> 'm \<Rightarrow> bit_error + 'm" where
  "set_loop en w wr val [] m = Inr m"
| "set_loop en w wr val (i # is) m =
     (let mask = shl_one i; val_bit_is_set = (val AND mask = mask)
      in res_bind (wr m (val_index en w i) val_bit_is_set) (\<lambda>m'. set_loop en w wr val is m'))"

definition range_asserts :: "profile \<Rightarrow> nat \<Rightarrow> nat \<Rightarrow> nat \<Rightarrow> bit_error + unit" where
  "range_asserts p n bit_offset bit_width =
     res_bind (debug_assert p (bit_width \<le> 64)) (\<lambda>_.
     res_bind (debug_assert p (bit_offset div 8 < n)) (\<lambda>_.
       debug_assert p ((bit_offset + bit_width) div 8 \<le> n)))"

definition unit_get :: "profile \<Rightarrow> endian \<Rightarrow> bytes \<Rightarrow> nat \<Rightarrow> nat \<Rightarrow> bit_error + u64" where
  "unit_get p en storage bit_offset bit_width =
     res_bind (range_asserts p (length storage) bit_offset bit_width) (\<lambda>_.
       get_loop en bit_width (\<lambda>i. get_bit p en storage (i + bit_offset)) [0..<bit_width] 0)"

definition unit_set :: "profile \<Rightarrow> endian \<Rightarrow> bytes \<Rightarrow> nat \<Rightarrow> nat \<Rightarrow> u64 \<Rightarrow> bit_error + bytes" where
  "unit_set p en storage bit_offset bit_width val =
     res_bind (range_asserts p (length storage) bit_offset bit_width) (\<lambda>_.
       set_loop en bit_width (\<lambda>st index b. set_bit p en st (index + bit_offset) b) val [0..<bit_width] storage)"

definition raw_get :: "profile \<Rightarrow> endian \<Rightarrow> nat \<Rightarrow> nat \<Rightarrow> memory \<Rightarrow> nat \<Rightarrow> nat \<Rightarrow> bit_error + u64" where
  "raw_get p en n this m bit_offset bit_width =
     res_bind (range_asserts p n bit_offset bit_width) (\<lambda>_.
       get_loop en bit_width (\<lambda>i. raw_get_bit p en n this m (i + bit_offset)) [0..<bit_width] 0)"

definition raw_set :: "profile \<Rightarrow> endian \<Rightarrow> nat \<Rightarrow> nat \<Rightarrow> memory \<Rightarrow> nat \<Rightarrow> nat \<Rightarrow> u64 \<Rightarrow> bit_error + memory" where
  "raw_set p en n this m bit_offset bit_width val =
     res_bind (range_asserts p n bit_offset bit_width) (\<lambda>_.
       set_loop en bit_width (\<lambda>m index b. raw_set_bit p en n this m (index + bit_offset) b) val [0..<bit_width] m)"

section \<open>Single bits\<close>

lemma bit_index_less: "bit_index_of en i < 8"
  by (cases en) (simp_all add: bit_index_of_def less_Suc_eq_le)

lemma bit_index_inject:
  "i div 8 = j div 8 \<Longrightarrow> bit_index_of en i = bit_index_of en j \<Longrightarrow> i = j"
proof -
  assume d: "i div 8 = j div 8" and "bit_index_of en i = bit_index_of en j"
  moreover have "i mod 8 < 8" "j mod 8 < 8" by simp_all
  ultimately have "i mod 8 = j mod 8" by (simp add: bit_index_of_def split: endian.splits)
  with d show "i = j" by (metis div_mod_decomp)
qed

lemma cell_neq: "i \<noteq> j \<Longrightarrow> j div 8 \<noteq> i div 8 \<or> bit_index_of en j \<noteq> bit_index_of en i"
  using bit_index_inject[of i j en] by auto

lemma and_mask_eq: "k < LENGTH('a) \<Longrightarrow> (x :: 'a::len word) AND 2 ^ k = 2 ^ k \<longleftrightarrow> bit x k"
proof
  assume k: "k < LENGTH('a)" and "x AND 2 ^ k = 2 ^ k"
  then have "bit (x AND 2 ^ k) k" by (simp add: bit_exp_iff)
  then show "bit x k" by (simp add: bit_and_iff)
next
  assume "bit x k"
  then show "x AND 2 ^ k = 2 ^ k"
    by (intro bit_word_eqI) (auto simp: bit_and_iff bit_exp_iff)
qed

lemma extract_bit_eq: "extract_bit en byte i = bit byte (bit_index_of en i)"
  using bit_index_less[of en i] by (simp add: extract_bit_def Let_def and_mask_eq)

lemma bit_change_bit:
  "j < 8 \<Longrightarrow> bit (change_bit en byte i v) j = (if j = bit_index_of en i then v else bit byte j)"
  using bit_index_less[of en i] by (auto simp: change_bit_def Let_def bit_simps)

lemma debug_assert_ok [simp]: "c \<Longrightarrow> debug_assert p c = Inr ()"
  by (simp add: debug_assert_def)

lemma range_asserts_ok:
  "bit_width \<le> 64 \<Longrightarrow> 0 < bit_width \<Longrightarrow> bit_offset + bit_width \<le> 8 * n \<Longrightarrow>
     range_asserts p n bit_offset bit_width = Inr ()"
  unfolding range_asserts_def by simp

lemma bit_shl_one: "i < 64 \<Longrightarrow> bit (shl_one i) j \<longleftrightarrow> j = i"
  by (auto simp: shl_one_def bit_simps)

lemma and_shl_one: "i < 64 \<Longrightarrow> v AND shl_one i = shl_one i \<longleftrightarrow> bit v i"
  using and_mask_eq[of i v] by (simp add: shl_one_def)

lemma val_index_less: "i < w \<Longrightarrow> val_index en w i < w"
  by (cases en) (simp_all add: val_index_def)

lemma val_index_invol: "i < w \<Longrightarrow> val_index en w (val_index en w i) = i"
  by (cases en) (simp_all add: val_index_def)

lemma val_index_eq: "i < w \<Longrightarrow> j < w \<Longrightarrow> val_index en w i = j \<longleftrightarrow> i = val_index en w j"
  using val_index_invol by metis

section \<open>Any storage of bits\<close>

text \<open>
  A storage of \<open>n\<close> bits: reading inside it returns the bit, writing inside it succeeds, keeps the
  storage well formed and changes that bit alone.
\<close>

locale bit_cells =
  fixes rd :: "'m \<Rightarrow> nat \<Rightarrow> bit_error + bool" and wr :: "'m \<Rightarrow> nat \<Rightarrow> bool \<Rightarrow> bit_error + 'm"
    and bits :: "'m \<Rightarrow> nat \<Rightarrow> bool" and inv :: "'m \<Rightarrow> bool" and n :: nat
  assumes rd_bit: "inv m \<Longrightarrow> i < n \<Longrightarrow> rd m i = Inr (bits m i)"
    and wr_bit: "inv m \<Longrightarrow> i < n \<Longrightarrow> \<exists>m'. wr m i v = Inr m' \<and> inv m' \<and> bits m' = (bits m)(i := v)"
begin

lemma get_loop_bits:
  assumes "inv m" and "off + w \<le> n" and "w \<le> 64" and "set is \<subseteq> {..<w}"
  shows "\<exists>v. get_loop en w (\<lambda>i. rd m (i + off)) is val = Inr v \<and>
    (\<forall>j. bit v j \<longleftrightarrow> bit val j \<or> (\<exists>i \<in> set is. j = val_index en w i \<and> bits m (i + off)))"
  using assms(4)
proof (induction "is" arbitrary: val)
  case (Cons i "is")
  then have i: "i < w" by simp
  then have rd: "rd m (i + off) = Inr (bits m (i + off))" using assms by (intro rd_bit) auto
  have "val_index en w i < 64" using val_index_less[OF i, of en] assms(3) by simp
  then show ?case
    using Cons.IH[of "if bits m (i + off) then val OR shl_one (val_index en w i) else val"] Cons.prems
    by (auto simp: rd bit_or_iff bit_shl_one)
qed simp

lemma set_loop_bits:
  assumes "off + w \<le> n" and "w \<le> 64" and "set is \<subseteq> {..<w}" and "inv m"
  shows "\<exists>m'. set_loop en w (\<lambda>m i b. wr m (i + off) b) val is m = Inr m' \<and> inv m' \<and>
    (\<forall>k. bits m' k \<longleftrightarrow> (if \<exists>i \<in> set is. k = val_index en w i + off
       then bit val (val_index en w (k - off)) else bits m k))"
  using assms(3,4)
proof (induction "is" arbitrary: m)
  case (Cons i "is")
  then have i: "i < w" by simp
  have vi: "val_index en w i < w" by (rule val_index_less[OF i])
  obtain m1 where wr: "wr m (val_index en w i + off) (bit val i) = Inr m1" and "inv m1"
    and m1: "bits m1 = (bits m)(val_index en w i + off := bit val i)"
    using wr_bit[OF Cons.prems(2), of "val_index en w i + off" "bit val i"] vi assms(1) by auto
  moreover have "val AND shl_one i = shl_one i \<longleftrightarrow> bit val i" using i assms(2) by (intro and_shl_one) simp
  moreover have "val_index en w (val_index en w i) = i" by (rule val_index_invol[OF i])
  ultimately show ?case
    using Cons.IH[of m1] Cons.prems by (auto simp: Let_def)
qed simp

lemma val_index_range: "(\<exists>i \<in> {..<w}. k = val_index en w i + off) \<longleftrightarrow> off \<le> k \<and> k < off + w"
proof
  assume "off \<le> k \<and> k < off + w"
  then have "k - off < w" "k = val_index en w (val_index en w (k - off)) + off"
    using val_index_invol[of "k - off" w en] by auto
  then show "\<exists>i \<in> {..<w}. k = val_index en w i + off"
    using val_index_less[of "k - off" w en] by blast
qed (use val_index_less[of _ w en] in force)

lemma get_bits:
  assumes "inv m" and "off + w \<le> n" and "w \<le> 64"
  shows "\<exists>v. get_loop en w (\<lambda>i. rd m (i + off)) [0..<w] 0 = Inr v \<and>
    (\<forall>j. bit v j \<longleftrightarrow> j < w \<and> bits m (val_index en w j + off))"
proof -
  have "(\<exists>i \<in> {0..<w}. j = val_index en w i \<and> bits m (i + off)) \<longleftrightarrow> j < w \<and> bits m (val_index en w j + off)" for j
    using val_index_less[of _ w en] val_index_invol[of _ w en]
    by (metis atLeastLessThan_iff zero_le)
  moreover have "set [0..<w] \<subseteq> {..<w}" by auto
  ultimately show ?thesis using get_loop_bits[OF assms, of "[0..<w]" en 0] by simp
qed

lemma set_bits:
  assumes "inv m" and "off + w \<le> n" and "w \<le> 64"
  shows "\<exists>m'. set_loop en w (\<lambda>m i b. wr m (i + off) b) val [0..<w] m = Inr m' \<and> inv m' \<and>
    (\<forall>k. bits m' k \<longleftrightarrow> (if off \<le> k \<and> k < off + w then bit val (val_index en w (k - off)) else bits m k))"
proof -
  have "(\<exists>i \<in> {0..<w}. k = val_index en w i + off) \<longleftrightarrow> off \<le> k \<and> k < off + w" for k
    using val_index_range[where k = k and w = w and en = en and off = off] by (simp add: atLeast0LessThan)
  moreover have "set [0..<w] \<subseteq> {..<w}" by auto
  ultimately show ?thesis using set_loop_bits[OF assms(2,3) _ assms(1), of "[0..<w]" en val] by simp
qed

text \<open>A range holds what was written to it, truncated to its width; other ranges keep what they hold.\<close>

lemma get_set_same:
  assumes "inv m" and "off + w \<le> n" and "w \<le> 64"
  shows "\<exists>m'. set_loop en w (\<lambda>m i b. wr m (i + off) b) val [0..<w] m = Inr m' \<and> inv m' \<and>
    (\<forall>k. k < off \<or> off + w \<le> k \<longrightarrow> bits m' k = bits m k) \<and>
    get_loop en w (\<lambda>i. rd m' (i + off)) [0..<w] 0 = Inr (take_bit w val)"
proof -
  obtain m' where m': "set_loop en w (\<lambda>m i b. wr m (i + off) b) val [0..<w] m = Inr m'" "inv m'"
    and b: "\<And>k. bits m' k \<longleftrightarrow> (if off \<le> k \<and> k < off + w then bit val (val_index en w (k - off)) else bits m k)"
    using set_bits[OF assms, of en val] by blast
  obtain v where v: "get_loop en w (\<lambda>i. rd m' (i + off)) [0..<w] 0 = Inr v"
    and "\<And>j. bit v j \<longleftrightarrow> j < w \<and> bits m' (val_index en w j + off)"
    using get_bits[OF m'(2) assms(2,3), of en] by blast
  then have "bit v j \<longleftrightarrow> j < w \<and> bit val j" for j
    using b val_index_less[of j w en] val_index_invol[of j w en] by auto
  then have "v = take_bit w val" by (intro bit_word_eqI) (simp add: bit_take_bit_iff)
  then show ?thesis using m' v b by auto
qed

lemma get_eq:
  assumes "inv m" and "inv m'" and "off + w \<le> n" and "w \<le> 64"
    and "\<And>k. off \<le> k \<Longrightarrow> k < off + w \<Longrightarrow> bits m' k = bits m k"
  shows "get_loop en w (\<lambda>i. rd m' (i + off)) [0..<w] 0 = get_loop en w (\<lambda>i. rd m (i + off)) [0..<w] 0"
proof -
  obtain v where v: "get_loop en w (\<lambda>i. rd m (i + off)) [0..<w] 0 = Inr v"
    and bv: "\<And>j. bit v j \<longleftrightarrow> j < w \<and> bits m (val_index en w j + off)"
    using get_bits[OF assms(1,3,4), of en] by blast
  obtain u where u: "get_loop en w (\<lambda>i. rd m' (i + off)) [0..<w] 0 = Inr u"
    and bu: "\<And>j. bit u j \<longleftrightarrow> j < w \<and> bits m' (val_index en w j + off)"
    using get_bits[OF assms(2,3,4), of en] by blast
  have "bit u j = bit v j" for j
    using bu[of j] bv[of j] assms(5)[of "val_index en w j + off"] val_index_less[of j w en] by auto
  then have "u = v" by (intro bit_word_eqI)
  then show ?thesis using u v by simp
qed

end

section \<open>The two storages\<close>

definition storage_bits :: "endian \<Rightarrow> bytes \<Rightarrow> nat \<Rightarrow> bool" where
  "storage_bits en st i \<longleftrightarrow> i div 8 < length st \<and> bit (st ! (i div 8)) (bit_index_of en i)"

definition memory_bits :: "endian \<Rightarrow> nat \<Rightarrow> memory \<Rightarrow> nat \<Rightarrow> bool" where
  "memory_bits en this m i = bit (m (this + i div 8)) (bit_index_of en i)"

interpretation safe: bit_cells "get_bit p e" "set_bit p e" "storage_bits e" "\<lambda>st. length st = n" "8 * n" for p e n
proof unfold_locales
  fix st :: bytes and i v
  assume st: "length st = n" "i < 8 * n"
  then have i: "i div 8 < length st" by auto
  then show "get_bit p e st i = Inr (storage_bits e st i)"
    by (simp add: get_bit_def storage_bits_def extract_bit_eq)
  let ?st = "st[i div 8 := change_bit e (st ! (i div 8)) i v]"
  have "storage_bits e ?st j = ((storage_bits e st)(i := v)) j" for j
    using i cell_neq[of i j e] bit_change_bit[OF bit_index_less]
    by (cases "i = j") (auto simp: storage_bits_def nth_list_update)
  then show "\<exists>st'. set_bit p e st i v = Inr st' \<and> length st' = n \<and> storage_bits e st' = (storage_bits e st)(i := v)"
    using i st by (auto simp: set_bit_def)
qed

interpretation raw: bit_cells "raw_get_bit p e n this" "raw_set_bit p e n this" "memory_bits e this" "\<lambda>m. True" "8 * n"
  for p e n this
proof unfold_locales
  fix m :: memory and i v
  assume "i < 8 * n"
  then have i: "i div 8 < n" by auto
  then show "raw_get_bit p e n this m i = Inr (memory_bits e this m i)"
    by (simp add: raw_get_bit_def memory_bits_def extract_bit_eq)
  let ?m = "m(this + i div 8 := change_bit e (m (this + i div 8)) i v)"
  have "memory_bits e this ?m j = ((memory_bits e this m)(i := v)) j" for j
    using cell_neq[of i j e] bit_change_bit[OF bit_index_less]
    by (cases "i = j") (auto simp: memory_bits_def)
  then show "\<exists>m'. raw_set_bit p e n this m i v = Inr m' \<and> True \<and> memory_bits e this m' = (memory_bits e this m)(i := v)"
    using i by (auto simp: raw_set_bit_def)
qed

section \<open>The methods\<close>

lemma get_in_bounds:
  assumes "0 < w" and "w \<le> 64" and "off + w \<le> 8 * length st"
  shows "unit_get p en st off w = get_loop en w (\<lambda>i. get_bit p en st (i + off)) [0..<w] 0"
  using assms by (simp add: unit_get_def range_asserts_ok)

lemma set_in_bounds:
  assumes "0 < w" and "w \<le> 64" and "off + w \<le> 8 * length st"
  shows "unit_set p en st off w v = set_loop en w (\<lambda>st i b. set_bit p en st (i + off) b) v [0..<w] st"
  using assms by (simp add: unit_set_def range_asserts_ok)

lemma set_get:
  assumes "0 < w" and "w \<le> 64" and "off + w \<le> 8 * length st"
  obtains st' where "unit_set p en st off w v = Inr st'" and "length st' = length st"
    and "unit_get p en st' off w = Inr (take_bit w v)"
    and "\<And>k. k < off \<or> off + w \<le> k \<Longrightarrow> storage_bits en st' k = storage_bits en st k"
proof -
  obtain st' where "unit_set p en st off w v = Inr st'" and l: "length st' = length st"
    and "\<And>k. k < off \<or> off + w \<le> k \<Longrightarrow> storage_bits en st' k = storage_bits en st k"
    and "get_loop en w (\<lambda>i. get_bit p en st' (i + off)) [0..<w] 0 = Inr (take_bit w v)"
    using safe.get_set_same[where m = st and n = "length st" and p = p and e = en and en = en and off = off and w = w and val = v] assms by (auto simp: set_in_bounds)
  then show ?thesis using that[of st'] assms by (simp add: get_in_bounds)
qed

lemma get_same_bits:
  assumes "0 < w" and "w \<le> 64" and "off + w \<le> 8 * length st" and "length st' = length st"
    and "\<And>k. off \<le> k \<Longrightarrow> k < off + w \<Longrightarrow> storage_bits en st' k = storage_bits en st k"
  shows "unit_get p en st' off w = unit_get p en st off w"
  using safe.get_eq[where m = st and m' = st' and n = "length st" and p = p and e = en and en = en and off = off and w = w] assms by (simp add: get_in_bounds)

text \<open>The bytes of storage behind a raw pointer.\<close>

definition holds :: "memory \<Rightarrow> nat \<Rightarrow> bytes \<Rightarrow> bool" where
  "holds m this st \<longleftrightarrow> (\<forall>i < length st. m (this + i) = st ! i)"

lemma raw_get_bit_eq:
  "holds m this st \<Longrightarrow> i < 8 * length st \<Longrightarrow> raw_get_bit p en (length st) this m i = get_bit p en st i"
  by (auto simp: raw_get_bit_def get_bit_def holds_def)

lemma raw_set_bit_sim:
  assumes "holds m this st" and "i < 8 * length st"
  shows "\<exists>st' m'. set_bit p en st i b = Inr st' \<and> raw_set_bit p en (length st) this m i b = Inr m' \<and>
    length st' = length st \<and> holds m' this st' \<and>
    (\<forall>a. a < this \<or> this + length st \<le> a \<longrightarrow> m' a = m a)"
proof -
  have "i div 8 < length st" using assms(2) by auto
  then show ?thesis
    using assms(1) by (auto simp: raw_set_bit_def set_bit_def holds_def nth_list_update)
qed

lemma get_loop_cong:
  "(\<And>i. i \<in> set is \<Longrightarrow> rd i = rd' i) \<Longrightarrow> get_loop en w rd is val = get_loop en w rd' is val"
proof (induction "is" arbitrary: val)
  case (Cons i "is")
  then have "get_loop en w rd is val = get_loop en w rd' is val" for val by simp
  with Cons.prems show ?case by simp
qed simp

lemma raw_set_loop_sim:
  assumes "off + w \<le> 8 * n" and "set is \<subseteq> {..<w}" and "holds m this st" and "length st = n"
  shows "\<exists>st' m'. set_loop en w (\<lambda>st i b. set_bit p en st (i + off) b) val is st = Inr st' \<and>
    set_loop en w (\<lambda>m i b. raw_set_bit p en n this m (i + off) b) val is m = Inr m' \<and>
    length st' = n \<and> holds m' this st' \<and> (\<forall>a. a < this \<or> this + n \<le> a \<longrightarrow> m' a = m a)"
  using assms(2-4)
proof (induction "is" arbitrary: m st)
  case (Cons i "is")
  have "val_index en w i + off < 8 * length st"
    using val_index_less[of i w en] Cons.prems(1,3) assms(1) by simp
  then obtain st1 m1 where 1: "set_bit p en st (val_index en w i + off) (val AND shl_one i = shl_one i) = Inr st1"
      "raw_set_bit p en n this m (val_index en w i + off) (val AND shl_one i = shl_one i) = Inr m1"
      "length st1 = n" "holds m1 this st1" "\<forall>a. a < this \<or> this + n \<le> a \<longrightarrow> m1 a = m a"
    using raw_set_bit_sim[OF Cons.prems(2)] Cons.prems(3) by metis
  obtain st2 m2 where "set_loop en w (\<lambda>st i b. set_bit p en st (i + off) b) val is st1 = Inr st2"
      "set_loop en w (\<lambda>m i b. raw_set_bit p en n this m (i + off) b) val is m1 = Inr m2"
      "length st2 = n" "holds m2 this st2" "\<forall>a. a < this \<or> this + n \<le> a \<longrightarrow> m2 a = m1 a"
    using Cons.IH[OF _ 1(4,3)] Cons.prems(1) by auto
  then show ?case using 1 by (simp add: Let_def)
qed auto

text \<open>
  On a pointer to the same bytes \<open>raw_get\<close> returns what \<open>get\<close> returns, and \<open>raw_set\<close> leaves behind the
  pointer the bytes \<open>set\<close> produces and touches no other byte of memory.
\<close>

lemma raw_agrees:
  assumes "0 < w" and "w \<le> 64" and "off + w \<le> 8 * length st" and "holds m this st"
  shows "raw_get p en (length st) this m off w = unit_get p en st off w \<and>
    (\<exists>st' m'. unit_set p en st off w v = Inr st' \<and> raw_set p en (length st) this m off w v = Inr m' \<and>
       holds m' this st' \<and> (\<forall>a. a < this \<or> this + length st \<le> a \<longrightarrow> m' a = m a))"
proof
  show "raw_get p en (length st) this m off w = unit_get p en st off w"
    using assms unfolding raw_get_def get_in_bounds[OF assms(1-3)] range_asserts_ok[OF assms(2,1,3)]
    by (auto intro!: get_loop_cong raw_get_bit_eq)
  show "\<exists>st' m'. unit_set p en st off w v = Inr st' \<and> raw_set p en (length st) this m off w v = Inr m' \<and>
      holds m' this st' \<and> (\<forall>a. a < this \<or> this + length st \<le> a \<longrightarrow> m' a = m a)"
    using raw_set_loop_sim[OF assms(3) _ assms(4) refl, of "[0..<w]" en p v]
    unfolding raw_set_def set_in_bounds[OF assms(1-3)] range_asserts_ok[OF assms(2,1,3)]
    by (auto simp: atLeast0LessThan)
qed

section \<open>Properties\<close>

text \<open>
  Writing a range of bits and reading it back gives the value truncated to the width of the range,
  and every other range of the storage that does not overlap it reads as before, on both byte orders
  and in both build profiles, without a panic.
\<close>

theorem bitfield_set_get:
  assumes "0 < w" and "w \<le> 64" and "off + w \<le> 8 * length st"
  shows "\<exists>st'. unit_set p en st off w v = Inr st' \<and> length st' = length st \<and>
    unit_get p en st' off w = Inr (take_bit w v) \<and>
    (\<forall>off' w'. 0 < w' \<and> w' \<le> 64 \<and> off' + w' \<le> 8 * length st \<and> (off' + w' \<le> off \<or> off + w \<le> off') \<longrightarrow>
       unit_get p en st' off' w' = unit_get p en st off' w')"
proof -
  obtain st' where st': "unit_set p en st off w v = Inr st'" "length st' = length st"
    "unit_get p en st' off w = Inr (take_bit w v)"
    and b: "\<And>k. k < off \<or> off + w \<le> k \<Longrightarrow> storage_bits en st' k = storage_bits en st k"
    using set_get[OF assms, of p en v] by blast
  have "unit_get p en st' off' w' = unit_get p en st off' w'"
    if "0 < w'" "w' \<le> 64" "off' + w' \<le> 8 * length st" "off' + w' \<le> off \<or> off + w \<le> off'" for off' w'
    using that st'(2) b by (intro get_same_bits) auto
  with st' show ?thesis by blast
qed

theorem bitfield_set_get_witness:
  "\<exists>st'. unit_set Dev BigEndian [0, 0, 255] 5 9 0x1234 = Inr st' \<and> unit_get Dev BigEndian st' 5 9 = Inr 0x34 \<and>
     unit_get Dev BigEndian st' 16 8 = unit_get Dev BigEndian [0, 0, 255] 16 8"
  using bitfield_set_get[of 9 5 "[0, 0, 255]" Dev BigEndian "0x1234"]
  by auto

end
