(* ===== verification/Vmlinux_Accessors.thy ===== *)
theory Vmlinux_Accessors
  imports Bindgen_Bitfield
begin

text \<open>
  The accessors bindgen generates for a bitfield of a kernel structure in
  \<open>rustguard-ebpf/src/vmlinux.rs\<close>. For each bitfield \<open>f\<close> there are four methods, \<open>f\<close>, \<open>set_f\<close>,
  \<open>f_raw\<close> and \<open>set_f_raw\<close>, which differ between bitfields only in the storage unit, the bit offset,
  the width and the integer type; a \<open>bitfield\<close> holds these four data. The structure is its image in
  memory (a list of \<open>size_of\<close> bytes, or a pointer into memory for the raw methods), and the storage
  unit is at the offset the layout gives it.
\<close>

record bitfield =
  bf_unit :: string
  bf_bytes :: nat
  bf_offset :: nat
  bf_width :: nat
  bf_repr :: nat \<comment> \<open>bits of the integer type the accessors use\<close>

definition bits_of :: "string \<Rightarrow> nat \<Rightarrow> nat \<Rightarrow> nat \<Rightarrow> nat \<Rightarrow> bitfield" where
  "bits_of u n off w r = \<lparr>bf_unit = u, bf_bytes = n, bf_offset = off, bf_width = w, bf_repr = r\<rparr>"

text \<open>The type \<open>__BindgenBitfieldUnit<[u8; n]>\<close>.\<close>

definition bitfield_unit :: "nat \<Rightarrow> ctype" where
  "bitfield_unit n = Struct [(''storage'', Arr (Prim 1) n)]"

definition unit_at :: "ctype \<Rightarrow> bitfield \<Rightarrow> nat" where
  "unit_at T d = offset_of T [bf_unit d]"

definition field_get :: "profile \<Rightarrow> endian \<Rightarrow> ctype \<Rightarrow> bitfield \<Rightarrow> bytes \<Rightarrow> bit_error + u64" where
  "field_get p en T d self =
     res_bind (unit_get p en (subseq_at (unit_at T d) (bf_bytes d) self) (bf_offset d) (bf_width d))
       (\<lambda>v. Inr (take_bit (bf_repr d) v))"

definition field_set :: "profile \<Rightarrow> endian \<Rightarrow> ctype \<Rightarrow> bitfield \<Rightarrow> u64 \<Rightarrow> bytes \<Rightarrow> bit_error + bytes" where
  "field_set p en T d val self =
     res_bind (unit_set p en (subseq_at (unit_at T d) (bf_bytes d) self) (bf_offset d) (bf_width d)
         (take_bit (bf_repr d) val))
       (\<lambda>st. Inr (take (unit_at T d) self @ st @ drop (unit_at T d + bf_bytes d) self))"

definition field_get_raw :: "profile \<Rightarrow> endian \<Rightarrow> ctype \<Rightarrow> bitfield \<Rightarrow> nat \<Rightarrow> memory \<Rightarrow> bit_error + u64" where
  "field_get_raw p en T d this m =
     res_bind (raw_get p en (bf_bytes d) (this + unit_at T d) m (bf_offset d) (bf_width d))
       (\<lambda>v. Inr (take_bit (bf_repr d) v))"

definition field_set_raw ::
  "profile \<Rightarrow> endian \<Rightarrow> ctype \<Rightarrow> bitfield \<Rightarrow> u64 \<Rightarrow> nat \<Rightarrow> memory \<Rightarrow> bit_error + memory" where
  "field_set_raw p en T d val this m =
     raw_set p en (bf_bytes d) (this + unit_at T d) m (bf_offset d) (bf_width d) (take_bit (bf_repr d) val)"

text \<open>The constructor \<open>new_bitfield_k\<close> of a storage unit: a zeroed unit with every argument stored in turn.\<close>

fun store_all :: "profile \<Rightarrow> endian \<Rightarrow> (bitfield \<times> u64) list \<Rightarrow> bytes \<Rightarrow> bit_error + bytes" where
  "store_all p en [] st = Inr st"
| "store_all p en ((d, v) # dvs) st =
     res_bind (unit_set p en st (bf_offset d) (bf_width d) (take_bit (bf_repr d) v)) (store_all p en dvs)"

definition new_bitfield :: "profile \<Rightarrow> endian \<Rightarrow> nat \<Rightarrow> (bitfield \<times> u64) list \<Rightarrow> bit_error + bytes" where
  "new_bitfield p en n dvs = store_all p en dvs (replicate n 0)"

section \<open>Well-placed and separate bitfields\<close>

definition fits :: "bitfield \<Rightarrow> bool" where
  "fits d \<longleftrightarrow> 0 < bf_width d \<and> bf_width d \<le> bf_repr d \<and> bf_repr d \<le> 64 \<and>
     bf_offset d + bf_width d \<le> 8 * bf_bytes d"

definition well_placed :: "ctype \<Rightarrow> bitfield \<Rightarrow> bool" where
  "well_placed T d \<longleftrightarrow> fits d \<and>
     (case T of Struct fs \<Rightarrow>
        (case field_of T (bf_unit d) of Some (k, t) \<Rightarrow> t = bitfield_unit (bf_bytes d) | None \<Rightarrow> False)
      | _ \<Rightarrow> False)"

definition apart :: "bitfield \<Rightarrow> bitfield \<Rightarrow> bool" where
  "apart d d' \<longleftrightarrow> bf_offset d + bf_width d \<le> bf_offset d' \<or> bf_offset d' + bf_width d' \<le> bf_offset d"

definition separate :: "bitfield \<Rightarrow> bitfield \<Rightarrow> bool" where
  "separate d d' \<longleftrightarrow> bf_unit d \<noteq> bf_unit d' \<or> apart d d'"

fun pairwise_separate :: "bitfield list \<Rightarrow> bool" where
  "pairwise_separate [] \<longleftrightarrow> True"
| "pairwise_separate (d # ds) \<longleftrightarrow> list_all (separate d) ds \<and> pairwise_separate ds"

lemma size_bitfield_unit [simp]: "size_of (bitfield_unit n) = n"
  by (simp add: bitfield_unit_def align_up_def)

lemma well_placedE:
  assumes "well_placed T d"
  obtains fs where "T = Struct fs" and "field_of T (bf_unit d) = Some (unit_at T d, bitfield_unit (bf_bytes d))"
    and "fits d" and "unit_at T d + bf_bytes d \<le> size_of T"
proof -
  obtain fs k where k: "T = Struct fs" "field_of T (bf_unit d) = Some (k, bitfield_unit (bf_bytes d))" "fits d"
    using assms by (auto simp: well_placed_def split: ctype.splits option.splits prod.splits)
  moreover from this have "unit_at T d = k" by (simp add: unit_at_def offset_of_def)
  ultimately show ?thesis using that field_of_bounds[OF k(2)] by simp
qed

lemma units_disjoint:
  assumes "well_placed T d" and "well_placed T d'" and "bf_unit d \<noteq> bf_unit d'"
  shows "unit_at T d + bf_bytes d \<le> unit_at T d' \<or> unit_at T d' + bf_bytes d' \<le> unit_at T d"
proof -
  from assms(1) obtain fs where 1: "T = Struct fs"
    "field_of T (bf_unit d) = Some (unit_at T d, bitfield_unit (bf_bytes d))"
    by (rule well_placedE)
  from assms(2) have 2: "field_of T (bf_unit d') = Some (unit_at T d', bitfield_unit (bf_bytes d'))"
    by (rule well_placedE)
  from field_of_disjoint[OF 1(2)[unfolded 1(1)] 2[unfolded 1(1)] assms(3)] show ?thesis by (simp add: 1(1))
qed

lemma same_unit:
  assumes "well_placed T d" and "well_placed T d'" and "bf_unit d = bf_unit d'"
  shows "unit_at T d' = unit_at T d" and "bf_bytes d' = bf_bytes d"
proof -
  from assms(1) have 1: "field_of T (bf_unit d) = Some (unit_at T d, bitfield_unit (bf_bytes d))"
    by (rule well_placedE)
  from assms(2) have 2: "field_of T (bf_unit d') = Some (unit_at T d', bitfield_unit (bf_bytes d'))"
    by (rule well_placedE)
  show "unit_at T d' = unit_at T d" using assms(3) by (simp add: unit_at_def)
  have "bitfield_unit (bf_bytes d') = bitfield_unit (bf_bytes d)" using 1 2 assms(3) by simp
  then show "bf_bytes d' = bf_bytes d" by (simp add: bitfield_unit_def)
qed

lemma at_splice_same:
  "k + n \<le> length xs \<Longrightarrow> length st = n \<Longrightarrow> subseq_at k n (take k xs @ st @ drop (k + n) xs) = st"
  by (simp add: subseq_at_def)

lemma at_splice_other:
  assumes "k + n \<le> length xs" and "length st = n" and "k + n \<le> j \<or> j + m \<le> k"
  shows "subseq_at j m (take k xs @ st @ drop (k + n) xs) = subseq_at j m xs"
  using assms(3)
proof
  assume "k + n \<le> j"
  then have "drop j (take k xs @ st @ drop (k + n) xs) = drop j xs"
    using assms(1,2) by (simp add: min_absorb1)
  then show ?thesis by (simp add: subseq_at_def)
next
  assume "j + m \<le> k"
  then have "take (m + j) (take k xs @ st @ drop (k + n) xs) = take (m + j) xs"
    using assms(1) by (simp add: min_absorb1)
  then show ?thesis unfolding subseq_at_def take_drop by (rule arg_cong)
qed

lemma length_splice:
  "k + n \<le> length xs \<Longrightarrow> length st = n \<Longrightarrow> length (take k xs @ st @ drop (k + n) xs) = length xs"
  by simp

lemma take_bit_repr: "fits d \<Longrightarrow> take_bit (bf_width d) (take_bit (bf_repr d) v) = take_bit (bf_width d) v"
  by (simp add: fits_def min_absorb1)

section \<open>The accessors of a structure\<close>

text \<open>A store to one field: the field then holds the value, and all other fields what they held.\<close>

lemma field_set_get:
  assumes wp: "well_placed T d" and len: "length self = size_of T"
  obtains self' where "field_set p en T d val self = Inr self'" and "length self' = size_of T"
    and "field_get p en T d self' = Inr (take_bit (bf_width d) val)"
    and "\<And>j m. unit_at T d + bf_bytes d \<le> j \<or> j + m \<le> unit_at T d \<Longrightarrow> subseq_at j m self' = subseq_at j m self"
    and "\<And>d'. well_placed T d' \<Longrightarrow> separate d d' \<Longrightarrow> field_get p en T d' self' = field_get p en T d' self"
proof -
  define k where "k = unit_at T d"
  define n where "n = bf_bytes d"
  from wp have f: "fits d" and kn: "k + n \<le> length self"
    unfolding k_def n_def len by (rule well_placedE, simp)+
  let ?st = "subseq_at k n self"
  have lst: "length ?st = n" using kn by (simp add: subseq_at_def)
  have w: "0 < bf_width d" "bf_width d \<le> 64" "bf_offset d + bf_width d \<le> 8 * length ?st"
    using f lst by (simp_all add: fits_def n_def)
  from set_get[OF w, of p en "take_bit (bf_repr d) val"]
  obtain st' where set: "unit_set p en ?st (bf_offset d) (bf_width d) (take_bit (bf_repr d) val) = Inr st'"
    and l: "length st' = n"
    and get: "unit_get p en st' (bf_offset d) (bf_width d) = Inr (take_bit (bf_width d) (take_bit (bf_repr d) val))"
    and bits: "\<And>i. i < bf_offset d \<or> bf_offset d + bf_width d \<le> i \<Longrightarrow> storage_bits en st' i = storage_bits en ?st i"
    unfolding lst by metis
  let ?self = "take k self @ st' @ drop (k + n) self"
  have same: "subseq_at k n ?self = st'" by (rule at_splice_same[OF kn l])
  have other: "subseq_at j m ?self = subseq_at j m self" if "k + n \<le> j \<or> j + m \<le> k" for j m
    by (rule at_splice_other[OF kn l that])
  show ?thesis
  proof (rule that[of ?self])
    show "field_set p en T d val self = Inr ?self"
      using set by (simp add: field_set_def k_def n_def)
    show "length ?self = size_of T" using length_splice[OF kn l] len by simp
    show "field_get p en T d ?self = Inr (take_bit (bf_width d) val)"
      using get same f by (simp add: field_get_def k_def n_def take_bit_repr fits_def min_absorb2)
    show "subseq_at j m ?self = subseq_at j m self"
      if "unit_at T d + bf_bytes d \<le> j \<or> j + m \<le> unit_at T d" for j m
      using other that by (simp add: k_def n_def)
    fix d'
    assume wp': "well_placed T d'" and sep: "separate d d'"
    show "field_get p en T d' ?self = field_get p en T d' self"
    proof (cases "bf_unit d = bf_unit d'")
      case False
      then have "subseq_at (unit_at T d') (bf_bytes d') ?self = subseq_at (unit_at T d') (bf_bytes d') self"
        using units_disjoint[OF wp wp'] by (intro other) (auto simp: k_def n_def)
      then show ?thesis by (simp add: field_get_def)
    next
      case True
      note u = same_unit[OF wp wp' True]
      from wp' have f': "fits d'" by (rule well_placedE)
      have "unit_get p en st' (bf_offset d') (bf_width d') = unit_get p en ?st (bf_offset d') (bf_width d')"
        using f' l lst u(2) sep True
        by (intro get_same_bits bits) (auto simp: fits_def n_def separate_def apart_def)
      then show ?thesis using same u by (simp add: field_get_def k_def n_def)
    qed
  qed
qed

text \<open>The raw accessors on a pointer to the structure do what the safe ones do on the structure.\<close>

lemma holds_at:
  assumes "holds m this xs" and "k + n \<le> length xs"
  shows "holds m (this + k) (subseq_at k n xs)"
  using assms by (auto simp: holds_def subseq_at_def add.assoc)

lemma holds_splice:
  assumes "holds m this xs" and "holds m' (this + k) st" and "k + n \<le> length xs" and "length st = n"
    and "\<forall>a. a < this + k \<or> this + k + n \<le> a \<longrightarrow> m' a = m a"
  shows "holds m' this (take k xs @ st @ drop (k + n) xs)"
  unfolding holds_def
proof (intro allI impI)
  fix i
  assume i: "i < length (take k xs @ st @ drop (k + n) xs)"
  consider "i < k" | "k \<le> i" "i < k + n" | "k + n \<le> i" by linarith
  then show "m' (this + i) = (take k xs @ st @ drop (k + n) xs) ! i"
  proof cases
    case 2
    then have "i - k < n" by simp
    moreover from this have "m' (this + k + (i - k)) = st ! (i - k)"
      using assms(2,4) unfolding holds_def by blast
    ultimately show ?thesis using 2 assms(3,4) by (simp add: nth_append)
  qed (use i assms in \<open>auto simp: holds_def nth_append\<close>)
qed

lemma field_raw_agrees:
  assumes wp: "well_placed T d" and len: "length self = size_of T" and h: "holds m this self"
  shows "field_get_raw p en T d this m = field_get p en T d self"
    and "\<exists>self' m'. field_set p en T d val self = Inr self' \<and> field_set_raw p en T d val this m = Inr m' \<and>
      holds m' this self' \<and> (\<forall>a. a < this \<or> this + size_of T \<le> a \<longrightarrow> m' a = m a)"
proof -
  let ?k = "unit_at T d" and ?n = "bf_bytes d"
  from wp have f: "fits d" and kn: "?k + ?n \<le> length self" unfolding len by (rule well_placedE, simp)+
  let ?st = "subseq_at ?k ?n self"
  have lst: "length ?st = ?n" using kn by (simp add: subseq_at_def)
  have w: "0 < bf_width d" "bf_width d \<le> 64" "bf_offset d + bf_width d \<le> 8 * length ?st"
    using f lst by (simp_all add: fits_def)
  note ra = raw_agrees[OF w holds_at[OF h kn], of p en "take_bit (bf_repr d) val", unfolded lst]
  show "field_get_raw p en T d this m = field_get p en T d self"
    using ra by (simp add: field_get_raw_def field_get_def)
  obtain st' m' where st': "unit_set p en ?st (bf_offset d) (bf_width d) (take_bit (bf_repr d) val) = Inr st'"
    and m': "raw_set p en ?n (this + ?k) m (bf_offset d) (bf_width d) (take_bit (bf_repr d) val) = Inr m'"
      "holds m' (this + ?k) st'" "\<forall>a. a < this + ?k \<or> this + ?k + ?n \<le> a \<longrightarrow> m' a = m a"
    using ra by blast
  have l: "length st' = ?n"
    using set_get[OF w, of p en "take_bit (bf_repr d) val"] st' lst by (metis sum.inject(2))
  have "holds m' this (take ?k self @ st' @ drop (?k + ?n) self)"
    by (rule holds_splice[OF h m'(2) kn l m'(3)])
  moreover have "\<forall>a. a < this \<or> this + size_of T \<le> a \<longrightarrow> m' a = m a" using m'(3) kn len by auto
  ultimately show "\<exists>self' m'. field_set p en T d val self = Inr self' \<and> field_set_raw p en T d val this m = Inr m' \<and>
      holds m' this self' \<and> (\<forall>a. a < this \<or> this + size_of T \<le> a \<longrightarrow> m' a = m a)"
    using st' m'(1) by (auto simp: field_set_def field_set_raw_def)
qed

section \<open>The constructors of the storage units\<close>

fun pairwise_apart :: "bitfield list \<Rightarrow> bool" where
  "pairwise_apart [] \<longleftrightarrow> True"
| "pairwise_apart (d # ds) \<longleftrightarrow> list_all (apart d) ds \<and> pairwise_apart ds"

definition unit_table :: "nat \<Rightarrow> bitfield list \<Rightarrow> bool" where
  "unit_table n ds \<longleftrightarrow> list_all (\<lambda>d. fits d \<and> bf_bytes d = n) ds \<and> pairwise_apart ds"

lemma apart_sym: "apart d d' \<longleftrightarrow> apart d' d"
  by (auto simp: apart_def)

lemma store_all_get:
  assumes "unit_table n (map fst dvs)" and "length st = n"
  shows "\<exists>st'. store_all p en dvs st = Inr st' \<and> length st' = n \<and>
    (\<forall>(d, v) \<in> set dvs. unit_get p en st' (bf_offset d) (bf_width d) = Inr (take_bit (bf_width d) v)) \<and>
    (\<forall>d. fits d \<and> bf_bytes d = n \<and> list_all (apart d) (map fst dvs) \<longrightarrow>
       unit_get p en st' (bf_offset d) (bf_width d) = unit_get p en st (bf_offset d) (bf_width d))"
  using assms
proof (induction dvs arbitrary: st)
  case (Cons dv dvs)
  obtain d v where dv: "dv = (d, v)" by (cases dv)
  have f: "fits d" "bf_bytes d = n" "list_all (apart d) (map fst dvs)" and t: "unit_table n (map fst dvs)"
    using Cons.prems(1) by (simp_all add: dv unit_table_def)
  have w: "0 < bf_width d" "bf_width d \<le> 64" "bf_offset d + bf_width d \<le> 8 * length st"
    using f Cons.prems(2) by (simp_all add: fits_def)
  from set_get[OF w, of p en "take_bit (bf_repr d) v"]
  obtain st1 where st1: "unit_set p en st (bf_offset d) (bf_width d) (take_bit (bf_repr d) v) = Inr st1"
      "length st1 = n" "unit_get p en st1 (bf_offset d) (bf_width d) = Inr (take_bit (bf_width d) v)"
    and bits: "\<And>k. k < bf_offset d \<or> bf_offset d + bf_width d \<le> k \<Longrightarrow> storage_bits en st1 k = storage_bits en st k"
    using take_bit_repr[OF f(1)] Cons.prems(2) by metis
  have keep: "unit_get p en st1 (bf_offset e) (bf_width e) = unit_get p en st (bf_offset e) (bf_width e)"
    if "fits e" "bf_bytes e = n" "apart e d" for e
    using that st1(2) Cons.prems(2) by (intro get_same_bits bits) (auto simp: fits_def apart_def)
  from Cons.IH[OF t st1(2)] obtain st' where st': "store_all p en dvs st1 = Inr st'" "length st' = n"
    "\<forall>(d, v) \<in> set dvs. unit_get p en st' (bf_offset d) (bf_width d) = Inr (take_bit (bf_width d) v)"
    "\<And>e. fits e \<Longrightarrow> bf_bytes e = n \<Longrightarrow> list_all (apart e) (map fst dvs) \<Longrightarrow>
       unit_get p en st' (bf_offset e) (bf_width e) = unit_get p en st1 (bf_offset e) (bf_width e)"
    by blast
  show ?case
    using st1 st' f keep by (intro exI[of _ st']) (auto simp: dv)
qed simp

lemma new_bitfield_get:
  assumes "unit_table n (map fst dvs)"
  shows "\<exists>st. new_bitfield p en n dvs = Inr st \<and> length st = n \<and>
    (\<forall>(d, v) \<in> set dvs. unit_get p en st (bf_offset d) (bf_width d) = Inr (take_bit (bf_width d) v))"
  using store_all_get[OF assms, of "replicate n 0" p en] by (auto simp: new_bitfield_def)

end
