(* ===== verification/Vmlinux_Types.thy ===== *)
theory Vmlinux_Types
  imports Vmlinux_Accessors
begin

text \<open>
  The kernel's socket structures as \<open>rustguard-ebpf/src/vmlinux.rs\<close> declares them: \<open>sock_common\<close> and
  \<open>sock\<close>, which the probes read, \<open>inet_sock\<close>, \<open>inet_connection_sock\<close> and \<open>tcp_sock\<close>, in which the socket
  of a TCP connection is embedded, and every type these contain by value. Field names and order are
  those of the declarations. A typedef whose name starts or ends with underscores is named with the
  prefix \<open>uapi_\<close> (\<open>__u32\<close>) or \<open>kernel_\<close> (\<open>u32_\<close>).
\<close>

section \<open>C types of the 64-bit target\<close>

abbreviation c_uchar :: ctype where "c_uchar \<equiv> Prim 1"
abbreviation c_char :: ctype where "c_char \<equiv> Prim 1"
abbreviation c_short :: ctype where "c_short \<equiv> Prim 2"
abbreviation c_ushort :: ctype where "c_ushort \<equiv> Prim 2"
abbreviation c_int :: ctype where "c_int \<equiv> Prim 4"
abbreviation c_uint :: ctype where "c_uint \<equiv> Prim 4"
abbreviation c_long :: ctype where "c_long \<equiv> Prim 8"
abbreviation c_ulong :: ctype where "c_ulong \<equiv> Prim 8"
abbreviation c_longlong :: ctype where "c_longlong \<equiv> Prim 8"
abbreviation c_ulonglong :: ctype where "c_ulonglong \<equiv> Prim 8"

text \<open>A raw pointer or an \<open>Option\<close> of a function pointer.\<close>

abbreviation pointer :: ctype where "pointer \<equiv> Prim 8"

section \<open>The types\<close>

definition uapi_u64 :: ctype where
  "uapi_u64 = c_ulonglong"

definition uapi_addrpair :: ctype where
  "uapi_addrpair = uapi_u64"

definition uapi_u32 :: ctype where
  "uapi_u32 = c_uint"

definition uapi_be32 :: ctype where
  "uapi_be32 = uapi_u32"

definition sock_common__bindgen_ty_1__bindgen_ty_1 :: ctype where
  "sock_common__bindgen_ty_1__bindgen_ty_1 = Struct
    [(''skc_daddr'', uapi_be32), (''skc_rcv_saddr'', uapi_be32)]"

definition sock_common__bindgen_ty_1 :: ctype where
  "sock_common__bindgen_ty_1 = Union
    [(''skc_addrpair'', uapi_addrpair), (''__bindgen_anon_1'', sock_common__bindgen_ty_1__bindgen_ty_1)]"

definition uapi_u16 :: ctype where
  "uapi_u16 = c_ushort"

definition sock_common__bindgen_ty_2 :: ctype where
  "sock_common__bindgen_ty_2 = Union
    [(''skc_hash'', c_uint), (''skc_u16hashes'', Arr uapi_u16 2)]"

definition uapi_portpair :: ctype where
  "uapi_portpair = uapi_u32"

definition uapi_be16 :: ctype where
  "uapi_be16 = uapi_u16"

definition sock_common__bindgen_ty_3__bindgen_ty_1 :: ctype where
  "sock_common__bindgen_ty_3__bindgen_ty_1 = Struct
    [(''skc_dport'', uapi_be16), (''skc_num'', uapi_u16)]"

definition sock_common__bindgen_ty_3 :: ctype where
  "sock_common__bindgen_ty_3 = Union
    [(''skc_portpair'', uapi_portpair), (''__bindgen_anon_1'', sock_common__bindgen_ty_3__bindgen_ty_1)]"

definition hlist_node :: ctype where
  "hlist_node = Struct
    [(''next'', pointer), (''pprev'', pointer)]"

definition sock_common__bindgen_ty_4 :: ctype where
  "sock_common__bindgen_ty_4 = Union
    [(''skc_bind_node'', hlist_node), (''skc_portaddr_node'', hlist_node)]"

definition possible_net_t :: ctype where
  "possible_net_t = Struct
    [(''net'', pointer)]"

definition uapi_u8 :: ctype where
  "uapi_u8 = c_uchar"

definition in6_addr__bindgen_ty_1 :: ctype where
  "in6_addr__bindgen_ty_1 = Union
    [(''u6_addr8'', Arr uapi_u8 16), (''u6_addr16'', Arr uapi_be16 8), (''u6_addr32'', Arr uapi_be32 4)]"

definition in6_addr :: ctype where
  "in6_addr = Struct
    [(''in6_u'', in6_addr__bindgen_ty_1)]"

definition uapi_s64 :: ctype where
  "uapi_s64 = c_longlong"

definition s64 :: ctype where
  "s64 = uapi_s64"

definition atomic64_t :: ctype where
  "atomic64_t = Struct
    [(''counter'', s64)]"

definition sock_common__bindgen_ty_5 :: ctype where
  "sock_common__bindgen_ty_5 = Union
    [(''skc_flags'', c_ulong), (''skc_listener'', pointer), (''skc_tw_dr'', pointer)]"

definition hlist_nulls_node :: ctype where
  "hlist_nulls_node = Struct
    [(''next'', pointer), (''pprev'', pointer)]"

definition sock_common__bindgen_ty_6 :: ctype where
  "sock_common__bindgen_ty_6 = Union
    [(''skc_node'', hlist_node), (''skc_nulls_node'', hlist_nulls_node)]"

definition kernel_u32 :: ctype where
  "kernel_u32 = uapi_u32"

definition sock_common__bindgen_ty_7 :: ctype where
  "sock_common__bindgen_ty_7 = Union
    [(''skc_incoming_cpu'', c_int), (''skc_rcv_wnd'', kernel_u32), (''skc_tw_rcv_nxt'', kernel_u32)]"

definition atomic_t :: ctype where
  "atomic_t = Struct
    [(''counter'', c_int)]"

definition refcount_struct :: ctype where
  "refcount_struct = Struct
    [(''refs'', atomic_t)]"

definition refcount_t :: ctype where
  "refcount_t = refcount_struct"

definition sock_common__bindgen_ty_8 :: ctype where
  "sock_common__bindgen_ty_8 = Union
    [(''skc_rxhash'', kernel_u32), (''skc_window_clamp'', kernel_u32), (''skc_tw_snd_nxt'', kernel_u32)]"

definition sock_common :: ctype where
  "sock_common = Struct
    [(''__bindgen_anon_1'', sock_common__bindgen_ty_1), (''__bindgen_anon_2'', sock_common__bindgen_ty_2),
     (''__bindgen_anon_3'', sock_common__bindgen_ty_3), (''skc_family'', c_ushort),
     (''skc_state'', c_uchar), (''_bitfield_align_1'', Arr (Prim 1) 0), (''_bitfield_1'', bitfield_unit 1),
     (''skc_bound_dev_if'', c_int), (''__bindgen_anon_4'', sock_common__bindgen_ty_4),
     (''skc_prot'', pointer), (''skc_net'', possible_net_t), (''skc_v6_daddr'', in6_addr),
     (''skc_v6_rcv_saddr'', in6_addr), (''skc_cookie'', atomic64_t),
     (''__bindgen_anon_5'', sock_common__bindgen_ty_5), (''skc_dontcopy_begin'', Arr c_int 0),
     (''__bindgen_anon_6'', sock_common__bindgen_ty_6), (''skc_tx_queue_mapping'', c_ushort),
     (''skc_rx_queue_mapping'', c_ushort), (''__bindgen_anon_7'', sock_common__bindgen_ty_7),
     (''skc_refcnt'', refcount_t), (''skc_dontcopy_end'', Arr c_int 0),
     (''__bindgen_anon_8'', sock_common__bindgen_ty_8)]"

definition uapi_s32 :: ctype where
  "uapi_s32 = c_int"

definition sk_buff_head__bindgen_ty_1__bindgen_ty_1 :: ctype where
  "sk_buff_head__bindgen_ty_1__bindgen_ty_1 = Struct
    [(''next'', pointer), (''prev'', pointer)]"

definition sk_buff_list :: ctype where
  "sk_buff_list = Struct
    [(''next'', pointer), (''prev'', pointer)]"

definition sk_buff_head__bindgen_ty_1 :: ctype where
  "sk_buff_head__bindgen_ty_1 = Union
    [(''__bindgen_anon_1'', sk_buff_head__bindgen_ty_1__bindgen_ty_1), (''list'', sk_buff_list)]"

definition kernel_u8 :: ctype where
  "kernel_u8 = uapi_u8"

definition qspinlock__bindgen_ty_1__bindgen_ty_1 :: ctype where
  "qspinlock__bindgen_ty_1__bindgen_ty_1 = Struct
    [(''locked'', kernel_u8), (''pending'', kernel_u8)]"

definition kernel_u16 :: ctype where
  "kernel_u16 = uapi_u16"

definition qspinlock__bindgen_ty_1__bindgen_ty_2 :: ctype where
  "qspinlock__bindgen_ty_1__bindgen_ty_2 = Struct
    [(''locked_pending'', kernel_u16), (''tail'', kernel_u16)]"

definition qspinlock__bindgen_ty_1 :: ctype where
  "qspinlock__bindgen_ty_1 = Union
    [(''val'', atomic_t), (''__bindgen_anon_1'', qspinlock__bindgen_ty_1__bindgen_ty_1),
     (''__bindgen_anon_2'', qspinlock__bindgen_ty_1__bindgen_ty_2)]"

definition qspinlock :: ctype where
  "qspinlock = Struct
    [(''__bindgen_anon_1'', qspinlock__bindgen_ty_1)]"

definition arch_spinlock_t :: ctype where
  "arch_spinlock_t = qspinlock"

definition raw_spinlock :: ctype where
  "raw_spinlock = Struct
    [(''raw_lock'', arch_spinlock_t)]"

definition spinlock__bindgen_ty_1 :: ctype where
  "spinlock__bindgen_ty_1 = Union
    [(''rlock'', raw_spinlock)]"

definition spinlock :: ctype where
  "spinlock = Struct
    [(''__bindgen_anon_1'', spinlock__bindgen_ty_1)]"

definition spinlock_t :: ctype where
  "spinlock_t = spinlock"

definition sk_buff_head :: ctype where
  "sk_buff_head = Struct
    [(''__bindgen_anon_1'', sk_buff_head__bindgen_ty_1), (''qlen'', uapi_u32), (''lock'', spinlock_t)]"

definition sock__bindgen_ty_1 :: ctype where
  "sock__bindgen_ty_1 = Struct
    [(''rmem_alloc'', atomic_t), (''len'', c_int), (''head'', pointer), (''tail'', pointer)]"

definition sock__bindgen_ty_2 :: ctype where
  "sock__bindgen_ty_2 = Union
    [(''sk_wq'', pointer), (''sk_wq_raw'', pointer)]"

definition list_head :: ctype where
  "list_head = Struct
    [(''next'', pointer), (''prev'', pointer)]"

definition wait_queue_head :: ctype where
  "wait_queue_head = Struct
    [(''lock'', spinlock_t), (''head'', list_head)]"

definition wait_queue_head_t :: ctype where
  "wait_queue_head_t = wait_queue_head"

definition socket_lock_t :: ctype where
  "socket_lock_t = Struct
    [(''slock'', spinlock_t), (''owned'', c_int), (''wq'', wait_queue_head_t)]"

definition rb_root :: ctype where
  "rb_root = Struct
    [(''rb_node'', pointer)]"

definition sock__bindgen_ty_3 :: ctype where
  "sock__bindgen_ty_3 = Union
    [(''sk_send_head'', pointer), (''tcp_rtx_queue'', rb_root)]"

definition page_frag :: ctype where
  "page_frag = Struct
    [(''page'', pointer), (''offset'', uapi_u32), (''size'', uapi_u32)]"

definition timer_list :: ctype where
  "timer_list = Struct
    [(''entry'', hlist_node), (''expires'', c_ulong), (''function'', pointer), (''flags'', kernel_u32)]"

definition sock__bindgen_ty_4 :: ctype where
  "sock__bindgen_ty_4 = Union
    [(''sk_timer'', timer_list), (''tcp_retransmit_timer'', timer_list),
     (''mptcp_retransmit_timer'', timer_list)]"

definition uapi_kernel_uid32_t :: ctype where
  "uapi_kernel_uid32_t = c_uint"

definition uid_t :: ctype where
  "uid_t = uapi_kernel_uid32_t"

definition kuid_t :: ctype where
  "kuid_t = Struct
    [(''val'', uid_t)]"

definition kernel_u64 :: ctype where
  "kernel_u64 = uapi_u64"

definition netdev_features_t :: ctype where
  "netdev_features_t = kernel_u64"

definition gfp_t :: ctype where
  "gfp_t = c_uint"

definition kernel_bool :: ctype where
  "kernel_bool = Prim 1"

definition qrwlock__bindgen_ty_1__bindgen_ty_1 :: ctype where
  "qrwlock__bindgen_ty_1__bindgen_ty_1 = Struct
    [(''wlocked'', kernel_u8), (''__lstate'', Arr kernel_u8 3)]"

definition qrwlock__bindgen_ty_1 :: ctype where
  "qrwlock__bindgen_ty_1 = Union
    [(''cnts'', atomic_t), (''__bindgen_anon_1'', qrwlock__bindgen_ty_1__bindgen_ty_1)]"

definition qrwlock :: ctype where
  "qrwlock = Struct
    [(''__bindgen_anon_1'', qrwlock__bindgen_ty_1), (''wait_lock'', arch_spinlock_t)]"

definition arch_rwlock_t :: ctype where
  "arch_rwlock_t = qrwlock"

definition rwlock :: ctype where
  "rwlock = Struct
    [(''raw_lock'', arch_rwlock_t)]"

definition rwlock_t :: ctype where
  "rwlock_t = rwlock"

definition ktime_t :: ctype where
  "ktime_t = s64"

definition sock__bindgen_ty_5__bindgen_ty_1 :: ctype where
  "sock__bindgen_ty_5__bindgen_ty_1 = Struct
    [(''_bitfield_align_1'', Arr (Prim 1) 0), (''_bitfield_1'', bitfield_unit 1)]"

definition sock__bindgen_ty_5 :: ctype where
  "sock__bindgen_ty_5 = Union
    [(''sk_txrehash'', kernel_u8), (''sk_scm_recv_flags'', kernel_u8),
     (''__bindgen_anon_1'', sock__bindgen_ty_5__bindgen_ty_1)]"

definition sock_cgroup_data :: ctype where
  "sock_cgroup_data = Struct
    [(''cgroup'', pointer), (''classid'', kernel_u32), (''prioidx'', kernel_u16)]"

definition callback_head :: ctype where
  "callback_head = Struct
    [(''next'', pointer), (''func'', pointer)]"

definition freeptr_t :: ctype where
  "freeptr_t = Struct
    [(''v'', c_ulong)]"

definition sock__bindgen_ty_6 :: ctype where
  "sock__bindgen_ty_6 = Union
    [(''sk_rcu'', callback_head), (''sk_freeptr'', freeptr_t)]"

definition netns_tracker :: ctype where
  "netns_tracker = Struct []"

definition xarray :: ctype where
  "xarray = Struct
    [(''xa_lock'', spinlock_t), (''xa_flags'', gfp_t), (''xa_head'', pointer)]"

definition sock :: ctype where
  "sock = Struct
    [(''__sk_common'', sock_common), (''__cacheline_group_begin__sock_write_rx'', Arr uapi_u8 0),
     (''sk_drops'', atomic_t), (''sk_peek_off'', uapi_s32), (''sk_error_queue'', sk_buff_head),
     (''sk_receive_queue'', sk_buff_head), (''sk_backlog'', sock__bindgen_ty_1),
     (''__cacheline_group_end__sock_write_rx'', Arr uapi_u8 0),
     (''__cacheline_group_begin__sock_read_rx'', Arr uapi_u8 0), (''sk_rx_dst'', pointer),
     (''sk_rx_dst_ifindex'', c_int), (''sk_rx_dst_cookie'', kernel_u32), (''sk_ll_usec'', c_uint),
     (''sk_napi_id'', c_uint), (''sk_busy_poll_budget'', kernel_u16), (''sk_prefer_busy_poll'', kernel_u8),
     (''sk_userlocks'', kernel_u8), (''sk_rcvbuf'', c_int), (''sk_filter'', pointer),
     (''__bindgen_anon_1'', sock__bindgen_ty_2), (''sk_data_ready'', pointer), (''sk_rcvtimeo'', c_long),
     (''sk_rcvlowat'', c_int), (''__cacheline_group_end__sock_read_rx'', Arr uapi_u8 0),
     (''__cacheline_group_begin__sock_read_rxtx'', Arr uapi_u8 0), (''sk_err'', c_int),
     (''sk_socket'', pointer), (''sk_memcg'', pointer), (''sk_policy'', Arr pointer 2),
     (''psp_assoc'', pointer), (''__cacheline_group_end__sock_read_rxtx'', Arr uapi_u8 0),
     (''__cacheline_group_begin__sock_write_rxtx'', Arr uapi_u8 0), (''sk_lock'', socket_lock_t),
     (''sk_reserved_mem'', kernel_u32), (''sk_forward_alloc'', c_int), (''sk_tsflags'', kernel_u32),
     (''__cacheline_group_end__sock_write_rxtx'', Arr uapi_u8 0),
     (''__cacheline_group_begin__sock_write_tx'', Arr uapi_u8 0), (''sk_write_pending'', c_int),
     (''sk_omem_alloc'', atomic_t), (''sk_err_soft'', c_int), (''sk_wmem_queued'', c_int),
     (''sk_wmem_alloc'', refcount_t), (''sk_tsq_flags'', c_ulong),
     (''__bindgen_anon_2'', sock__bindgen_ty_3), (''sk_write_queue'', sk_buff_head),
     (''sk_frag'', page_frag), (''__bindgen_anon_3'', sock__bindgen_ty_4), (''sk_pacing_rate'', c_ulong),
     (''sk_zckey'', atomic_t), (''sk_tskey'', atomic_t), (''sk_tx_queue_mapping_jiffies'', c_ulong),
     (''__cacheline_group_end__sock_write_tx'', Arr uapi_u8 0),
     (''__cacheline_group_begin__sock_read_tx'', Arr uapi_u8 0), (''sk_dst_pending_confirm'', kernel_u32),
     (''sk_pacing_status'', kernel_u32), (''sk_max_pacing_rate'', c_ulong), (''sk_sndtimeo'', c_long),
     (''sk_priority'', kernel_u32), (''sk_mark'', kernel_u32), (''sk_uid'', kuid_t),
     (''sk_protocol'', kernel_u16), (''sk_type'', kernel_u16), (''sk_dst_cache'', pointer),
     (''sk_route_caps'', netdev_features_t), (''sk_validate_xmit_skb'', pointer),
     (''sk_gso_type'', kernel_u16), (''sk_gso_max_segs'', kernel_u16), (''sk_gso_max_size'', c_uint),
     (''sk_allocation'', gfp_t), (''sk_txhash'', kernel_u32), (''sk_sndbuf'', c_int),
     (''sk_pacing_shift'', kernel_u8), (''sk_use_task_frag'', kernel_bool),
     (''__cacheline_group_end__sock_read_tx'', Arr uapi_u8 0), (''_bitfield_align_1'', Arr (Prim 1) 0),
     (''_bitfield_1'', bitfield_unit 1), (''sk_shutdown'', kernel_u8), (''sk_lingertime'', c_ulong),
     (''sk_prot_creator'', pointer), (''sk_callback_lock'', rwlock_t), (''sk_ack_backlog'', kernel_u32),
     (''sk_max_ack_backlog'', kernel_u32), (''sk_ino'', c_ulong), (''sk_peer_lock'', spinlock_t),
     (''sk_bind_phc'', c_int), (''sk_peer_pid'', pointer), (''sk_peer_cred'', pointer),
     (''sk_stamp'', ktime_t), (''sk_disconnects'', c_int), (''__bindgen_anon_4'', sock__bindgen_ty_5),
     (''sk_clockid'', kernel_u8), (''_bitfield_align_2'', Arr (Prim 1) 0),
     (''_bitfield_2'', bitfield_unit 1), (''sk_bpf_cb_flags'', kernel_u8), (''sk_user_data'', pointer),
     (''sk_security'', pointer), (''sk_cgrp_data'', sock_cgroup_data), (''sk_state_change'', pointer),
     (''sk_write_space'', pointer), (''sk_error_report'', pointer), (''sk_backlog_rcv'', pointer),
     (''sk_destruct'', pointer), (''sk_reuseport_cb'', pointer), (''sk_bpf_storage'', pointer),
     (''sk_drop_counters'', pointer), (''__bindgen_anon_5'', sock__bindgen_ty_6),
     (''ns_tracker'', netns_tracker), (''sk_user_frags'', xarray)]"

definition uapi_s16 :: ctype where
  "uapi_s16 = c_short"

definition inet_cork :: ctype where
  "inet_cork = Struct
    [(''flags'', c_uint), (''addr'', uapi_be32), (''opt'', pointer), (''fragsize'', c_uint),
     (''length'', c_int), (''dst'', pointer), (''tx_flags'', kernel_u8), (''ttl'', uapi_u8),
     (''tos'', uapi_s16), (''priority'', kernel_u32), (''gso_size'', uapi_u16),
     (''ts_opt_id'', kernel_u32), (''transmit_time'', kernel_u64), (''mark'', kernel_u32)]"

definition dscp_t :: ctype where
  "dscp_t = kernel_u8"

definition uapi_be64 :: ctype where
  "uapi_be64 = uapi_u64"

definition flowi_tunnel :: ctype where
  "flowi_tunnel = Struct
    [(''tun_id'', uapi_be64)]"

definition flowi_common :: ctype where
  "flowi_common = Struct
    [(''flowic_oif'', c_int), (''flowic_iif'', c_int), (''flowic_l3mdev'', c_int),
     (''flowic_mark'', uapi_u32), (''flowic_dscp'', dscp_t), (''flowic_scope'', uapi_u8),
     (''flowic_proto'', uapi_u8), (''flowic_flags'', uapi_u8), (''flowic_secid'', uapi_u32),
     (''flowic_uid'', kuid_t), (''flowic_multipath_hash'', uapi_u32), (''flowic_tun_key'', flowi_tunnel)]"

definition flowi_uli__bindgen_ty_1 :: ctype where
  "flowi_uli__bindgen_ty_1 = Struct
    [(''dport'', uapi_be16), (''sport'', uapi_be16)]"

definition flowi_uli__bindgen_ty_2 :: ctype where
  "flowi_uli__bindgen_ty_2 = Struct
    [(''type_'', uapi_u8), (''code'', uapi_u8)]"

definition flowi_uli__bindgen_ty_3 :: ctype where
  "flowi_uli__bindgen_ty_3 = Struct
    [(''type_'', uapi_u8)]"

definition flowi_uli :: ctype where
  "flowi_uli = Union
    [(''ports'', flowi_uli__bindgen_ty_1), (''icmpt'', flowi_uli__bindgen_ty_2), (''gre_key'', uapi_be32),
     (''mht'', flowi_uli__bindgen_ty_3)]"

definition flowi4 :: ctype where
  "flowi4 = Struct
    [(''__fl_common'', flowi_common), (''saddr'', uapi_be32), (''daddr'', uapi_be32), (''uli'', flowi_uli)]"

definition flowi6 :: ctype where
  "flowi6 = Struct
    [(''__fl_common'', flowi_common), (''daddr'', in6_addr), (''saddr'', in6_addr),
     (''flowlabel'', uapi_be32), (''uli'', flowi_uli), (''mp_hash'', uapi_u32)]"

definition flowi__bindgen_ty_1 :: ctype where
  "flowi__bindgen_ty_1 = Union
    [(''__fl_common'', flowi_common), (''ip4'', flowi4), (''ip6'', flowi6)]"

definition flowi :: ctype where
  "flowi = Struct
    [(''u'', flowi__bindgen_ty_1)]"

definition inet6_cork :: ctype where
  "inet6_cork = Struct
    [(''opt'', pointer), (''hop_limit'', kernel_u8), (''tclass'', kernel_u8),
     (''_bitfield_align_1'', Arr (Prim 1) 0), (''_bitfield_1'', bitfield_unit 1),
     (''__bindgen_padding_0'', Arr (Prim 1) 5)]"

definition inet_cork_full :: ctype where
  "inet_cork_full = Struct
    [(''base'', inet_cork), (''fl'', flowi), (''base6'', inet6_cork)]"

definition inet_sock :: ctype where
  "inet_sock = Struct
    [(''sk'', sock), (''pinet6'', pointer), (''ipv6_fl_list'', pointer), (''inet_flags'', c_ulong),
     (''inet_saddr'', uapi_be32), (''uc_ttl'', uapi_s16), (''inet_sport'', uapi_be16),
     (''inet_opt'', pointer), (''inet_id'', atomic_t), (''tos'', uapi_u8), (''min_ttl'', uapi_u8),
     (''mc_ttl'', uapi_u8), (''pmtudisc'', uapi_u8), (''rcv_tos'', uapi_u8), (''convert_csum'', uapi_u8),
     (''uc_index'', c_int), (''mc_index'', c_int), (''mc_addr'', uapi_be32),
     (''local_port_range'', kernel_u32), (''mc_list'', pointer), (''cork'', inet_cork_full)]"

definition fastopen_queue :: ctype where
  "fastopen_queue = Struct
    [(''rskq_rst_head'', pointer), (''rskq_rst_tail'', pointer), (''lock'', spinlock_t), (''qlen'', c_int),
     (''max_qlen'', c_int), (''ctx'', pointer)]"

definition request_sock_queue :: ctype where
  "request_sock_queue = Struct
    [(''rskq_lock'', spinlock_t), (''rskq_defer_accept'', kernel_u8), (''synflood_warned'', kernel_u8),
     (''qlen'', atomic_t), (''young'', atomic_t), (''rskq_accept_head'', pointer),
     (''rskq_accept_tail'', pointer), (''fastopenq'', fastopen_queue)]"

definition inet_connection_sock__bindgen_ty_1 :: ctype where
  "inet_connection_sock__bindgen_ty_1 = Union
    [(''icsk_keepalive_timer'', timer_list), (''mptcp_tout_timer'', timer_list)]"

definition inet_connection_sock__bindgen_ty_2 :: ctype where
  "inet_connection_sock__bindgen_ty_2 = Struct
    [(''pending'', uapi_u8), (''quick'', uapi_u8), (''pingpong'', uapi_u8), (''retry'', uapi_u8),
     (''_bitfield_align_1'', Arr (Prim 4) 0), (''_bitfield_1'', bitfield_unit 4), (''lrcvtime'', uapi_u32),
     (''last_seg_size'', uapi_u16), (''rcv_mss'', uapi_u16)]"

definition inet_connection_sock__bindgen_ty_3 :: ctype where
  "inet_connection_sock__bindgen_ty_3 = Struct
    [(''search_high'', c_int), (''search_low'', c_int), (''_bitfield_align_1'', Arr (Prim 4) 0),
     (''_bitfield_1'', bitfield_unit 4), (''probe_timestamp'', kernel_u32)]"

definition inet_connection_sock :: ctype where
  "inet_connection_sock = Struct
    [(''icsk_inet'', inet_sock), (''icsk_accept_queue'', request_sock_queue),
     (''icsk_bind_hash'', pointer), (''icsk_bind2_hash'', pointer), (''icsk_delack_timer'', timer_list),
     (''__bindgen_anon_1'', inet_connection_sock__bindgen_ty_1), (''icsk_rto'', uapi_u32),
     (''icsk_rto_min'', uapi_u32), (''icsk_rto_max'', kernel_u32), (''icsk_delack_max'', uapi_u32),
     (''icsk_pmtu_cookie'', uapi_u32), (''icsk_ca_ops'', pointer), (''icsk_af_ops'', pointer),
     (''icsk_ulp_ops'', pointer), (''icsk_ulp_data'', pointer), (''icsk_sync_mss'', pointer),
     (''_bitfield_align_1'', Arr (Prim 1) 0), (''_bitfield_1'', bitfield_unit 1),
     (''icsk_retransmits'', uapi_u8), (''icsk_pending'', uapi_u8), (''icsk_backoff'', uapi_u8),
     (''icsk_syn_retries'', uapi_u8), (''icsk_probes_out'', uapi_u8), (''icsk_ext_hdr_len'', uapi_u16),
     (''icsk_ack'', inet_connection_sock__bindgen_ty_2),
     (''icsk_mtup'', inet_connection_sock__bindgen_ty_3), (''icsk_probes_tstamp'', kernel_u32),
     (''icsk_user_timeout'', kernel_u32), (''icsk_ca_priv'', Arr kernel_u64 13)]"

definition minmax_sample :: ctype where
  "minmax_sample = Struct
    [(''t'', kernel_u32), (''v'', kernel_u32)]"

definition minmax :: ctype where
  "minmax = Struct
    [(''s'', Arr minmax_sample 3)]"

definition tcp_options_received :: ctype where
  "tcp_options_received = Struct
    [(''ts_recent_stamp'', c_int), (''ts_recent'', kernel_u32), (''rcv_tsval'', kernel_u32),
     (''rcv_tsecr'', kernel_u32), (''_bitfield_align_1'', Arr (Prim 1) 0),
     (''_bitfield_1'', bitfield_unit 3), (''num_sacks'', kernel_u8), (''user_mss'', kernel_u16),
     (''mss_clamp'', kernel_u16)]"

definition tcp_sock__bindgen_ty_1 :: ctype where
  "tcp_sock__bindgen_ty_1 = Struct
    [(''rtt_us'', kernel_u32), (''seq'', kernel_u32), (''time'', kernel_u64)]"

definition tcp_sock__bindgen_ty_2 :: ctype where
  "tcp_sock__bindgen_ty_2 = Struct
    [(''space'', c_int), (''seq'', kernel_u32), (''time'', kernel_u64)]"

definition tcp_rack :: ctype where
  "tcp_rack = Struct
    [(''mstamp'', kernel_u64), (''rtt_us'', kernel_u32), (''end_seq'', kernel_u32),
     (''last_delivered'', kernel_u32), (''reo_wnd_steps'', kernel_u8),
     (''_bitfield_align_1'', Arr (Prim 1) 0), (''_bitfield_1'', bitfield_unit 1),
     (''__bindgen_padding_0'', Prim 2)]"

definition rb_node :: ctype where
  "rb_node = Struct
    [(''__rb_parent_color'', c_ulong), (''rb_right'', pointer), (''rb_left'', pointer)]"

definition timerqueue_node :: ctype where
  "timerqueue_node = Struct
    [(''node'', rb_node), (''expires'', ktime_t)]"

definition hrtimer :: ctype where
  "hrtimer = Struct
    [(''node'', timerqueue_node), (''_softexpires'', ktime_t), (''function'', pointer),
     (''base'', pointer), (''state'', kernel_u8), (''is_rel'', kernel_u8), (''is_soft'', kernel_u8),
     (''is_hard'', kernel_u8)]"

definition tcp_sack_block :: ctype where
  "tcp_sack_block = Struct
    [(''start_seq'', kernel_u32), (''end_seq'', kernel_u32)]"

definition tcp_sock__bindgen_ty_3 :: ctype where
  "tcp_sock__bindgen_ty_3 = Struct
    [(''probe_seq_start'', kernel_u32), (''probe_seq_end'', kernel_u32)]"

definition tcp_sock :: ctype where
  "tcp_sock = Struct
    [(''inet_conn'', inet_connection_sock), (''__cacheline_group_begin__tcp_sock_read_tx'', Arr uapi_u8 0),
     (''max_window'', kernel_u32), (''rcv_ssthresh'', kernel_u32), (''reordering'', kernel_u32),
     (''notsent_lowat'', kernel_u32), (''gso_segs'', kernel_u16), (''retransmit_skb_hint'', pointer),
     (''tcp_clean_acked'', pointer), (''__cacheline_group_end__tcp_sock_read_tx'', Arr uapi_u8 0),
     (''__cacheline_group_begin__tcp_sock_read_txrx'', Arr uapi_u8 0), (''tsoffset'', kernel_u32),
     (''snd_wnd'', kernel_u32), (''mss_cache'', kernel_u32), (''snd_cwnd'', kernel_u32),
     (''prr_out'', kernel_u32), (''lost_out'', kernel_u32), (''sacked_out'', kernel_u32),
     (''tcp_header_len'', kernel_u16), (''scaling_ratio'', kernel_u8),
     (''_bitfield_align_1'', Arr (Prim 1) 0), (''_bitfield_1'', bitfield_unit 1),
     (''__cacheline_group_end__tcp_sock_read_txrx'', Arr uapi_u8 0),
     (''__cacheline_group_begin__tcp_sock_read_rx'', Arr uapi_u8 0), (''copied_seq'', kernel_u32),
     (''snd_wl1'', kernel_u32), (''tlp_high_seq'', kernel_u32), (''rttvar_us'', kernel_u32),
     (''retrans_out'', kernel_u32), (''advmss'', kernel_u16), (''urg_data'', kernel_u16),
     (''lost'', kernel_u32), (''snd_ssthresh'', kernel_u32), (''rtt_min'', minmax),
     (''out_of_order_queue'', rb_root), (''__cacheline_group_end__tcp_sock_read_rx'', Arr uapi_u8 0),
     (''_bitfield_align_2'', Arr (Prim 1) 0), (''_bitfield_2'', bitfield_unit 24),
     (''__cacheline_group_begin__tcp_sock_write_tx'', Arr uapi_u8 0), (''segs_out'', kernel_u32),
     (''data_segs_out'', kernel_u32), (''bytes_sent'', kernel_u64), (''snd_sml'', kernel_u32),
     (''chrono_type'', kernel_u8), (''chrono_start'', kernel_u32), (''chrono_stat'', Arr kernel_u32 3),
     (''write_seq'', kernel_u32), (''pushed_seq'', kernel_u32), (''lsndtime'', kernel_u32),
     (''mdev_us'', kernel_u32), (''rtt_seq'', kernel_u32), (''tcp_wstamp_ns'', kernel_u64),
     (''accecn_opt_tstamp'', kernel_u64), (''tsorted_sent_queue'', list_head), (''highest_sack'', pointer),
     (''ecn_flags'', kernel_u8), (''__cacheline_group_end__tcp_sock_write_tx'', Arr uapi_u8 0),
     (''__cacheline_group_begin__tcp_sock_write_txrx'', Arr uapi_u8 0),
     (''_bitfield_align_3'', Arr (Prim 1) 0), (''_bitfield_3'', bitfield_unit 3),
     (''pred_flags'', uapi_be32), (''tcp_clock_cache'', kernel_u64), (''tcp_mstamp'', kernel_u64),
     (''rcv_nxt'', kernel_u32), (''snd_nxt'', kernel_u32), (''snd_una'', kernel_u32),
     (''window_clamp'', kernel_u32), (''srtt_us'', kernel_u32), (''packets_out'', kernel_u32),
     (''snd_up'', kernel_u32), (''delivered'', kernel_u32), (''delivered_ce'', kernel_u32),
     (''received_ce'', kernel_u32), (''received_ecn_bytes'', Arr kernel_u32 3),
     (''app_limited'', kernel_u32), (''rcv_wnd'', kernel_u32), (''rcv_tstamp'', kernel_u32),
     (''rx_opt'', tcp_options_received), (''__cacheline_group_end__tcp_sock_write_txrx'', Arr uapi_u8 0),
     (''__cacheline_group_begin__tcp_sock_write_rx'', Arr uapi_u8 0), (''bytes_received'', kernel_u64),
     (''segs_in'', kernel_u32), (''data_segs_in'', kernel_u32), (''rcv_wup'', kernel_u32),
     (''max_packets_out'', kernel_u32), (''cwnd_usage_seq'', kernel_u32), (''rate_delivered'', kernel_u32),
     (''rate_interval_us'', kernel_u32), (''rcv_rtt_last_tsecr'', kernel_u32),
     (''delivered_ecn_bytes'', Arr kernel_u32 3), (''pkts_acked_ewma'', kernel_u16),
     (''first_tx_mstamp'', kernel_u64), (''delivered_mstamp'', kernel_u64), (''bytes_acked'', kernel_u64),
     (''rcv_rtt_est'', tcp_sock__bindgen_ty_1), (''rcvq_space'', tcp_sock__bindgen_ty_2),
     (''__cacheline_group_end__tcp_sock_write_rx'', Arr uapi_u8 0), (''dsack_dups'', kernel_u32),
     (''compressed_ack_rcv_nxt'', kernel_u32), (''tsq_node'', list_head), (''rack'', tcp_rack),
     (''compressed_ack'', kernel_u8), (''_bitfield_align_4'', Arr (Prim 1) 0),
     (''_bitfield_4'', bitfield_unit 2), (''repair_queue'', kernel_u8),
     (''_bitfield_align_5'', Arr (Prim 1) 0), (''_bitfield_5'', bitfield_unit 1),
     (''keepalive_probes'', kernel_u8), (''_bitfield_align_6'', Arr (Prim 1) 0),
     (''_bitfield_6'', bitfield_unit 1), (''tcp_tx_delay'', kernel_u32), (''mdev_max_us'', kernel_u32),
     (''reord_seen'', kernel_u32), (''snd_cwnd_cnt'', kernel_u32), (''snd_cwnd_clamp'', kernel_u32),
     (''snd_cwnd_used'', kernel_u32), (''snd_cwnd_stamp'', kernel_u32), (''prior_cwnd'', kernel_u32),
     (''prr_delivered'', kernel_u32), (''last_oow_ack_time'', kernel_u32), (''pacing_timer'', hrtimer),
     (''compressed_ack_timer'', hrtimer), (''ooo_last_skb'', pointer),
     (''duplicate_sack'', Arr tcp_sack_block 1), (''selective_acks'', Arr tcp_sack_block 4),
     (''recv_sack_cache'', Arr tcp_sack_block 4), (''prior_ssthresh'', kernel_u32),
     (''high_seq'', kernel_u32), (''retrans_stamp'', kernel_u32), (''undo_marker'', kernel_u32),
     (''undo_retrans'', c_int), (''mtu_info'', kernel_u32), (''bytes_retrans'', kernel_u64),
     (''total_retrans'', kernel_u32), (''rto_stamp'', kernel_u32), (''total_rto'', kernel_u16),
     (''total_rto_recoveries'', kernel_u16), (''total_rto_time'', kernel_u32), (''urg_seq'', kernel_u32),
     (''keepalive_time'', c_uint), (''keepalive_intvl'', c_uint), (''linger2'', c_int),
     (''bpf_sock_ops_cb_flags'', kernel_u8), (''_bitfield_align_7'', Arr (Prim 1) 0),
     (''_bitfield_7'', bitfield_unit 1), (''timeout_rehash'', kernel_u16), (''rcv_ooopack'', kernel_u32),
     (''mtu_probe'', tcp_sock__bindgen_ty_3), (''plb_rehash'', kernel_u32), (''is_mptcp'', kernel_bool),
     (''syn_smc'', kernel_bool), (''smc_hs_congested'', pointer), (''af_specific'', pointer),
     (''md5sig_info'', pointer), (''ao_info'', pointer), (''fastopen_req'', pointer),
     (''fastopen_rsk'', pointer), (''saved_syn'', pointer), (''_bitfield_align_8'', Arr (Prim 1) 0),
     (''_bitfield_8'', bitfield_unit 56)]"

section \<open>Sizes and alignments\<close>

text \<open>Sizes and alignments, by the nesting depth of the declarations: each level from the ones below it.\<close>

named_theorems layout

lemma align_up_eval [layout]: "align_up x (Suc 0) = x" "align_up x (numeral a) = x + (numeral a - x mod numeral a) mod numeral a"
  by (simp_all add: align_up_mod)

lemma Suc_eval [layout]: "Suc (Suc 0) = 2"
  by simp

lemma max_eval [layout]: "max (Suc 0) (numeral a) = numeral a" "max (numeral a) (Suc 0) = numeral a" "max x (x :: nat) = x"
  by (simp_all add: max_def)

text \<open>Looking up a field: conditional steps, so that evaluation visits each field once.\<close>

lemma field_from_eval [layout]:
  "g \<noteq> f \<Longrightarrow> field_from k ((g, t) # fs) f = field_from (align_up k (align_of t) + size_of t) fs f"
  "field_from k ((f, t) # fs) f = Some (align_up k (align_of t), t)"
  by (simp_all add: field_from.simps Let_def)

lemma bitfield_unit_align [layout]: "align_of (bitfield_unit n) = 1"
  by (simp add: bitfield_unit_def)

lemmas typedefs [layout] =
  uapi_u64_def uapi_addrpair_def uapi_u32_def uapi_be32_def uapi_u16_def uapi_portpair_def
  uapi_be16_def uapi_u8_def uapi_s64_def s64_def kernel_u32_def refcount_t_def uapi_s32_def
  kernel_u8_def kernel_u16_def arch_spinlock_t_def spinlock_t_def wait_queue_head_t_def
  uapi_kernel_uid32_t_def uid_t_def kernel_u64_def netdev_features_t_def gfp_t_def kernel_bool_def
  arch_rwlock_t_def rwlock_t_def ktime_t_def uapi_s16_def dscp_t_def uapi_be64_def

lemma layout_0 [layout]:
  "size_of hlist_node = 16" "align_of hlist_node = 8"
  "size_of possible_net_t = 8" "align_of possible_net_t = 8"
  "size_of sock_common__bindgen_ty_5 = 8" "align_of sock_common__bindgen_ty_5 = 8"
  "size_of hlist_nulls_node = 16" "align_of hlist_nulls_node = 8"
  "size_of atomic_t = 4" "align_of atomic_t = 4"
  "size_of sk_buff_head__bindgen_ty_1__bindgen_ty_1 = 16" "align_of sk_buff_head__bindgen_ty_1__bindgen_ty_1 = 8"
  "size_of sk_buff_list = 16" "align_of sk_buff_list = 8"
  "size_of sock__bindgen_ty_2 = 8" "align_of sock__bindgen_ty_2 = 8"
  "size_of list_head = 16" "align_of list_head = 8"
  "size_of rb_root = 8" "align_of rb_root = 8"
  "size_of sock__bindgen_ty_5__bindgen_ty_1 = 1" "align_of sock__bindgen_ty_5__bindgen_ty_1 = 1"
  "size_of callback_head = 16" "align_of callback_head = 8"
  "size_of freeptr_t = 8" "align_of freeptr_t = 8"
  "size_of netns_tracker = 0" "align_of netns_tracker = 1"
  "size_of rb_node = 24" "align_of rb_node = 8"
  by (simp_all add: layout
      hlist_node_def possible_net_t_def sock_common__bindgen_ty_5_def hlist_nulls_node_def
      atomic_t_def sk_buff_head__bindgen_ty_1__bindgen_ty_1_def sk_buff_list_def sock__bindgen_ty_2_def
      list_head_def rb_root_def sock__bindgen_ty_5__bindgen_ty_1_def callback_head_def freeptr_t_def
      netns_tracker_def rb_node_def)

lemma layout_1 [layout]:
  "size_of sock_common__bindgen_ty_1__bindgen_ty_1 = 8" "align_of sock_common__bindgen_ty_1__bindgen_ty_1 = 4"
  "size_of sock_common__bindgen_ty_2 = 4" "align_of sock_common__bindgen_ty_2 = 4"
  "size_of sock_common__bindgen_ty_3__bindgen_ty_1 = 4" "align_of sock_common__bindgen_ty_3__bindgen_ty_1 = 2"
  "size_of sock_common__bindgen_ty_4 = 16" "align_of sock_common__bindgen_ty_4 = 8"
  "size_of in6_addr__bindgen_ty_1 = 16" "align_of in6_addr__bindgen_ty_1 = 4"
  "size_of atomic64_t = 8" "align_of atomic64_t = 8"
  "size_of sock_common__bindgen_ty_6 = 16" "align_of sock_common__bindgen_ty_6 = 8"
  "size_of sock_common__bindgen_ty_7 = 4" "align_of sock_common__bindgen_ty_7 = 4"
  "size_of refcount_struct = 4" "align_of refcount_struct = 4"
  "size_of sock_common__bindgen_ty_8 = 4" "align_of sock_common__bindgen_ty_8 = 4"
  "size_of sk_buff_head__bindgen_ty_1 = 16" "align_of sk_buff_head__bindgen_ty_1 = 8"
  "size_of qspinlock__bindgen_ty_1__bindgen_ty_1 = 2" "align_of qspinlock__bindgen_ty_1__bindgen_ty_1 = 1"
  "size_of qspinlock__bindgen_ty_1__bindgen_ty_2 = 4" "align_of qspinlock__bindgen_ty_1__bindgen_ty_2 = 2"
  "size_of sock__bindgen_ty_1 = 24" "align_of sock__bindgen_ty_1 = 8"
  "size_of sock__bindgen_ty_3 = 8" "align_of sock__bindgen_ty_3 = 8"
  "size_of page_frag = 16" "align_of page_frag = 8"
  "size_of timer_list = 40" "align_of timer_list = 8"
  "size_of kuid_t = 4" "align_of kuid_t = 4"
  "size_of qrwlock__bindgen_ty_1__bindgen_ty_1 = 4" "align_of qrwlock__bindgen_ty_1__bindgen_ty_1 = 1"
  "size_of sock__bindgen_ty_5 = 1" "align_of sock__bindgen_ty_5 = 1"
  "size_of sock_cgroup_data = 16" "align_of sock_cgroup_data = 8"
  "size_of sock__bindgen_ty_6 = 16" "align_of sock__bindgen_ty_6 = 8"
  "size_of inet_cork = 64" "align_of inet_cork = 8"
  "size_of flowi_tunnel = 8" "align_of flowi_tunnel = 8"
  "size_of flowi_uli__bindgen_ty_1 = 4" "align_of flowi_uli__bindgen_ty_1 = 2"
  "size_of flowi_uli__bindgen_ty_2 = 2" "align_of flowi_uli__bindgen_ty_2 = 1"
  "size_of flowi_uli__bindgen_ty_3 = 1" "align_of flowi_uli__bindgen_ty_3 = 1"
  "size_of inet6_cork = 16" "align_of inet6_cork = 8"
  "size_of inet_connection_sock__bindgen_ty_2 = 16" "align_of inet_connection_sock__bindgen_ty_2 = 4"
  "size_of inet_connection_sock__bindgen_ty_3 = 16" "align_of inet_connection_sock__bindgen_ty_3 = 4"
  "size_of minmax_sample = 8" "align_of minmax_sample = 4"
  "size_of tcp_options_received = 24" "align_of tcp_options_received = 4"
  "size_of tcp_sock__bindgen_ty_1 = 16" "align_of tcp_sock__bindgen_ty_1 = 8"
  "size_of tcp_sock__bindgen_ty_2 = 16" "align_of tcp_sock__bindgen_ty_2 = 8"
  "size_of tcp_rack = 24" "align_of tcp_rack = 8"
  "size_of timerqueue_node = 32" "align_of timerqueue_node = 8"
  "size_of tcp_sack_block = 8" "align_of tcp_sack_block = 4"
  "size_of tcp_sock__bindgen_ty_3 = 8" "align_of tcp_sock__bindgen_ty_3 = 4"
  by (simp_all add: layout
      sock_common__bindgen_ty_1__bindgen_ty_1_def sock_common__bindgen_ty_2_def
      sock_common__bindgen_ty_3__bindgen_ty_1_def sock_common__bindgen_ty_4_def
      in6_addr__bindgen_ty_1_def atomic64_t_def sock_common__bindgen_ty_6_def
      sock_common__bindgen_ty_7_def refcount_struct_def sock_common__bindgen_ty_8_def
      sk_buff_head__bindgen_ty_1_def qspinlock__bindgen_ty_1__bindgen_ty_1_def
      qspinlock__bindgen_ty_1__bindgen_ty_2_def sock__bindgen_ty_1_def sock__bindgen_ty_3_def
      page_frag_def timer_list_def kuid_t_def qrwlock__bindgen_ty_1__bindgen_ty_1_def
      sock__bindgen_ty_5_def sock_cgroup_data_def sock__bindgen_ty_6_def inet_cork_def
      flowi_tunnel_def flowi_uli__bindgen_ty_1_def flowi_uli__bindgen_ty_2_def
      flowi_uli__bindgen_ty_3_def inet6_cork_def inet_connection_sock__bindgen_ty_2_def
      inet_connection_sock__bindgen_ty_3_def minmax_sample_def tcp_options_received_def
      tcp_sock__bindgen_ty_1_def tcp_sock__bindgen_ty_2_def tcp_rack_def timerqueue_node_def
      tcp_sack_block_def tcp_sock__bindgen_ty_3_def)

lemma layout_2 [layout]:
  "size_of sock_common__bindgen_ty_1 = 8" "align_of sock_common__bindgen_ty_1 = 8"
  "size_of sock_common__bindgen_ty_3 = 4" "align_of sock_common__bindgen_ty_3 = 4"
  "size_of in6_addr = 16" "align_of in6_addr = 4"
  "size_of qspinlock__bindgen_ty_1 = 4" "align_of qspinlock__bindgen_ty_1 = 4"
  "size_of sock__bindgen_ty_4 = 40" "align_of sock__bindgen_ty_4 = 8"
  "size_of qrwlock__bindgen_ty_1 = 4" "align_of qrwlock__bindgen_ty_1 = 4"
  "size_of flowi_common = 40" "align_of flowi_common = 8"
  "size_of flowi_uli = 4" "align_of flowi_uli = 4"
  "size_of inet_connection_sock__bindgen_ty_1 = 40" "align_of inet_connection_sock__bindgen_ty_1 = 8"
  "size_of minmax = 24" "align_of minmax = 4"
  "size_of hrtimer = 64" "align_of hrtimer = 8"
  by (simp_all add: layout
      sock_common__bindgen_ty_1_def sock_common__bindgen_ty_3_def in6_addr_def
      qspinlock__bindgen_ty_1_def sock__bindgen_ty_4_def qrwlock__bindgen_ty_1_def flowi_common_def
      flowi_uli_def inet_connection_sock__bindgen_ty_1_def minmax_def hrtimer_def)

lemma layout_3 [layout]:
  "size_of sock_common = 136" "align_of sock_common = 8"
  "size_of qspinlock = 4" "align_of qspinlock = 4"
  "size_of flowi4 = 56" "align_of flowi4 = 8"
  "size_of flowi6 = 88" "align_of flowi6 = 8"
  by (simp_all add: layout
      sock_common_def qspinlock_def flowi4_def flowi6_def)

lemma layout_4 [layout]:
  "size_of raw_spinlock = 4" "align_of raw_spinlock = 4"
  "size_of qrwlock = 8" "align_of qrwlock = 4"
  "size_of flowi__bindgen_ty_1 = 88" "align_of flowi__bindgen_ty_1 = 8"
  by (simp_all add: layout
      raw_spinlock_def qrwlock_def flowi__bindgen_ty_1_def)

lemma layout_5 [layout]:
  "size_of spinlock__bindgen_ty_1 = 4" "align_of spinlock__bindgen_ty_1 = 4"
  "size_of rwlock = 8" "align_of rwlock = 4"
  "size_of flowi = 88" "align_of flowi = 8"
  by (simp_all add: layout
      spinlock__bindgen_ty_1_def rwlock_def flowi_def)

lemma layout_6 [layout]:
  "size_of spinlock = 4" "align_of spinlock = 4"
  "size_of inet_cork_full = 168" "align_of inet_cork_full = 8"
  by (simp_all add: layout
      spinlock_def inet_cork_full_def)

lemma layout_7 [layout]:
  "size_of sk_buff_head = 24" "align_of sk_buff_head = 8"
  "size_of wait_queue_head = 24" "align_of wait_queue_head = 8"
  "size_of xarray = 16" "align_of xarray = 8"
  "size_of fastopen_queue = 40" "align_of fastopen_queue = 8"
  by (simp_all add: layout
      sk_buff_head_def wait_queue_head_def xarray_def fastopen_queue_def)

lemma layout_8 [layout]:
  "size_of socket_lock_t = 32" "align_of socket_lock_t = 8"
  "size_of request_sock_queue = 72" "align_of request_sock_queue = 8"
  by (simp_all add: layout
      socket_lock_t_def request_sock_queue_def)

lemma layout_9 [layout]:
  "size_of sock = 808" "align_of sock = 8"
  by (simp_all add: layout
      sock_def)

lemma layout_10 [layout]:
  "size_of inet_sock = 1056" "align_of inet_sock = 8"
  by (simp_all add: layout
      inet_sock_def)

lemma layout_11 [layout]:
  "size_of inet_connection_sock = 1440" "align_of inet_connection_sock = 8"
  by (simp_all add: layout
      inet_connection_sock_def)

lemma layout_12 [layout]:
  "size_of tcp_sock = 2432" "align_of tcp_sock = 8"
  by (simp_all add: layout
      tcp_sock_def)

end
