(* ===== verification/Socket_Probe.thy ===== *)
theory Socket_Probe
  imports Kernel_Helpers Vmlinux_Types
begin

text \<open>
  Reading a kernel socket, \<open>rustguard-ebpf/src/socket.rs\<close>: \<open>fill_socket\<close>, \<open>fill_ipv4\<close>, \<open>fill_ipv6\<close>,
  \<open>protocol\<close>, and the ring buffer \<open>EVENTS\<close>. A structure read by \<open>bpf_probe_read_kernel\<close> is its bytes, and
  a field access is a load at the offset the layout of \<open>vmlinux.rs\<close> gives the field.
\<close>

definition load :: "ctype \<Rightarrow> string list \<Rightarrow> bytes \<Rightarrow> bytes" where
  "load T path img = (case place T path of None \<Rightarrow> [] | Some (k, t) \<Rightarrow> subseq_at k (size_of t) img)"

definition addr_of_field :: "ctype \<Rightarrow> string list \<Rightarrow> u64 \<Rightarrow> u64" where
  "addr_of_field T path ptr = ptr + word_of_nat (offset_of T path)"

definition fill_ipv4 :: "endian \<Rightarrow> NetEvent \<Rightarrow> bytes \<Rightarrow> NetEvent" where
  "fill_ipv4 en event common =
     (let src = from_ne_bytes en (load sock_common [''__bindgen_anon_1'', ''__bindgen_anon_1'', ''skc_rcv_saddr''] common) :: u32;
          dst = from_ne_bytes en (load sock_common [''__bindgen_anon_1'', ''__bindgen_anon_1'', ''skc_daddr''] common) :: u32;
          src_ip = to_ne_bytes en 4 src @ drop 4 (replicate 16 0);
          dst_ip = to_ne_bytes en 4 dst @ drop 4 (replicate 16 0)
      in event\<lparr>ev_src_ip := src_ip, ev_dst_ip := dst_ip,
           ev_src_port := from_ne_bytes en (load sock_common [''__bindgen_anon_3'', ''__bindgen_anon_1'', ''skc_num''] common),
           ev_dst_port := u16_from_be en (from_ne_bytes en
             (load sock_common [''__bindgen_anon_3'', ''__bindgen_anon_1'', ''skc_dport''] common))\<rparr>)"

definition fill_ipv6 :: "endian \<Rightarrow> NetEvent \<Rightarrow> bytes \<Rightarrow> NetEvent" where
  "fill_ipv6 en event common =
     event\<lparr>ev_src_ip := load sock_common [''skc_v6_rcv_saddr'', ''in6_u'', ''u6_addr8''] common,
       ev_dst_ip := load sock_common [''skc_v6_daddr'', ''in6_u'', ''u6_addr8''] common,
       ev_src_port := from_ne_bytes en (load sock_common [''__bindgen_anon_3'', ''__bindgen_anon_1'', ''skc_num''] common),
       ev_dst_port := u16_from_be en (from_ne_bytes en
         (load sock_common [''__bindgen_anon_3'', ''__bindgen_anon_1'', ''skc_dport''] common))\<rparr>"

definition fill_socket :: "endian \<Rightarrow> helpers \<Rightarrow> NetEvent \<Rightarrow> u64 \<Rightarrow> i64 + NetEvent" where
  "fill_socket en h event sk =
     res_bind (bpf_probe_read_kernel h (addr_of_field sock [''__sk_common''] sk) (size_of sock_common)) (\<lambda>common.
       let family = from_ne_bytes en (load sock_common [''skc_family''] common) :: u16
       in Inr (if family = AF_INET then fill_ipv4 en event common
          else if family = AF_INET6 then fill_ipv6 en event common
          else event))"

definition protocol :: "endian \<Rightarrow> helpers \<Rightarrow> u64 \<Rightarrow> i64 + TransportProtocol" where
  "protocol en h sk =
     res_bind (bpf_probe_read_kernel h (addr_of_field sock [''sk_protocol''] sk) 2) (\<lambda>bs.
       let proto = from_ne_bytes en bs :: u16
       in Inr (if proto = IPPROTO_TCP then Tcp else if proto = IPPROTO_UDP then Udp else ProtoUnknown))"

section \<open>The ring buffer\<close>

text \<open>
  \<open>EVENTS.output(&event, 0)\<close>: the kernel's ring buffer is a parameter, an operation that takes the bytes
  of a record and fails or appends them.
\<close>

type_synonym 'r ring_output = "'r \<Rightarrow> bytes \<Rightarrow> u64 \<Rightarrow> i64 + 'r"

definition EVENTS_byte_size :: nat where
  "EVENTS_byte_size = 1024 * 1024"

locale ring_buffer =
  fixes out :: "'r ring_output" and records :: "'r \<Rightarrow> bytes list"
  assumes output_appends: "out r bs flags = Inr r' \<Longrightarrow> records r' = records r @ [bs]"
begin

lemma outputs_in_order:
  "foldl (\<lambda>r bs. res_bind r (\<lambda>r. out r bs 0)) (Inr r) bss = Inr r' \<Longrightarrow> records r' = records r @ bss"
proof (induction bss arbitrary: r)
  case (Cons bs bss)
  have failed: "foldl (\<lambda>r bs. res_bind r (\<lambda>r. out r bs 0)) (Inl e) bss = Inl e" for e
    by (induction bss) simp_all
  show ?case
  proof (cases "out r bs 0")
    case (Inl e)
    then show ?thesis using Cons.prems failed by simp
  next
    case (Inr r1)
    then show ?thesis using Cons.prems Cons.IH[of r1] output_appends[OF Inr] by simp
  qed
qed simp

end

text \<open>
  A ring of bounded size without a reader: each record takes 8 bytes of header and its length rounded
  up to 8, and a record that does not fit is refused.
\<close>

definition ring_used :: "bytes list \<Rightarrow> nat" where
  "ring_used rs = (\<Sum>bs \<leftarrow> rs. 8 + align_up (length bs) 8)"

definition bounded_output :: "nat \<Rightarrow> bytes list ring_output" where
  "bounded_output cap rs bs flags =
     (if ring_used rs + 8 + align_up (length bs) 8 \<le> cap then Inr (rs @ [bs]) else Inl (-11))"

interpretation bounded: ring_buffer "bounded_output cap" id for cap
  by unfold_locales (simp add: bounded_output_def split: if_splits)

section \<open>Where the fields are\<close>

lemma sock_places:
  "place sock_common [''__bindgen_anon_1'', ''__bindgen_anon_1'', ''skc_rcv_saddr''] = Some (4, Prim 4)"
  "place sock_common [''__bindgen_anon_1'', ''__bindgen_anon_1'', ''skc_daddr''] = Some (0, Prim 4)"
  "place sock_common [''__bindgen_anon_3'', ''__bindgen_anon_1'', ''skc_num''] = Some (14, Prim 2)"
  "place sock_common [''__bindgen_anon_3'', ''__bindgen_anon_1'', ''skc_dport''] = Some (12, Prim 2)"
  "place sock_common [''skc_family''] = Some (16, Prim 2)"
  "place sock_common [''skc_v6_rcv_saddr'', ''in6_u'', ''u6_addr8''] = Some (72, Arr (Prim 1) 16)"
  "place sock_common [''skc_v6_daddr'', ''in6_u'', ''u6_addr8''] = Some (56, Arr (Prim 1) 16)"
  "place sock [''__sk_common''] = Some (0, sock_common)"
  by (simp_all add: layout sock_common_def sock_def sock_common__bindgen_ty_1_def
      sock_common__bindgen_ty_1__bindgen_ty_1_def sock_common__bindgen_ty_3_def
      sock_common__bindgen_ty_3__bindgen_ty_1_def in6_addr_def in6_addr__bindgen_ty_1_def)

lemma sk_protocol_place: "place sock [''sk_protocol''] = Some (548, Prim 2)"
  by (simp add: layout sock_def)

lemma sock_loads:
  "load sock_common [''__bindgen_anon_1'', ''__bindgen_anon_1'', ''skc_rcv_saddr''] img = subseq_at 4 4 img"
  "load sock_common [''__bindgen_anon_1'', ''__bindgen_anon_1'', ''skc_daddr''] img = subseq_at 0 4 img"
  "load sock_common [''__bindgen_anon_3'', ''__bindgen_anon_1'', ''skc_num''] img = subseq_at 14 2 img"
  "load sock_common [''__bindgen_anon_3'', ''__bindgen_anon_1'', ''skc_dport''] img = subseq_at 12 2 img"
  "load sock_common [''skc_family''] img = subseq_at 16 2 img"
  "load sock_common [''skc_v6_rcv_saddr'', ''in6_u'', ''u6_addr8''] img = subseq_at 72 16 img"
  "load sock_common [''skc_v6_daddr'', ''in6_u'', ''u6_addr8''] img = subseq_at 56 16 img"
  unfolding load_def sock_places by simp_all

text \<open>A well-behaved \<open>bpf_probe_read_kernel\<close> returns as many bytes as it was asked for.\<close>

definition reads_exactly :: "helpers \<Rightarrow> bool" where
  "reads_exactly h \<longleftrightarrow> (\<forall>a n bs. bpf_probe_read_kernel h a n = Inr bs \<longrightarrow> length bs = n)"

section \<open>Specification of the connection read from a socket\<close>

text \<open>
  The addresses and ports of a socket, from the bytes of its \<open>sock_common\<close>: the local address is what
  the socket receives on, ports are in host order. IPv4 addresses are in network order and padded with
  zero bytes.
\<close>

definition set_endpoints :: "bytes \<Rightarrow> bytes \<Rightarrow> u16 \<Rightarrow> u16 \<Rightarrow> NetEvent \<Rightarrow> NetEvent" where
  "set_endpoints src dst sport dport ev =
     ev\<lparr>ev_src_ip := src, ev_dst_ip := dst, ev_src_port := sport, ev_dst_port := dport\<rparr>"

definition socket_spec :: "endian \<Rightarrow> bytes \<Rightarrow> NetEvent \<Rightarrow> NetEvent" where
  "socket_spec en img ev =
     (let family = from_ne_bytes en (subseq_at 16 2 img) :: u16;
          sport = from_ne_bytes en (subseq_at 14 2 img);
          dport = from_be_bytes (subseq_at 12 2 img)
      in if family = AF_INET
         then set_endpoints (subseq_at 4 4 img @ replicate 12 0) (subseq_at 0 4 img @ replicate 12 0) sport dport ev
         else if family = AF_INET6
         then set_endpoints (subseq_at 72 16 img) (subseq_at 56 16 img) sport dport ev
         else ev)"

lemma fill_socket_eq:
  assumes "bpf_probe_read_kernel h sk 136 = Inr img" and "length img = 136"
  shows "fill_socket en h ev sk = Inr (socket_spec en img ev)"
proof -
  have l: "length (subseq_at 4 4 img) = 4" "length (subseq_at 0 4 img) = 4" "length (subseq_at 12 2 img) = 2"
    using assms(2) by (simp_all add: subseq_at_def)
  have r: "to_ne_bytes en 4 (from_ne_bytes en (subseq_at 4 4 img) :: u32) = subseq_at 4 4 img"
    "to_ne_bytes en 4 (from_ne_bytes en (subseq_at 0 4 img) :: u32) = subseq_at 0 4 img"
    using l by (simp_all add: to_ne_from_ne_bytes)
  have be: "u16_from_be en (from_ne_bytes en (subseq_at 12 2 img)) = from_be_bytes (subseq_at 12 2 img)"
    using l(3) by (rule u16_from_be_from_ne)
  have a: "addr_of_field sock [''__sk_common''] sk = sk" "size_of sock_common = 136"
    by (simp_all add: addr_of_field_def offset_of_def sock_places layout del: place.simps)
  show ?thesis
    unfolding fill_socket_def a assms(1) res_bind_simps fill_ipv4_def fill_ipv6_def sock_loads Let_def r be
      socket_spec_def set_endpoints_def by simp
qed

lemma fill_socket_error:
  "bpf_probe_read_kernel h sk 136 = Inl e \<Longrightarrow> fill_socket en h ev sk = Inl e"
  by (simp add: fill_socket_def addr_of_field_def offset_of_def sock_places layout del: place.simps)

lemma protocol_eq:
  "protocol en h sk =
     res_bind (bpf_probe_read_kernel h (sk + 548) 2) (\<lambda>bs.
       Inr (if from_ne_bytes en bs = IPPROTO_TCP then Tcp
            else if from_ne_bytes en bs = IPPROTO_UDP then Udp else ProtoUnknown))"
  by (simp add: protocol_def addr_of_field_def offset_of_def sk_protocol_place Let_def del: place.simps)

lemma socket_spec_wf:
  assumes "net_event_wf ev" and "length img = 136"
  shows "net_event_wf (socket_spec en img ev)"
  using assms by (simp add: socket_spec_def set_endpoints_def net_event_wf_def Let_def subseq_at_def)

section \<open>Properties\<close>

text \<open>
  C21. \<open>fill_socket\<close> records the connection of the socket: it reads the first 136 bytes of the structure,
  and for an IPv4 or IPv6 socket stores its local and remote addresses and ports, the remote port
  converted from network order, on both byte orders; for another family it changes nothing; when the
  read fails it returns its error.
\<close>

theorem fill_socket_reads_connection:
  assumes "reads_exactly h"
  shows "fill_socket en h ev sk =
    (case bpf_probe_read_kernel h sk 136 of Inl e \<Rightarrow> Inl e | Inr img \<Rightarrow> Inr (socket_spec en img ev))"
proof (cases "bpf_probe_read_kernel h sk 136")
  case (Inl e)
  then show ?thesis using fill_socket_error by simp
next
  case (Inr img)
  moreover have "length img = 136" using assms Inr unfolding reads_exactly_def by blast
  ultimately show ?thesis using fill_socket_eq by simp
qed

text \<open>A kernel with a socket at address 4096, connected over IPv4 from 10.0.0.1:4660 to 8.8.8.8:443.\<close>

definition sample_socket :: "u64 \<Rightarrow> u8" where
  "sample_socket a =
     (let i = unat (a - 4096); img = [8, 8, 8, 8, 10, 0, 0, 1, 0, 0, 0, 0, 1, 187, 0x34, 0x12, 2, 0]
      in if i < length img then img ! i else if i = 548 then 6 else 0)"

definition sample_helpers :: helpers where
  "sample_helpers =
     \<lparr>bpf_ktime_get_ns = 77, bpf_get_current_pid_tgid = 0x0000002a0000002b, bpf_get_current_uid_gid = 1000,
      bpf_get_current_comm = Inr (map of_char ''curl'' @ replicate 12 0),
      bpf_get_socket_cookie = (\<lambda>_. 1),
      bpf_probe_read_kernel = (\<lambda>a n. Inr (map (\<lambda>i. sample_socket (a + word_of_nat i)) [0..<n]))\<rparr>"

lemma sample_reads_exactly: "reads_exactly sample_helpers"
  by (auto simp: reads_exactly_def sample_helpers_def)

lemma sample_read:
  "bpf_probe_read_kernel sample_helpers 4096 136 = Inr (map (\<lambda>i. sample_socket (4096 + word_of_nat i)) [0..<136])"
  by (simp add: sample_helpers_def)

lemma at_map_upt: "k + n \<le> m \<Longrightarrow> subseq_at k n (map f [0..<m]) = map f [k..<k + n]"
  by (simp add: subseq_at_def drop_map take_map)

lemma sample_spec:
  "socket_spec LittleEndian (map (\<lambda>i. sample_socket (4096 + word_of_nat i)) [0..<136]) ev =
     set_endpoints ([10, 0, 0, 1] @ replicate 12 0) ([8, 8, 8, 8] @ replicate 12 0) 4660 443 ev"
proof -
  let ?img = "map (\<lambda>i. sample_socket (4096 + word_of_nat i)) [0..<136]"
  have u: "[0..<4] = [0, 1, 2, 3 :: nat]" by code_simp
  have "subseq_at 16 2 ?img = [2, 0]" "subseq_at 14 2 ?img = [0x34, 0x12]" "subseq_at 12 2 ?img = [1, 187]"
    "subseq_at 4 4 ?img = [10, 0, 0, 1]" "subseq_at 0 4 ?img = [8, 8, 8, 8]"
    by (simp_all add: at_map_upt sample_socket_def u)
  then show ?thesis
    by (simp add: socket_spec_def AF_INET_def from_ne_bytes_def from_be_bytes_def)
qed

theorem fill_socket_reads_connection_witness:
  "fill_socket LittleEndian sample_helpers NetEvent_default 4096 =
     Inr (set_endpoints ([10, 0, 0, 1] @ replicate 12 0) ([8, 8, 8, 8] @ replicate 12 0) 4660 443 NetEvent_default)"
  unfolding fill_socket_reads_connection[OF sample_reads_exactly] sample_read by (simp add: sample_spec)

end
