(* ===== verification/Fexit_Probes.thy ===== *)
theory Fexit_Probes
  imports Socket_Probe
begin

text \<open>
  The two tracing programs: \<open>tcp_v4_connect_exit\<close> (\<open>rustguard-ebpf/src/fexit_tcp4_egress.rs\<close>), run when
  \<open>tcp_v4_connect\<close> returns, and \<open>incoming_connection\<close> (\<open>fexit_tcp4_accept.rs\<close>), run when
  \<open>inet_csk_accept\<close> returns. The context gives the arguments of the traced function, one 64-bit slot
  each with the return value behind them, and \<open>ret()\<close>, which may fail.

  The record written to the ring is the memory image of the event; \<open>pad\<close> is its padding byte.
\<close>

record fexit_ctx =
  fx_arg :: "nat \<Rightarrow> u64"
  fx_ret :: "i64 + u64"

text \<open>The events both programs build before they read the socket.\<close>

definition connect_event :: "helpers \<Rightarrow> u64 \<Rightarrow> i32 \<Rightarrow> NetEvent" where
  "connect_event h sk ret =
     NetEvent_default\<lparr>ev_ret := ret, ev_timestamp_ns := timestamp_ns h, ev_socket_id := sk,
       ev_pid := pid h, ev_tid := tid h, ev_uid := uid h,
       ev_event := Connect, ev_direction := EventType_direction Connect\<rparr>"

definition accept_event :: "helpers \<Rightarrow> u64 \<Rightarrow> NetEvent" where
  "accept_event h newsk =
     NetEvent_default\<lparr>ev_timestamp_ns := timestamp_ns h, ev_socket_id := newsk,
       ev_pid := pid h, ev_tid := tid h, ev_uid := uid h,
       ev_event := Accept, ev_direction := EventType_direction Accept\<rparr>"

text \<open>
  The common tail: the protocol, the connection and the process name are filled in, then the event is
  written to the ring; the first error returns.
\<close>

definition finish_event ::
  "endian \<Rightarrow> u8 \<Rightarrow> 'r ring_output \<Rightarrow> helpers \<Rightarrow> u64 \<Rightarrow> NetEvent \<Rightarrow> 'r \<Rightarrow> u32 + 'r" where
  "finish_event en pad out h sk event r =
     res_bind (map_err ucast (protocol en h sk)) (\<lambda>proto.
     res_bind (map_err ucast (fill_socket en h (event\<lparr>ev_protocol := proto\<rparr>) sk)) (\<lambda>event.
     res_bind (map_err ucast (current_comm h)) (\<lambda>comm.
     map_err ucast (out r (encode_net_event en pad (event\<lparr>ev_comm := comm\<rparr>)) 0))))"

definition try_tcp_v4_connect_exit ::
  "endian \<Rightarrow> u8 \<Rightarrow> 'r ring_output \<Rightarrow> helpers \<Rightarrow> fexit_ctx \<Rightarrow> 'r \<Rightarrow> u32 + 'r" where
  "try_tcp_v4_connect_exit en pad out h ctx r =
     (let sk = fx_arg ctx 0; ret = ucast (fx_arg ctx 3) :: i32
      in finish_event en pad out h sk (connect_event h sk ret) r)"

definition try_incoming_connection ::
  "endian \<Rightarrow> u8 \<Rightarrow> 'r ring_output \<Rightarrow> helpers \<Rightarrow> fexit_ctx \<Rightarrow> 'r \<Rightarrow> u32 + 'r" where
  "try_incoming_connection en pad out h ctx r =
     res_bind (map_err ucast (fx_ret ctx)) (\<lambda>newsk.
       if newsk = 0 then Inr r
       else finish_event en pad out h newsk (accept_event h newsk) r)"

text \<open>The entry points: the result is 0 whatever happens; an error leaves the ring as it was.\<close>

definition tcp_v4_connect_exit ::
  "endian \<Rightarrow> u8 \<Rightarrow> 'r ring_output \<Rightarrow> helpers \<Rightarrow> fexit_ctx \<Rightarrow> 'r \<Rightarrow> u32 \<times> 'r" where
  "tcp_v4_connect_exit en pad out h ctx r =
     (case try_tcp_v4_connect_exit en pad out h ctx r of Inr r' \<Rightarrow> (0, r') | Inl _ \<Rightarrow> (0, r))"

definition incoming_connection ::
  "endian \<Rightarrow> u8 \<Rightarrow> 'r ring_output \<Rightarrow> helpers \<Rightarrow> fexit_ctx \<Rightarrow> 'r \<Rightarrow> u32 \<times> 'r" where
  "incoming_connection en pad out h ctx r =
     (case try_incoming_connection en pad out h ctx r of Inr r' \<Rightarrow> (0, r') | Inl _ \<Rightarrow> (0, r))"

section \<open>What is written to the ring\<close>

text \<open>The event the socket at \<open>sk\<close> gives, when every helper succeeds.\<close>

definition observed :: "endian \<Rightarrow> helpers \<Rightarrow> u64 \<Rightarrow> NetEvent \<Rightarrow> NetEvent option" where
  "observed en h sk event =
     (case (protocol en h sk, bpf_probe_read_kernel h sk 136, bpf_get_current_comm h) of
        (Inr proto, Inr img, Inr comm) \<Rightarrow>
          Some ((socket_spec en img (event\<lparr>ev_protocol := proto\<rparr>))\<lparr>ev_comm := comm\<rparr>)
      | _ \<Rightarrow> None)"

lemma finish_event_eq:
  assumes "reads_exactly h"
  shows "(case observed en h sk event of
       None \<Rightarrow> \<exists>e. finish_event en pad out h sk event r = Inl e
     | Some ev \<Rightarrow> finish_event en pad out h sk event r = map_err ucast (out r (encode_net_event en pad ev) 0))"
proof (cases "bpf_probe_read_kernel h sk 136")
  case (Inl e)
  then show ?thesis
    by (cases "protocol en h sk") (auto simp: observed_def finish_event_def fill_socket_error split: sum.split)
next
  case (Inr img)
  then have "length img = 136" using assms unfolding reads_exactly_def by blast
  then show ?thesis
    using fill_socket_eq[OF Inr] Inr
    by (cases "protocol en h sk"; cases "bpf_get_current_comm h")
      (auto simp: observed_def finish_event_def current_comm_def)
qed

text \<open>What a probe leaves in the ring, given the event it observes.\<close>

definition written :: "endian \<Rightarrow> u8 \<Rightarrow> 'r ring_output \<Rightarrow> 'r \<Rightarrow> NetEvent option \<Rightarrow> 'r" where
  "written en pad out r obs =
     (case obs of None \<Rightarrow> r
      | Some ev \<Rightarrow> (case out r (encode_net_event en pad ev) 0 of Inl _ \<Rightarrow> r | Inr r' \<Rightarrow> r'))"

lemma finish_event_written:
  assumes "reads_exactly h"
  shows "(case finish_event en pad out h sk event r of Inr r' \<Rightarrow> (0, r') | Inl e \<Rightarrow> (0, r)) =
    (0 :: u32, written en pad out r (observed en h sk event))"
  using finish_event_eq[OF assms, where en = en and sk = sk and event = event and pad = pad and out = out and r = r]
  by (auto simp: written_def split: option.splits sum.splits)

section \<open>Specification of the recorded event\<close>

text \<open>
  Every field of the event from what the kernel says, without the code's own wrappers: the process id is the upper
  half of \<open>bpf_get_current_pid_tgid\<close> and the thread id its lower half, the user id the lower half of
  \<open>bpf_get_current_uid_gid\<close>; the protocol is the number in the two bytes at offset 548 of the socket (6 is TCP,
  17 is UDP); the addresses and ports are those of its first 136 bytes. When one of the three reads fails there
  is no event.
\<close>

definition probe_spec :: "endian \<Rightarrow> helpers \<Rightarrow> EventType \<Rightarrow> Direction \<Rightarrow> i32 \<Rightarrow> u64 \<Rightarrow> NetEvent option" where
  "probe_spec en h kind dir ret sk =
     (case (bpf_probe_read_kernel h (sk + 548) 2, bpf_probe_read_kernel h sk 136, bpf_get_current_comm h) of
        (Inr pb, Inr img, Inr comm) \<Rightarrow>
          let proto = from_ne_bytes en pb :: u16
          in Some (socket_spec en img
            \<lparr>ev_timestamp_ns = bpf_ktime_get_ns h, ev_socket_id = sk,
             ev_pid = word_of_nat (unat (bpf_get_current_pid_tgid h) div 2 ^ 32),
             ev_tid = word_of_nat (unat (bpf_get_current_pid_tgid h) mod 2 ^ 32),
             ev_uid = word_of_nat (unat (bpf_get_current_uid_gid h) mod 2 ^ 32),
             ev_event = kind,
             ev_protocol = (if proto = 6 then Tcp else if proto = 17 then Udp else ProtoUnknown),
             ev_direction = dir, ev_comm = comm,
             ev_src_ip = replicate 16 0, ev_dst_ip = replicate 16 0, ev_src_port = 0, ev_dst_port = 0,
             ev_ret = ret\<rparr>)
      | _ \<Rightarrow> None)"

lemma id_halves:
  "pid h = word_of_nat (unat (bpf_get_current_pid_tgid h) div 2 ^ 32)"
  "tid h = word_of_nat (unat (bpf_get_current_pid_tgid h) mod 2 ^ 32)"
  "uid h = word_of_nat (unat (bpf_get_current_uid_gid h) mod 2 ^ 32)"
proof -
  have low: "(ucast w :: u32) = word_of_nat (unat w mod 2 ^ 32)" for w :: u64
    by (simp add: word_unat_eq_iff unsigned_ucast_eq unat_of_nat take_bit_eq_mod)
  have "unat (drop_bit 32 w) = unat w div 2 ^ 32" for w :: u64
    using unat_drop_bit_eq[of 32 w] by (simp add: drop_bit_nat_def del: unat_drop_bit_eq)
  then show "pid h = word_of_nat (unat (bpf_get_current_pid_tgid h) div 2 ^ 32)"
    unfolding pid_def by (metis of_nat_unat)
  show "tid h = word_of_nat (unat (bpf_get_current_pid_tgid h) mod 2 ^ 32)"
    and "uid h = word_of_nat (unat (bpf_get_current_uid_gid h) mod 2 ^ 32)"
    unfolding tid_def uid_def by (rule low)+
qed

text \<open>The order in which the code fills the event does not matter.\<close>

lemma socket_spec_comm: "(socket_spec en img ev)\<lparr>ev_comm := comm\<rparr> = socket_spec en img (ev\<lparr>ev_comm := comm\<rparr>)"
  by (simp add: socket_spec_def set_endpoints_def Let_def)

lemma observed_connect: "observed en h sk (connect_event h sk ret) = probe_spec en h Connect Egress ret sk"
  by (simp add: observed_def probe_spec_def protocol_eq connect_event_def NetEvent_default_def socket_spec_comm id_halves
      timestamp_ns_def IPPROTO_TCP_def IPPROTO_UDP_def Let_def split: sum.split)

lemma observed_accept: "observed en h sk (accept_event h sk) = probe_spec en h Accept Ingress 0 sk"
  by (simp add: observed_def probe_spec_def protocol_eq accept_event_def NetEvent_default_def socket_spec_comm id_halves
      timestamp_ns_def IPPROTO_TCP_def IPPROTO_UDP_def Let_def split: sum.split)

lemma connect_exit_written:
  assumes "reads_exactly h"
  shows "tcp_v4_connect_exit en pad out h ctx r =
    (0, written en pad out r (probe_spec en h Connect Egress (ucast (fx_arg ctx 3)) (fx_arg ctx 0)))"
  unfolding tcp_v4_connect_exit_def try_tcp_v4_connect_exit_def Let_def observed_connect[symmetric]
  by (rule finish_event_written[OF assms])

lemma accept_exit_written:
  assumes "reads_exactly h"
  shows "incoming_connection en pad out h ctx r =
    (0, written en pad out r
       (case fx_ret ctx of Inl _ \<Rightarrow> None
        | Inr newsk \<Rightarrow> if newsk = 0 then None else probe_spec en h Accept Ingress 0 newsk))"
proof (cases "fx_ret ctx")
  case (Inr newsk)
  then show ?thesis
    using finish_event_written[OF assms, where sk = newsk and event = "accept_event h newsk"
        and en = en and pad = pad and out = out and r = r]
    by (simp add: incoming_connection_def try_incoming_connection_def written_def observed_accept)
qed (simp add: incoming_connection_def try_incoming_connection_def written_def)

context ring_buffer
begin

lemma written_records:
  "records (written en pad out r obs) = records r \<or>
   (\<exists>ev. obs = Some ev \<and> records (written en pad out r obs) = records r @ [encode_net_event en pad ev])"
  by (auto simp: written_def output_appends split: option.split sum.split)

end

section \<open>Properties\<close>

text \<open>What the helper for the process name promises.\<close>

definition comm_ok :: "helpers \<Rightarrow> bool" where
  "comm_ok h \<longleftrightarrow> (\<forall>comm. bpf_get_current_comm h = Inr comm \<longrightarrow> length comm = TASK_COMM_LEN)"

lemma probe_spec_wf:
  assumes "reads_exactly h" and "comm_ok h" and "probe_spec en h kind dir ret sk = Some ev"
  shows "net_event_wf ev"
proof -
  obtain pb img comm where reads: "bpf_probe_read_kernel h (sk + 548) 2 = Inr pb" "bpf_probe_read_kernel h sk 136 = Inr img"
      "bpf_get_current_comm h = Inr comm"
    using assms(3) by (auto simp: probe_spec_def split: sum.splits)
  moreover have "length img = 136" "length comm = TASK_COMM_LEN"
    using assms(1,2) reads unfolding reads_exactly_def comm_ok_def by blast+
  ultimately show ?thesis
    using assms(3) by (auto simp: probe_spec_def Let_def net_event_wf_def intro!: socket_spec_wf[unfolded net_event_wf_def])
qed

text \<open>
  C12. The probe of outgoing connections returns 0 and writes, when the ring takes it, the memory image of the event
  \<open>probe_spec\<close> gives field by field: a \<open>Connect\<close> event of direction \<open>Egress\<close> with the time, the process, thread and
  user ids and the name of the task, the address, protocol, addresses and ports of the socket in argument 0, and
  the result of \<open>tcp_v4_connect\<close>, the low 32 bits of slot 3; when a read fails, nothing is written.
\<close>

theorem connect_probe_reports_connection:
  assumes "reads_exactly h"
  shows "tcp_v4_connect_exit en pad out h ctx r =
    (0, written en pad out r (probe_spec en h Connect Egress (ucast (fx_arg ctx 3)) (fx_arg ctx 0)))"
  by (rule connect_exit_written[OF assms])

lemma sample_probe_spec:
  "probe_spec LittleEndian sample_helpers kind dir ret 4096 =
     Some \<lparr>ev_timestamp_ns = 77, ev_socket_id = 4096, ev_pid = 42, ev_tid = 43, ev_uid = 1000, ev_event = kind,
       ev_protocol = Tcp, ev_direction = dir, ev_comm = map of_char ''curl'' @ replicate 12 0,
       ev_src_ip = [10, 0, 0, 1] @ replicate 12 0, ev_dst_ip = [8, 8, 8, 8] @ replicate 12 0,
       ev_src_port = 4660, ev_dst_port = 443, ev_ret = ret\<rparr>"
proof -
  have "bpf_probe_read_kernel sample_helpers (4096 + 548) 2 = Inr [6, 0]"
    by (simp add: sample_helpers_def sample_socket_def upt_rec)
  moreover have "(from_ne_bytes LittleEndian [6, 0] :: u16) = 6" by (simp add: from_ne_bytes_def)
  moreover have "bpf_ktime_get_ns sample_helpers = 77" "bpf_get_current_pid_tgid sample_helpers = 0x2a0000002b"
    "bpf_get_current_uid_gid sample_helpers = 1000"
    "bpf_get_current_comm sample_helpers = Inr (map of_char ''curl'' @ replicate 12 0)"
    by (simp_all add: sample_helpers_def)
  ultimately show ?thesis
    by (simp add: probe_spec_def sample_read sample_spec set_endpoints_def Let_def)
qed

text \<open>A non-blocking connect through that socket: the call returned \<open>-EINPROGRESS\<close>, \<open>2 ^ 32 - 115\<close>.\<close>

definition sample_fexit :: fexit_ctx where
  "sample_fexit = \<lparr>fx_arg = (\<lambda>i. if i = 0 then 4096 else if i = 3 then 0xffffff8d else 0), fx_ret = Inr 0\<rparr>"

definition sample_connect :: NetEvent where
  "sample_connect =
     \<lparr>ev_timestamp_ns = 77, ev_socket_id = 4096, ev_pid = 42, ev_tid = 43, ev_uid = 1000, ev_event = Connect,
      ev_protocol = Tcp, ev_direction = Egress, ev_comm = map of_char ''curl'' @ replicate 12 0,
      ev_src_ip = [10, 0, 0, 1] @ replicate 12 0, ev_dst_ip = [8, 8, 8, 8] @ replicate 12 0,
      ev_src_port = 4660, ev_dst_port = 443, ev_ret = 0xffffff8d\<rparr>"

lemma sample_connect_wf: "net_event_wf sample_connect"
  by (simp add: sample_connect_def net_event_wf_def TASK_COMM_LEN_def)

lemma sample_fexit_observed:
  "probe_spec LittleEndian sample_helpers Connect Egress (ucast (fx_arg sample_fexit 3)) (fx_arg sample_fexit 0) =
     Some sample_connect"
  by (simp add: sample_fexit_def sample_probe_spec sample_connect_def)

lemma sample_written:
  "written LittleEndian 0 (bounded_output EVENTS_byte_size) [] (Some sample_connect) =
     [encode_net_event LittleEndian 0 sample_connect]"
  using sample_connect_wf
  by (simp add: written_def bounded_output_def ring_used_def EVENTS_byte_size_def align_up_def)

theorem connect_probe_reports_connection_witness:
  "tcp_v4_connect_exit LittleEndian 0 (bounded_output EVENTS_byte_size) sample_helpers sample_fexit [] =
     (0, [encode_net_event LittleEndian 0 sample_connect])"
  unfolding connect_probe_reports_connection[OF sample_reads_exactly] sample_fexit_observed sample_written ..

text \<open>
  C22. The probe of accepted connections returns 0; when \<open>inet_csk_accept\<close> returned no socket, or its result
  cannot be read, or a read fails, it writes nothing. Otherwise it writes, when the ring takes it, the memory image
  of the event \<open>probe_spec\<close> gives field by field: an \<open>Accept\<close> event of direction \<open>Ingress\<close> and result 0 with the
  time, ids and name of the task and the address, protocol, addresses and ports of the returned socket.
\<close>

theorem accept_probe_reports_connection:
  assumes "reads_exactly h"
  shows "incoming_connection en pad out h ctx r =
    (0, written en pad out r
       (case fx_ret ctx of Inl _ \<Rightarrow> None
        | Inr newsk \<Rightarrow> if newsk = 0 then None else probe_spec en h Accept Ingress 0 newsk))"
  by (rule accept_exit_written[OF assms])

definition sample_accept :: NetEvent where
  "sample_accept = sample_connect\<lparr>ev_event := Accept, ev_direction := Ingress, ev_ret := 0\<rparr>"

theorem accept_probe_reports_connection_witness:
  "incoming_connection LittleEndian 0 (bounded_output EVENTS_byte_size) sample_helpers
     \<lparr>fx_arg = (\<lambda>i. 0), fx_ret = Inr 4096\<rparr> [] = (0, [encode_net_event LittleEndian 0 sample_accept]) \<and>
   incoming_connection LittleEndian 0 (bounded_output EVENTS_byte_size) sample_helpers
     \<lparr>fx_arg = (\<lambda>i. 4096), fx_ret = Inr 0\<rparr> [[1, 2, 3]] = (0, [[1, 2, 3]])"
proof -
  have "net_event_wf sample_accept" using sample_connect_wf by (simp add: sample_accept_def net_event_wf_def)
  then have "length (encode_net_event LittleEndian 0 sample_accept) = 88" by simp
  moreover have "probe_spec LittleEndian sample_helpers Accept Ingress 0 4096 = Some sample_accept"
    by (simp add: sample_probe_spec sample_accept_def sample_connect_def)
  ultimately show ?thesis
    unfolding accept_probe_reports_connection[OF sample_reads_exactly]
    by (simp add: written_def bounded_output_def ring_used_def EVENTS_byte_size_def align_up_def)
qed

text \<open>
  Every record the probe of outgoing connections adds to the ring decodes, on the reading side, to
  an egress event with the time and the process, thread and user ids of the task that connected, the
  socket, and the result of the call.
\<close>

theorem probe_records_decode:
  assumes "ring_buffer out records" and "reads_exactly h" and "comm_ok h"
    and "records (snd (tcp_v4_connect_exit en pad out h ctx r)) = records r @ [bs]"
  shows "\<exists>ev. decode_net_event en bs = Some ev \<and> ev_event ev = Connect \<and> ev_direction ev = Egress \<and>
    ev_timestamp_ns ev = timestamp_ns h \<and> ev_pid ev = pid h \<and> ev_tid ev = tid h \<and> ev_uid ev = uid h \<and>
    ev_socket_id ev = fx_arg ctx 0 \<and> ev_ret ev = ucast (fx_arg ctx 3)"
proof -
  let ?obs = "probe_spec en h Connect Egress (ucast (fx_arg ctx 3)) (fx_arg ctx 0)"
  have "snd (tcp_v4_connect_exit en pad out h ctx r) = written en pad out r ?obs"
    by (simp add: connect_exit_written[OF assms(2)])
  then obtain ev where obs: "?obs = Some ev" and bs: "bs = encode_net_event en pad ev"
    using ring_buffer.written_records[OF assms(1), of en pad r ?obs] assms(4) by auto
  have "net_event_wf ev" using probe_spec_wf[OF assms(2,3) obs] .
  moreover have "ev_event ev = Connect" "ev_direction ev = Egress" "ev_timestamp_ns ev = timestamp_ns h"
    "ev_pid ev = pid h" "ev_tid ev = tid h" "ev_uid ev = uid h" "ev_socket_id ev = fx_arg ctx 0"
    "ev_ret ev = ucast (fx_arg ctx 3)"
    using obs by (auto simp: probe_spec_def socket_spec_def set_endpoints_def id_halves timestamp_ns_def Let_def
        split: sum.splits)
  ultimately show ?thesis using decode_encode_net_event bs by blast
qed

theorem probe_records_decode_witness:
  "\<exists>ev. decode_net_event LittleEndian (encode_net_event LittleEndian 0 sample_connect) = Some ev \<and>
     ev_pid ev = 42 \<and> ev_tid ev = 43 \<and> ev_direction ev = Egress"
proof -
  have "comm_ok sample_helpers" by (simp add: comm_ok_def sample_helpers_def TASK_COMM_LEN_def)
  moreover have "id (snd (tcp_v4_connect_exit LittleEndian 0 (bounded_output EVENTS_byte_size) sample_helpers
      sample_fexit [])) = id [] @ [encode_net_event LittleEndian 0 sample_connect]"
    by (simp add: connect_exit_written[OF sample_reads_exactly] sample_fexit_observed sample_written)
  ultimately show ?thesis
    using probe_records_decode[OF bounded.ring_buffer_axioms sample_reads_exactly]
    by (fastforce simp: pid_def tid_def sample_helpers_def)
qed

end
