(* ===== verification/Utf8.thy ===== *)
theory Utf8
  imports Prelude
begin

unbundle bit_operations_syntax

text \<open>
  \<open>String::from_utf8_lossy\<close>, which the monitor applies to process names. \<open>utf8_step\<close> is the test of the
  standard library for the sequence at the head of a byte string: whether it is the encoding of one
  scalar value, and how many bytes it takes; an ill-formed sequence takes the bytes read before the one
  that breaks it, at least one. Each ill-formed sequence is replaced by U+FFFD. The test agrees with the
  definition of the encoding (\<open>utf8_text\<close>).
\<close>

definition utf8_width :: "u8 \<Rightarrow> nat" where
  "utf8_width b =
     (if b < 0x80 then 1 else if 0xC2 \<le> b \<and> b \<le> 0xDF then 2 else if 0xE0 \<le> b \<and> b \<le> 0xEF then 3
      else if 0xF0 \<le> b \<and> b \<le> 0xF4 then 4 else 0)"

definition is_cont :: "u8 \<Rightarrow> bool" where
  "is_cont b \<longleftrightarrow> b AND 0xC0 = 0x80"

definition second_ok :: "u8 \<Rightarrow> u8 \<Rightarrow> bool" where
  "second_ok b b1 \<longleftrightarrow>
     (if b = 0xE0 then 0xA0 \<le> b1 \<and> b1 \<le> 0xBF
      else if b = 0xED then 0x80 \<le> b1 \<and> b1 \<le> 0x9F
      else if b = 0xF0 then 0x90 \<le> b1 \<and> b1 \<le> 0xBF
      else if b = 0xF4 then 0x80 \<le> b1 \<and> b1 \<le> 0x8F
      else 0x80 \<le> b1 \<and> b1 \<le> 0xBF)"

text \<open>\<open>safe_get\<close>: the byte at an index, 0 behind the end.\<close>

definition byte_at :: "bytes \<Rightarrow> nat \<Rightarrow> u8" where
  "byte_at bs i = (if i < length bs then bs ! i else 0)"

definition utf8_step :: "bytes \<Rightarrow> bool \<times> nat" where
  "utf8_step bs =
     (let b = byte_at bs 0; w = utf8_width b
      in if w = 1 then (True, 1)
         else if w = 2 then if is_cont (byte_at bs 1) then (True, 2) else (False, 1)
         else if w = 3 then
           if \<not> second_ok b (byte_at bs 1) then (False, 1)
           else if is_cont (byte_at bs 2) then (True, 3) else (False, 2)
         else if w = 4 then
           if \<not> second_ok b (byte_at bs 1) then (False, 1)
           else if \<not> is_cont (byte_at bs 2) then (False, 2)
           else if is_cont (byte_at bs 3) then (True, 4) else (False, 3)
         else (False, 1))"

lemma utf8_step_pos: "0 < snd (utf8_step bs)"
  by (simp add: utf8_step_def Let_def)

lemma utf8_step_progress: "(ok, n) = utf8_step bs \<Longrightarrow> 0 < n"
  using utf8_step_pos[of bs] by (metis snd_conv)

definition replacement :: bytes where
  "replacement = [0xEF, 0xBF, 0xBD]"

function from_utf8_lossy :: "bytes \<Rightarrow> bytes" where
  "from_utf8_lossy bs =
     (if bs = [] then []
      else case utf8_step bs of (ok, n) \<Rightarrow>
        (if ok then take n bs else replacement) @ from_utf8_lossy (drop n bs))"
  by auto
termination by (relation "measure length") (auto dest: utf8_step_progress)

function utf8_valid :: "bytes \<Rightarrow> bool" where
  "utf8_valid bs \<longleftrightarrow>
     (if bs = [] then True else case utf8_step bs of (ok, n) \<Rightarrow> ok \<and> utf8_valid (drop n bs))"
  by auto
termination by (relation "measure length") (auto dest: utf8_step_progress)

declare from_utf8_lossy.simps [simp del] utf8_valid.simps [simp del]

lemma utf8_nil [simp]: "from_utf8_lossy [] = []" "utf8_valid []"
  by (subst from_utf8_lossy.simps, simp) (subst utf8_valid.simps, simp)

lemma byte_at_0: "\<not> is_cont 0" "\<not> second_ok b 0"
  by (simp_all add: is_cont_def second_ok_def)

text \<open>A well-formed sequence lies inside the bytes, and stays well formed whatever follows it.\<close>

lemma utf8_step_length:
  assumes "utf8_step bs = (True, n)" and "bs \<noteq> []"
  shows "n \<le> length bs"
proof -
  have "i < length bs" if "is_cont (byte_at bs i) \<or> second_ok b (byte_at bs i)" for i b
    using that byte_at_0 by (auto simp: byte_at_def split: if_splits)
  note this[of 1] this[of 2] this[of 3]
  moreover have "1 \<le> length bs" using assms(2) by (simp add: Suc_le_eq)
  ultimately show ?thesis
    using assms(1) unfolding utf8_step_def Let_def by (auto split: if_splits simp del: One_nat_def)
qed

lemma utf8_step_append:
  assumes "utf8_step bs = (True, n)" and "bs \<noteq> []"
  shows "utf8_step (take n bs @ rest) = (True, n)"
proof -
  have n: "n \<le> length bs" by (rule utf8_step_length[OF assms])
  have "byte_at (take n bs @ rest) i = byte_at bs i" if "i < n" for i
    using that n by (simp add: byte_at_def nth_append)
  note this[of 0] this[of 1] this[of 2] this[of 3]
  then show ?thesis
    using assms utf8_step_pos[of bs] by (auto simp: utf8_step_def Let_def split: if_splits)
qed

lemma utf8_valid_append:
  assumes "utf8_step bs = (True, n)" and "bs \<noteq> []" and "utf8_valid rest"
  shows "utf8_valid (take n bs @ rest)"
proof -
  have "take n bs \<noteq> []" using utf8_step_pos[of bs] assms(1,2) by simp
  then show ?thesis
    using utf8_step_append[OF assms(1,2), of rest] utf8_step_length[OF assms(1,2)] assms(3)
    by (subst utf8_valid.simps) (simp add: min_absorb2)
qed

lemma utf8_replacement: "utf8_valid rest \<Longrightarrow> utf8_valid (replacement @ rest)"
  using utf8_valid_append[of replacement 3 rest]
  by (simp add: utf8_step_def byte_at_def replacement_def utf8_width_def second_ok_def is_cont_def)

lemma from_utf8_lossy_valid: "utf8_valid (from_utf8_lossy bs)"
proof (induction bs rule: from_utf8_lossy.induct)
  case (1 bs)
  show ?case
  proof (cases "bs = []")
    case False
    obtain ok n where s: "utf8_step bs = (ok, n)" by (cases "utf8_step bs")
    have IH: "utf8_valid (from_utf8_lossy (drop n bs))" using 1[OF False s[symmetric]] .
    have "utf8_valid ((if ok then take n bs else replacement) @ from_utf8_lossy (drop n bs))"
      using utf8_valid_append[of bs n] utf8_replacement s False IH by simp
    then show ?thesis using False s by (simp add: from_utf8_lossy.simps[of bs])
  qed simp
qed

lemma from_utf8_lossy_id: "utf8_valid bs \<Longrightarrow> from_utf8_lossy bs = bs"
proof (induction bs rule: from_utf8_lossy.induct)
  case (1 bs)
  show ?case
  proof (cases "bs = []")
    case False
    obtain ok n where s: "utf8_step bs = (ok, n)" by (cases "utf8_step bs")
    have v: "ok" "utf8_valid (drop n bs)" using 1(2) s False by (simp_all add: utf8_valid.simps[of bs])
    then show ?thesis
      using 1(1)[OF False s[symmetric] v(2)] s False by (simp add: from_utf8_lossy.simps[of bs])
  qed simp
qed

section \<open>The encoding form\<close>

text \<open>
  UTF-8 as RFC 3629 defines it: the scalar values are the code points without the surrogates, and each
  is encoded in one to four bytes.
\<close>

definition scalar_value :: "nat \<Rightarrow> bool" where
  "scalar_value c \<longleftrightarrow> c < 0xD800 \<or> (0xE000 \<le> c \<and> c < 0x110000)"

definition utf8_encode :: "nat \<Rightarrow> bytes" where
  "utf8_encode c = map word_of_nat
     (if c < 0x80 then [c]
      else if c < 0x800 then [0xC0 + c div 64, 0x80 + c mod 64]
      else if c < 0x10000 then [0xE0 + c div 4096, 0x80 + c div 64 mod 64, 0x80 + c mod 64]
      else [0xF0 + c div 262144, 0x80 + c div 4096 mod 64, 0x80 + c div 64 mod 64, 0x80 + c mod 64])"

lemma is_cont_nat: "is_cont b \<longleftrightarrow> 128 \<le> unat b \<and> unat b < 192"
proof -
  have "list_all (\<lambda>n. is_cont (word_of_nat n) \<longleftrightarrow> 128 \<le> n \<and> n < 192) [0..<256]"
    by code_simp
  then have "\<forall>n<256. is_cont (word_of_nat n) \<longleftrightarrow> 128 \<le> n \<and> n < 192" by (simp add: list_all_iff)
  moreover have "word_of_nat (unat b) = b" by simp
  ultimately show ?thesis using unat_u8_less[of b] by metis
qed

lemmas byte_nat = word_le_nat_alt word_less_nat_alt is_cont_nat word_unat_eq_iff

lemma byte_width_nat:
  "utf8_width b = (if unat b < 128 then 1 else if 194 \<le> unat b \<and> unat b \<le> 223 then 2
     else if 224 \<le> unat b \<and> unat b \<le> 239 then 3 else if 240 \<le> unat b \<and> unat b \<le> 244 then 4 else 0)"
  by (simp add: utf8_width_def byte_nat)

lemma second_ok_nat:
  "second_ok b b1 \<longleftrightarrow>
     (if unat b = 224 then 160 else if unat b = 240 then 144 else 128) \<le> unat b1 \<and>
     unat b1 \<le> (if unat b = 237 then 159 else if unat b = 244 then 143 else 191)"
  by (simp add: second_ok_def byte_nat)

text \<open>Every well-formed sequence encodes a scalar value, which its bits spell.\<close>

lemma of_nat_byte: "unat b = n \<Longrightarrow> word_of_nat n = (b :: u8)"
  by auto

lemma sextet: "e < 64 \<Longrightarrow> (64 * q + e) div 64 = q" "e < 64 \<Longrightarrow> (64 * q + e) mod 64 = e" for q e :: nat
  by simp_all

lemma encode2:
  assumes "x = 192 + a" "y = 128 + d" "2 \<le> a" "a < 32" "d < 64"
  shows "utf8_encode (64 * a + d) = map word_of_nat [x, y]" and "scalar_value (64 * a + d)"
  using assms by (simp_all add: utf8_encode_def scalar_value_def)

lemma encode3:
  assumes "x = 224 + a" "y = 128 + d" "z = 128 + e" "a < 16" "d < 64" "e < 64"
    and "a = 0 \<longrightarrow> 32 \<le> d" "a = 13 \<longrightarrow> d < 32"
  shows "utf8_encode (4096 * a + 64 * d + e) = map word_of_nat [x, y, z]" and "scalar_value (4096 * a + 64 * d + e)"
proof -
  let ?c = "4096 * a + 64 * d + e"
  have c: "?c = 64 * (64 * a + d) + e" by simp
  have "?c div 4096 = ?c div 64 div 64" by (simp add: div_mult2_eq[symmetric])
  moreover have "?c div 64 = 64 * a + d" "?c mod 64 = e" unfolding c using assms(6) by (simp_all only: sextet)
  ultimately have "?c div 4096 = a" "?c div 64 mod 64 = d" "?c mod 64 = e"
    using sextet[OF assms(5), of a] by simp_all
  moreover have "0x800 \<le> ?c" "?c < 0x10000" using assms(4-8) by (cases "a = 0"; linarith)+
  ultimately show "utf8_encode ?c = map word_of_nat [x, y, z]" using assms(1-3) by (simp add: utf8_encode_def)
  show "scalar_value ?c" using assms(4-8) by (cases "a = 13"; auto simp: scalar_value_def)
qed

lemma encode4:
  assumes "x = 240 + a" "y = 128 + d" "z = 128 + e" "u = 128 + f" "a < 5" "d < 64" "e < 64" "f < 64"
    and "a = 0 \<longrightarrow> 16 \<le> d" "a = 4 \<longrightarrow> d < 16"
  shows "utf8_encode (262144 * a + 4096 * d + 64 * e + f) = map word_of_nat [x, y, z, u]"
    and "scalar_value (262144 * a + 4096 * d + 64 * e + f)"
proof -
  let ?c = "262144 * a + 4096 * d + 64 * e + f"
  have c: "?c = 64 * (64 * (64 * a + d) + e) + f" by simp
  have "?c div 4096 = ?c div 64 div 64" "?c div 262144 = ?c div 64 div 64 div 64"
    by (simp_all add: div_mult2_eq[symmetric])
  moreover have "?c div 64 = 64 * (64 * a + d) + e" "?c mod 64 = f" unfolding c using assms(8) by (simp_all only: sextet)
  ultimately have "?c div 262144 = a" "?c div 4096 mod 64 = d" "?c div 64 mod 64 = e" "?c mod 64 = f"
    using sextet[OF assms(6), of a] sextet[OF assms(7), of "64 * a + d"] by simp_all
  moreover have "0x10000 \<le> ?c" using assms(5-10) by (cases "a = 0"; linarith)
  ultimately show "utf8_encode ?c = map word_of_nat [x, y, z, u]" using assms(1-4) by (simp add: utf8_encode_def)
  show "scalar_value ?c"
    using \<open>0x10000 \<le> ?c\<close> assms(5-10) by (cases "a = 4"; auto simp: scalar_value_def)
qed

lemma take_bytes: "n \<le> length bs \<Longrightarrow> take n bs = map (byte_at bs) [0..<n]"
  by (rule nth_equalityI) (simp_all add: byte_at_def)

lemma step_encodes:
  assumes "utf8_step bs = (True, n)" and "bs \<noteq> []"
  shows "\<exists>c. scalar_value c \<and> utf8_encode c = take n bs"
proof -
  let ?b = "\<lambda>i. unat (byte_at bs i)"
  note t = take_bytes[OF utf8_step_length[OF assms]]
  have w: "word_of_nat (?b i) = byte_at bs i" for i by simp
  consider "n = 1" "?b 0 < 128"
    | "n = 2" "194 \<le> ?b 0" "?b 0 \<le> 223" "is_cont (byte_at bs 1)"
    | "n = 3" "224 \<le> ?b 0" "?b 0 \<le> 239" "second_ok (byte_at bs 0) (byte_at bs 1)" "is_cont (byte_at bs 2)"
    | "n = 4" "240 \<le> ?b 0" "?b 0 \<le> 244" "second_ok (byte_at bs 0) (byte_at bs 1)" "is_cont (byte_at bs 2)"
        "is_cont (byte_at bs 3)"
    using assms(1) by (auto simp: utf8_step_def Let_def byte_width_nat split: if_splits)
  then show ?thesis
  proof cases
    case 1
    have "take n bs = map word_of_nat [?b 0]" unfolding t using 1(1) by simp
    moreover have "utf8_encode (?b 0) = map word_of_nat [?b 0]" "scalar_value (?b 0)"
      using 1(2) by (simp_all add: utf8_encode_def scalar_value_def)
    ultimately show ?thesis by metis
  next
    case 2
    note e = encode2[of "?b 0" "?b 0 - 192" "?b 1" "?b 1 - 128"]
    have "take n bs = map word_of_nat [?b 0, ?b 1]" unfolding t using 2(1) by (simp add: numeral_2_eq_2)
    then show ?thesis using e 2 by (fastforce simp: is_cont_nat)
  next
    case 3
    note e = encode3[of "?b 0" "?b 0 - 224" "?b 1" "?b 1 - 128" "?b 2" "?b 2 - 128"]
    have "take n bs = map word_of_nat [?b 0, ?b 1, ?b 2]" unfolding t using 3(1) by (simp add: upt_rec numeral_2_eq_2 numeral_3_eq_3)
    then show ?thesis using e 3 by (fastforce simp: is_cont_nat second_ok_nat split: if_splits)
  next
    case 4
    note e = encode4[of "?b 0" "?b 0 - 240" "?b 1" "?b 1 - 128" "?b 2" "?b 2 - 128" "?b 3" "?b 3 - 128"]
    have "take n bs = map word_of_nat [?b 0, ?b 1, ?b 2, ?b 3]" unfolding t using 4(1) by (simp add: upt_rec numeral_2_eq_2 numeral_3_eq_3)
    then show ?thesis using e 4 by (fastforce simp: is_cont_nat second_ok_nat split: if_splits)
  qed
qed

lemma unat_byte: "n < 256 \<Longrightarrow> unat (word_of_nat n :: u8) = n"
  by (simp add: unat_of_nat)

lemmas step_shape = utf8_step_def byte_at_def byte_width_nat unat_byte is_cont_nat second_ok_nat Let_def

lemma step2:
  "194 \<le> x \<Longrightarrow> x \<le> 223 \<Longrightarrow> 128 \<le> y \<Longrightarrow> y < 192 \<Longrightarrow> utf8_step (map word_of_nat [x, y] @ rest) = (True, 2)"
  by (simp add: step_shape)

lemma step3:
  assumes "224 \<le> x" "x \<le> 239" "128 \<le> y" "y < 192" "128 \<le> z" "z < 192"
    and "x = 224 \<longrightarrow> 160 \<le> y" "x = 237 \<longrightarrow> y < 160"
  shows "utf8_step (map word_of_nat [x, y, z] @ rest) = (True, 3)"
  using assms by (auto simp: step_shape)

lemma step4:
  assumes "240 \<le> x" "x \<le> 244" "128 \<le> y" "y < 192" "128 \<le> z" "z < 192" "128 \<le> u" "u < 192"
    and "x = 240 \<longrightarrow> 144 \<le> y" "x = 244 \<longrightarrow> y < 144"
  shows "utf8_step (map word_of_nat [x, y, z, u] @ rest) = (True, 4)"
  using assms by (auto simp: step_shape)

lemma encode_step:
  assumes "scalar_value c"
  shows "utf8_step (utf8_encode c @ rest) = (True, length (utf8_encode c))"
proof -
  let ?q = "c div 64" and ?m = "c div 64 mod 64" and ?l = "c mod 64"
  have split: "c = 64 * ?q + ?l" "?q = 64 * (c div 4096) + ?m" "c div 4096 = 64 * (c div 262144) + c div 4096 mod 64"
    and small: "?l < 64" "?m < 64" "c div 4096 mod 64 < 64"
    using div_mult2_eq[of c 64 64] div_mult2_eq[of c 4096 64] by simp_all
  consider "c < 0x80" | "0x80 \<le> c" "c < 0x800" | "0x800 \<le> c" "c < 0x10000" | "0x10000 \<le> c" by linarith
  then show ?thesis
  proof cases
    case 1
    then show ?thesis by (simp add: utf8_encode_def step_shape)
  next
    case 2
    then have "2 \<le> c div 64" "c div 64 < 32" by auto
    then show ?thesis
      using 2 small(1) step2[of "0xC0 + c div 64" "0x80 + ?l" rest] by (simp add: utf8_encode_def del: of_nat_add)
  next
    case 3
    then have "c div 4096 < 16" by auto
    moreover have "c div 4096 = 0 \<longrightarrow> 32 \<le> ?m" "c div 4096 = 13 \<longrightarrow> ?m < 32"
      using 3 split(1,2) small assms unfolding scalar_value_def by linarith+
    ultimately show ?thesis
      using 3 small step3[of "0xE0 + c div 4096" "0x80 + ?m" "0x80 + ?l" rest]
      by (simp add: utf8_encode_def del: of_nat_add)
  next
    case 4
    then have "c div 262144 < 5" using assms by (auto simp: scalar_value_def)
    moreover have "c div 262144 = 0 \<longrightarrow> 16 \<le> c div 4096 mod 64" "c div 262144 = 4 \<longrightarrow> c div 4096 mod 64 < 16"
      using 4 split small assms unfolding scalar_value_def by linarith+
    ultimately show ?thesis
      using 4 small step4[of "0xF0 + c div 262144" "0x80 + c div 4096 mod 64" "0x80 + ?m" "0x80 + ?l" rest]
      by (simp add: utf8_encode_def del: of_nat_add)
  qed
qed

text \<open>The validity the code tests is that of the encoding form.\<close>

lemma utf8_encode_nonempty: "utf8_encode c \<noteq> []"
  by (simp add: utf8_encode_def)

lemma utf8_valid_encode:
  "\<forall>c \<in> set cs. scalar_value c \<Longrightarrow> utf8_valid (concat (map utf8_encode cs))"
proof (induction cs)
  case (Cons c cs)
  then have "utf8_step (utf8_encode c @ concat (map utf8_encode cs)) = (True, length (utf8_encode c))"
    using encode_step by simp
  then show ?case using Cons utf8_encode_nonempty[of c] by (subst utf8_valid.simps) simp
qed simp

lemma utf8_valid_decodes:
  "utf8_valid bs \<Longrightarrow> \<exists>cs. (\<forall>c \<in> set cs. scalar_value c) \<and> bs = concat (map utf8_encode cs)"
proof (induction bs rule: utf8_valid.induct)
  case (1 bs)
  show ?case
  proof (cases "bs = []")
    case True
    then show ?thesis by (intro exI[of _ "[]"]) simp
  next
    case False
    obtain n where s: "utf8_step bs = (True, n)" and v: "utf8_valid (drop n bs)"
      using 1(2) False by (subst (asm) utf8_valid.simps) (auto split: prod.splits)
    obtain cs where cs: "\<forall>c \<in> set cs. scalar_value c" "drop n bs = concat (map utf8_encode cs)"
      using 1(1)[OF False s[symmetric] v] by blast
    obtain c where c: "scalar_value c" "utf8_encode c = take n bs" using step_encodes[OF s False] by blast
    have "bs = concat (map utf8_encode (c # cs))" using c(2) cs(2) append_take_drop_id[of n bs] by simp
    then show ?thesis using c(1) cs(1) by (intro exI[of _ "c # cs"]) simp
  qed
qed

definition utf8_text :: "bytes \<Rightarrow> bool" where
  "utf8_text bs \<longleftrightarrow> (\<exists>cs. (\<forall>c \<in> set cs. scalar_value c) \<and> bs = concat (map utf8_encode cs))"

lemma utf8_text_iff_valid: "utf8_text bs \<longleftrightarrow> utf8_valid bs"
  using utf8_valid_encode utf8_valid_decodes by (auto simp: utf8_text_def)

end
