(* ===== verification/Monitor.thy ===== *)
theory Monitor
  imports Net_Event Std_Net Utf8
begin

text \<open>
  The event monitor, \<open>rustguard/src/monitor.rs\<close>: the loop that drains the ring buffer, the printing of
  an event and the cache of executable names.

  What the code reads from its surroundings for one event is an \<open>mon_env\<close>: the system time (as seconds
  and nanoseconds since the epoch, \<open>None\<close> before it), the two readings of the monotonic clock in the
  cache, in nanoseconds, and the links of \<open>/proc\<close>. A string is its UTF-8 bytes.
\<close>

record mon_env =
  me_now :: "(nat \<times> nat) option"
  me_elapsed_at :: nat
  me_insert_at :: nat
  me_read_link :: "string \<Rightarrow> string option"

section \<open>Formatting\<close>

definition comm_to_string :: "bytes \<Rightarrow> string" where
  "comm_to_string comm =
     (let len = length (takeWhile (\<lambda>b. b \<noteq> 0) comm)
      in map (\<lambda>b. char_of (unat b)) (from_utf8_lossy (take len comm)))"

definition ip_to_string :: "bytes \<Rightarrow> string" where
  "ip_to_string ip =
     (if list_all (\<lambda>b. b = 0) (drop 4 ip) then ipv4_to_string [ip ! 0, ip ! 1, ip ! 2, ip ! 3]
      else if list_all (\<lambda>b. b = 0) (take 10 ip) \<and> ip ! 10 = 0xff \<and> ip ! 11 = 0xff
      then ipv4_to_string [ip ! 12, ip ! 13, ip ! 14, ip ! 15]
      else ipv6_to_string ip)"

definition now_string :: "(nat \<times> nat) option \<Rightarrow> panic + string" where
  "now_string time =
     (case time of
        None \<Rightarrow> Inl UnwrapFailed
      | Some (as_secs, nanos) \<Rightarrow>
          let secs = as_secs mod 86400; ms = nanos div 1000000
          in Inr (zero_pad 2 (secs div 3600) @ '':'' @ zero_pad 2 ((secs div 60) mod 60) @ '':'' @
               zero_pad 2 (secs mod 60) @ ''.'' @ zero_pad 3 ms))"

definition result_string :: "i32 \<Rightarrow> string" where
  "result_string ret = (if ret = 0 then ''OK'' else ''ERR('' @ int_string (sint ret) @ '')'')"

text \<open>The box-drawing character U+2500 and the triangles U+25B6 and U+25C0, in UTF-8.\<close>

definition utf8_string :: "nat list \<Rightarrow> string" where
  "utf8_string bs = map char_of bs"

definition arrow :: "EventType \<Rightarrow> string" where
  "arrow event =
     (let line = utf8_string [0xE2, 0x94, 0x80]
      in case event of
           Connect \<Rightarrow> concat (replicate 5 line) @ utf8_string [0xE2, 0x96, 0xB6]
         | Accept \<Rightarrow> utf8_string [0xE2, 0x97, 0x80] @ concat (replicate 5 line)
         | _ \<Rightarrow> concat (replicate 6 line))"

section \<open>The cache of executables\<close>

type_synonym process_cache = "u32 \<rightharpoonup> string \<times> nat"

definition TTL :: nat where
  "TTL = 30 * 1000000000"

definition exe :: "mon_env \<Rightarrow> process_cache \<Rightarrow> u32 \<Rightarrow> string \<times> process_cache" where
  "exe env cache p =
     (let miss =
        (let e = (case me_read_link env (''/proc/'' @ dec_string (unat p) @ ''/exe'') of
                    Some l \<Rightarrow> l | None \<Rightarrow> ''<unknown>'')
         in (e, cache(p \<mapsto> (e, me_insert_at env))))
      in case cache p of
           Some (e, ts) \<Rightarrow> if me_elapsed_at env - ts < TTL then (e, cache) else miss
         | None \<Rightarrow> miss)"

section \<open>Printing an event\<close>

definition event_line :: "string \<Rightarrow> NetEvent \<Rightarrow> string" where
  "event_line now event =
     (let src = ip_to_string (ev_src_ip event) @ '':'' @ dec_string (unat (ev_src_port event));
          dst = ip_to_string (ev_dst_ip event) @ '':'' @ dec_string (unat (ev_dst_port event))
      in pad_right 12 now @ '' '' @ pad_right 16 (comm_to_string (ev_comm event)) @ '' '' @
         pad_left 6 (dec_string (unat (ev_pid event))) @ '' '' @
         TransportProtocol_fmt 5 (ev_protocol event) @ '' '' @ EventType_fmt 9 (ev_event event) @ '' '' @
         pad_right 10 (result_string (ev_ret event)) @ '' '' @ src @ '' '' @ arrow (ev_event event) @ '' '' @ dst)"

definition print_event :: "mon_env \<Rightarrow> NetEvent \<Rightarrow> process_cache \<Rightarrow> panic + (string \<times> process_cache)" where
  "print_event env event cache =
     (let (unused, cache') = exe env cache (ev_pid event)
      in res_bind (now_string (me_now env)) (\<lambda>now. Inr (event_line now event, cache')))"

definition header_line :: string where
  "header_line =
     pad_right 12 ''TIME'' @ '' '' @ pad_right 16 ''COMM'' @ '' '' @ pad_left 6 ''PID'' @ '' '' @
     pad_right 5 ''PROTO'' @ '' '' @ pad_right 9 ''EVENT'' @ '' '' @ pad_right 10 ''RESULT'' @ '' CONNECTION''"

section \<open>The loop\<close>

text \<open>
  The loop over the records of the ring. The cast of a record to \<open>&NetEvent\<close> is undefined behaviour
  when a byte is not a value of its enum (\<open>BadRecord\<close>). The outer loop polls the ring for ever; a run is
  over a finite number of polls, each with the records it finds.
\<close>

datatype mon_end = BadRecord | Panicked panic | Polling process_cache

fun drain :: "endian \<Rightarrow> (bytes \<times> mon_env) list \<Rightarrow> process_cache \<Rightarrow> string list \<times> mon_end" where
  "drain en [] cache = ([], Polling cache)"
| "drain en ((item, env) # items) cache =
     (if length item \<noteq> NetEvent_size then drain en items cache
      else case decode_net_event en item of
        None \<Rightarrow> ([], BadRecord)
      | Some event \<Rightarrow>
          (case print_event env event cache of
             Inl pn \<Rightarrow> ([], Panicked pn)
           | Inr (line, cache') \<Rightarrow>
               (case drain en items cache' of (lines, e) \<Rightarrow> (line # lines, e))))"

fun poll_loop :: "endian \<Rightarrow> (bytes \<times> mon_env) list list \<Rightarrow> process_cache \<Rightarrow> string list \<times> mon_end" where
  "poll_loop en [] cache = ([], Polling cache)"
| "poll_loop en (items # polls) cache =
     (case drain en items cache of
        (lines, Polling cache') \<Rightarrow>
          (case poll_loop en polls cache' of (lines', e) \<Rightarrow> (lines @ lines', e))
      | r \<Rightarrow> r)"

text \<open>\<open>ProcessCache::default()\<close>, the header, then the loop.\<close>

definition monitor_output :: "endian \<Rightarrow> (bytes \<times> mon_env) list list \<Rightarrow> string list \<times> mon_end" where
  "monitor_output en polls =
     (case poll_loop en polls Map.empty of (lines, e) \<Rightarrow> (header_line # lines, e))"

section \<open>Lemmas\<close>

lemma drain_append:
  "drain en (xs @ ys) cache =
     (case drain en xs cache of
        (lines, Polling cache') \<Rightarrow> (case drain en ys cache' of (lines', e) \<Rightarrow> (lines @ lines', e))
      | r \<Rightarrow> r)"
proof (induction en xs cache rule: drain.induct)
  case (1 en cache)
  then show ?case by (simp split: prod.split)
next
  case (2 en item env items cache)
  then show ?case by (auto split: option.split sum.split prod.splits mon_end.splits)
qed

text \<open>The boundaries of the polls do not matter.\<close>

lemma poll_loop_concat: "poll_loop en polls cache = drain en (concat polls) cache"
proof (induction en polls cache rule: poll_loop.induct)
  case (2 en items polls cache)
  then show ?case by (auto simp: drain_append split: prod.splits mon_end.splits)
qed simp

text \<open>The lines a sequence of records should give.\<close>

definition line_of :: "endian \<Rightarrow> bytes \<times> mon_env \<Rightarrow> string list" where
  "line_of en = (\<lambda>(item, env).
     if length item \<noteq> NetEvent_size then []
     else case (decode_net_event en item, now_string (me_now env)) of
       (Some event, Inr now) \<Rightarrow> [event_line now event] | _ \<Rightarrow> [])"

definition printable :: "endian \<Rightarrow> bytes \<times> mon_env \<Rightarrow> bool" where
  "printable en = (\<lambda>(item, env).
     me_now env \<noteq> None \<and> (length item = NetEvent_size \<longrightarrow> decode_net_event en item \<noteq> None))"

lemma now_string_total: "me_now env \<noteq> None \<Longrightarrow> \<exists>now. now_string (me_now env) = Inr now"
  by (auto simp: now_string_def Let_def)

lemma drain_printable:
  assumes "list_all (printable en) items"
  shows "\<exists>cache'. drain en items cache = (concat (map (line_of en) items), Polling cache')"
  using assms
proof (induction items arbitrary: cache)
  case (Cons x items)
  obtain item env where x: "x = (item, env)" by (cases x)
  show ?case
  proof (cases "length item = NetEvent_size")
    case True
    then obtain event now where e: "decode_net_event en item = Some event" "now_string (me_now env) = Inr now"
      using Cons.prems now_string_total[of env] by (auto simp: x printable_def)
    obtain u c where "exe env cache (ev_pid event) = (u, c)" by (cases "exe env cache (ev_pid event)")
    moreover obtain cache' where "drain en items c = (concat (map (line_of en) items), Polling cache')"
      using Cons.IH[of c] Cons.prems by auto
    ultimately show ?thesis using True e by (simp add: x line_of_def print_event_def)
  next
    case False
    then show ?thesis using Cons by (simp add: x line_of_def)
  qed
qed simp

lemma length_dec_string_le2: "n < 100 \<Longrightarrow> length (dec_string n) \<le> 2"
  by (cases "n < 10") (simp_all add: dec_string_small dec_string_step[of n] dec_string_small[of "n div 10"])

section \<open>Properties\<close>

text \<open>
  C15. The monitor prints every record of the ring once, in order: over any number of polls, when the
  records of the right size hold valid events and the system time is not before the epoch, the output
  is the header followed by one line per such record; records of another size are skipped, and the loop
  is still polling afterwards.
\<close>

theorem monitor_prints_all_events:
  assumes "list_all (printable en) (concat polls)"
  shows "\<exists>cache. monitor_output en polls = (header_line # concat (map (line_of en) (concat polls)), Polling cache)"
  using drain_printable[OF assms, of Map.empty] by (auto simp: monitor_output_def poll_loop_concat)

definition sample_env :: mon_env where
  "sample_env = \<lparr>me_now = Some (86399, 5000000), me_elapsed_at = 7, me_insert_at = 8, me_read_link = (\<lambda>_. None)\<rparr>"

theorem monitor_prints_all_events_witness:
  "\<exists>l cache. monitor_output LittleEndian
     [[([1, 2, 3], sample_env)], [], [(encode_net_event LittleEndian 0 NetEvent_default, sample_env)]] =
     ([header_line, l], Polling cache)"
proof -
  let ?bs = "encode_net_event LittleEndian 0 NetEvent_default"
  have wf: "net_event_wf NetEvent_default" by (simp add: net_event_wf_def NetEvent_default_def TASK_COMM_LEN_def)
  have d: "decode_net_event LittleEndian ?bs = Some NetEvent_default" "length ?bs = NetEvent_size"
    using wf by (simp_all add: decode_encode_net_event NetEvent_size_eq)
  obtain now where n: "now_string (me_now sample_env) = Inr now"
    using now_string_total[of sample_env] by (auto simp: sample_env_def)
  have p: "list_all (printable LittleEndian) (concat [[([1, 2, 3], sample_env)], [], [(?bs, sample_env)]])"
    using d by (simp add: printable_def sample_env_def NetEvent_size_eq)
  have "line_of LittleEndian (?bs, sample_env) = [event_line now NetEvent_default]"
    "line_of LittleEndian ([1, 2, 3], sample_env) = []"
    using d n by (simp_all add: line_of_def) (simp_all add: NetEvent_size_eq)
  then show ?thesis using monitor_prints_all_events[OF p] by auto
qed

text \<open>
  C37. Addresses of IPv4 connections are printed so that they parse back to the same address, in both
  forms an event may hold: the address in the first four bytes with zeros behind it, and the
  IPv4-mapped IPv6 address. The first form makes an IPv6 address that is zero from its fifth byte on
  (\<open>2001:db8::\<close>, for example) print as an IPv4 address.
\<close>

theorem ip_to_string_ipv4:
  "ipv4_from_str (ip_to_string ([a, b, c, d] @ replicate 12 0)) = Some [a, b, c, d] \<and>
   ipv4_from_str (ip_to_string (replicate 10 0 @ [0xff, 0xff, a, b, c, d])) = Some [a, b, c, d]"
proof
  have "ip_to_string ([a, b, c, d] @ replicate 12 0) = ipv4_to_string [a, b, c, d]"
    by (simp add: ip_to_string_def list_all_iff)
  then show "ipv4_from_str (ip_to_string ([a, b, c, d] @ replicate 12 0)) = Some [a, b, c, d]"
    by (simp add: ipv4_from_to_string)
  have "ip_to_string (replicate 10 0 @ [0xff, 0xff, a, b, c, d]) = ipv4_to_string [a, b, c, d]"
    by (simp add: ip_to_string_def list_all_iff nth_append)
  then show "ipv4_from_str (ip_to_string (replicate 10 0 @ [0xff, 0xff, a, b, c, d])) = Some [a, b, c, d]"
    by (simp add: ipv4_from_to_string)
qed

text \<open>
  The cache of executable names: after a lookup that read the link of a process, lookups of that
  process within 30 seconds return the same name without reading it again, and a later one reads it
  anew.
\<close>

theorem exe_cached_for_ttl:
  assumes "exe env cache p = (e, cache')" and "cache p = None"
  shows "exe env' cache' p =
    (if me_elapsed_at env' - me_insert_at env < 30 * 10 ^ 9 then (e, cache')
     else exe env' (cache'(p := None)) p)"
  using assms by (auto simp: exe_def Let_def TTL_def split: option.splits)

theorem exe_cached_for_ttl_witness:
  "fst (exe \<lparr>me_now = None, me_elapsed_at = 29 * 10 ^ 9, me_insert_at = 0, me_read_link = (\<lambda>_. Some ''/bin/new'')\<rparr>
     (snd (exe \<lparr>me_now = None, me_elapsed_at = 0, me_insert_at = 5, me_read_link = (\<lambda>_. Some ''/bin/old'')\<rparr> Map.empty 7)) 7) =
   ''/bin/old''"
proof -
  let ?env = "\<lparr>me_now = None, me_elapsed_at = 0, me_insert_at = 5, me_read_link = (\<lambda>_. Some ''/bin/old'')\<rparr>"
  have "exe ?env Map.empty 7 = (''/bin/old'', [7 \<mapsto> (''/bin/old'', 5)])" by (simp add: exe_def Let_def)
  from exe_cached_for_ttl[OF this] this show ?thesis by simp
qed

text \<open>
  The time column is always \<open>HH:MM:SS.mmm\<close>: twelve characters whose four numbers are the time of day
  to the millisecond.
\<close>

theorem now_string_time_of_day:
  assumes "nanos < 10 ^ 9"
  shows "\<exists>s. now_string (Some (secs, nanos)) = Inr s \<and> length s = 12 \<and>
    dec_val (take 2 s) * 3600000 + dec_val (subseq_at 3 2 s) * 60000 + dec_val (subseq_at 6 2 s) * 1000 +
      dec_val (subseq_at 9 3 s) = (secs mod 86400) * 1000 + nanos div 10 ^ 6"
proof -
  define h m sec ms where "h = secs mod 86400 div 3600" and "m = secs mod 86400 div 60 mod 60"
    and "sec = secs mod 86400 mod 60" and "ms = nanos div 1000000"
  have b: "h < 100" "m < 100" "sec < 100" "ms < 1000"
    using assms by (auto simp: h_def m_def sec_def ms_def div_less_iff_less_mult)
  have l: "length (zero_pad 2 h) = 2" "length (zero_pad 2 m) = 2" "length (zero_pad 2 sec) = 2"
    "length (zero_pad 3 ms) = 3"
    using b by (simp_all add: length_zero_pad length_dec_string_le2 length_dec_string_le3)
  let ?s = "zero_pad 2 h @ '':'' @ zero_pad 2 m @ '':'' @ zero_pad 2 sec @ ''.'' @ zero_pad 3 ms"
  have "take 2 ?s = zero_pad 2 h" "subseq_at 3 2 ?s = zero_pad 2 m" "subseq_at 6 2 ?s = zero_pad 2 sec"
    "subseq_at 9 3 ?s = zero_pad 3 ms" "length ?s = 12"
    using l by (simp_all add: subseq_at_def)
  moreover have "h * 3600000 + m * 60000 + sec * 1000 = secs mod 86400 * 1000"
  proof -
    have "h = secs mod 86400 div 60 div 60" unfolding h_def by (simp add: div_mult2_eq[symmetric])
    then have "h * 60 + m = secs mod 86400 div 60" by (simp only: m_def div_mult_mod_eq)
    moreover have "(secs mod 86400 div 60) * 60 + sec = secs mod 86400" by (simp add: sec_def)
    ultimately show ?thesis by linarith
  qed
  moreover have "now_string (Some (secs, nanos)) = Inr ?s"
    by (simp add: now_string_def Let_def h_def m_def sec_def ms_def)
  ultimately show ?thesis by (simp add: zero_pad_val ms_def)
qed

theorem now_string_time_of_day_witness:
  "\<exists>s. now_string (Some (1700000000, 123456789)) = Inr s \<and> length s = 12"
  using now_string_time_of_day[of 123456789 1700000000] by auto

text \<open>
  C38. Process names are printed as UTF-8, the encoding of some sequence of Unicode scalar values, whatever
  bytes the kernel gives, and unchanged up to the first zero byte when those are UTF-8 already.
\<close>

theorem comm_to_string_utf8:
  "utf8_text (map of_char (comm_to_string comm)) \<and>
   (utf8_text (takeWhile (\<lambda>b. b \<noteq> 0) comm) \<longrightarrow>
      map of_char (comm_to_string comm) = takeWhile (\<lambda>b. b \<noteq> 0) comm)"
proof -
  have c: "map of_char (map (\<lambda>b. char_of (unat b)) bs) = bs" for bs :: bytes
  proof (induction bs)
    case (Cons b bs)
    have "(of_char (char_of (unat b)) :: u8) = of_nat (of_char (char_of (unat b)))"
      by (rule of_nat_of_char[symmetric])
    also have "\<dots> = b" using unat_u8_less[of b] by simp
    finally have "(of_char (char_of (unat b)) :: u8) = b" .
    then show ?case using Cons by simp
  qed simp
  have t: "take (length (takeWhile (\<lambda>b. b \<noteq> 0) comm)) comm = takeWhile (\<lambda>b. b \<noteq> 0) comm"
    by (induction comm) simp_all
  show ?thesis
    using from_utf8_lossy_valid[of "takeWhile (\<lambda>b. b \<noteq> 0) comm"]
      from_utf8_lossy_id[of "takeWhile (\<lambda>b. b \<noteq> 0) comm"]
    by (simp only: comm_to_string_def Let_def t c utf8_text_iff_valid) simp
qed

theorem comm_to_string_utf8_witness:
  "map of_char (comm_to_string [99, 0xC3, 0xA9, 0, 7]) = [99, 0xC3, 0xA9 :: u8]"
proof -
  have "utf8_valid [99, 0xC3, 0xA9]" by code_simp
  then have "utf8_text [99, 0xC3, 0xA9]" by (simp only: utf8_text_iff_valid)
  then show ?thesis using comm_to_string_utf8[of "[99, 0xC3, 0xA9, 0, 7]"] by simp
qed

end
