(* ===== verification/Monitor_System.thy ===== *)
theory Monitor_System
  imports Fexit_Probes Monitor
begin

text \<open>
  The two tracing programs and the monitor around the ring buffer. Both programs add records at any
  time, on any task; the monitor takes one record at a time, in the loop of \<open>monitor_run\<close>. A run interleaves
  them in any order. The reading end of the ring (\<open>RingBuf::next\<close> of aya) is a parameter like the writing end:
  the locale \<open>ring_queue\<close> says that it takes the oldest record.
\<close>

type_synonym 'r ring_next = "'r \<Rightarrow> (bytes \<times> 'r) option"

locale ring_queue = ring_buffer out records
  for out :: "'r ring_output" and records :: "'r \<Rightarrow> bytes list" +
  fixes ring_next :: "'r ring_next"
  assumes next_empty: "records r = [] \<Longrightarrow> ring_next r = None"
    and next_oldest: "records r = bs # rest \<Longrightarrow> \<exists>r'. ring_next r = Some (bs, r') \<and> records r' = rest"

definition list_next :: "bytes list ring_next" where
  "list_next rs = (case rs of [] \<Rightarrow> None | bs # rest \<Rightarrow> Some (bs, rest))"

interpretation bounded_queue: ring_queue "bounded_output cap" id list_next for cap
  by unfold_locales (simp_all add: list_next_def)

section \<open>Steps\<close>

record 'r msys =
  ms_ring :: 'r
  ms_mon :: mon_end

text \<open>
  The labels: a tracing program run with its helpers and context, and whether it added a record; one
  pass of the monitor's loop, with what it read from its surroundings and what it printed.
\<close>

datatype mon_label =
    ConnectExit helpers fexit_ctx bool
  | AcceptExit helpers fexit_ctx bool
  | Pass mon_env "string list"

text \<open>
  One pass: take a record and print it, or sleep when there is none. (\<open>drain\<close> on one record is the body of
  the loop.)
\<close>

definition monitor_pass ::
  "endian \<Rightarrow> 'r ring_next \<Rightarrow> mon_env \<Rightarrow> 'r \<Rightarrow> process_cache \<Rightarrow> string list \<times> 'r msys" where
  "monitor_pass en ring_next env r cache =
     (case ring_next r of
        None \<Rightarrow> ([], \<lparr>ms_ring = r, ms_mon = Polling cache\<rparr>)
      | Some (item, r') \<Rightarrow>
          (case drain en [(item, env)] cache of (lines, e) \<Rightarrow> (lines, \<lparr>ms_ring = r', ms_mon = e\<rparr>)))"

inductive mon_step ::
  "endian \<Rightarrow> u8 \<Rightarrow> 'r ring_output \<Rightarrow> ('r \<Rightarrow> bytes list) \<Rightarrow> 'r ring_next \<Rightarrow> 'r msys \<Rightarrow> mon_label \<Rightarrow> 'r msys \<Rightarrow> bool"
  for en pad out records ring_next where
  connect_exit:
    "tcp_v4_connect_exit en pad out h ctx (ms_ring s) = (ret, r') \<Longrightarrow>
     mon_step en pad out records ring_next s
       (ConnectExit h ctx (length (records r') > length (records (ms_ring s)))) (s\<lparr>ms_ring := r'\<rparr>)"
| accept_exit:
    "incoming_connection en pad out h ctx (ms_ring s) = (ret, r') \<Longrightarrow>
     mon_step en pad out records ring_next s
       (AcceptExit h ctx (length (records r') > length (records (ms_ring s)))) (s\<lparr>ms_ring := r'\<rparr>)"
| pass:
    "ms_mon s = Polling cache \<Longrightarrow> monitor_pass en ring_next env (ms_ring s) cache = (lines, s') \<Longrightarrow>
     mon_step en pad out records ring_next s (Pass env lines) s'"

inductive mon_run ::
  "endian \<Rightarrow> u8 \<Rightarrow> 'r ring_output \<Rightarrow> ('r \<Rightarrow> bytes list) \<Rightarrow> 'r ring_next \<Rightarrow> 'r msys \<Rightarrow> mon_label list \<Rightarrow> 'r msys \<Rightarrow> bool"
  for en pad out records ring_next where
  mon_nil: "mon_run en pad out records ring_next s [] s"
| mon_cons:
    "mon_step en pad out records ring_next s l t \<Longrightarrow> mon_run en pad out records ring_next t ls u \<Longrightarrow>
     mon_run en pad out records ring_next s (l # ls) u"

text \<open>The connection a tracing program saw, the one it recorded, and the lines printed.\<close>

definition seen_event :: "endian \<Rightarrow> mon_label \<Rightarrow> NetEvent option" where
  "seen_event en l =
     (case l of
        ConnectExit h ctx _ \<Rightarrow> probe_spec en h Connect Egress (ucast (fx_arg ctx 3)) (fx_arg ctx 0)
      | AcceptExit h ctx _ \<Rightarrow>
          (case fx_ret ctx of Inl _ \<Rightarrow> None
           | Inr newsk \<Rightarrow> if newsk = 0 then None else probe_spec en h Accept Ingress 0 newsk)
      | Pass _ _ \<Rightarrow> None)"

definition stored :: "mon_label \<Rightarrow> bool" where
  "stored l = (case l of ConnectExit _ _ b \<Rightarrow> b | AcceptExit _ _ b \<Rightarrow> b | Pass _ _ \<Rightarrow> False)"

definition recorded :: "endian \<Rightarrow> mon_label list \<Rightarrow> NetEvent list" where
  "recorded en ls = concat (map (\<lambda>l. case seen_event en l of Some ev \<Rightarrow> if stored l then [ev] else [] | None \<Rightarrow> []) ls)"

definition printed :: "mon_label list \<Rightarrow> string list" where
  "printed ls = concat (map (\<lambda>l. case l of Pass _ lines \<Rightarrow> lines | _ \<Rightarrow> []) ls)"

text \<open>The helpers keep their contract, and the system time is not before the epoch.\<close>

definition label_ok :: "mon_label \<Rightarrow> bool" where
  "label_ok l =
     (case l of
        ConnectExit h _ _ \<Rightarrow> reads_exactly h \<and> comm_ok h
      | AcceptExit h _ _ \<Rightarrow> reads_exactly h \<and> comm_ok h
      | Pass env _ \<Rightarrow> me_now env \<noteq> None)"

lemma recorded_single:
  "recorded en [l] = (case seen_event en l of Some ev \<Rightarrow> if stored l then [ev] else [] | None \<Rightarrow> [])"
  by (simp add: recorded_def)

lemma recorded_Cons: "recorded en (l # ls) = recorded en [l] @ recorded en ls"
  by (simp add: recorded_def)

lemma printed_Cons: "printed (l # ls) = printed [l] @ printed ls"
  by (simp add: printed_def)

lemma seen_event_wf: "label_ok l \<Longrightarrow> seen_event en l = Some ev \<Longrightarrow> net_event_wf ev"
  by (auto simp: label_ok_def seen_event_def intro: probe_spec_wf
      split: mon_label.splits sum.splits if_splits)

section \<open>The ring as a queue of events\<close>

text \<open>A line shows an event at some time of day.\<close>

definition shows_event :: "string \<Rightarrow> NetEvent \<Rightarrow> bool" where
  "shows_event line ev \<longleftrightarrow> (\<exists>time now. now_string (Some time) = Inr now \<and> line = event_line now ev)"

lemma accept_exit_seen:
  assumes "reads_exactly h"
  shows "incoming_connection en pad out h ctx r = (0, written en pad out r (seen_event en (AcceptExit h ctx b)))"
  unfolding accept_exit_written[OF assms] by (simp add: seen_event_def)

context ring_queue
begin

text \<open>
  The invariant: the ring holds the encodings of a queue of well-formed events, and the monitor is
  polling.
\<close>

definition queued :: "endian \<Rightarrow> u8 \<Rightarrow> 'r msys \<Rightarrow> NetEvent list \<Rightarrow> bool" where
  "queued en pad s q \<longleftrightarrow> records (ms_ring s) = map (encode_net_event en pad) q \<and> list_all net_event_wf q \<and>
     (\<exists>cache. ms_mon s = Polling cache)"

lemma probe_queues:
  assumes "queued en pad s q" and "r' = written en pad out (ms_ring s) obs"
    and "\<And>ev. obs = Some ev \<Longrightarrow> net_event_wf ev"
  shows "queued en pad (s\<lparr>ms_ring := r'\<rparr>)
    (q @ (case obs of Some ev \<Rightarrow> if length (records r') > length (records (ms_ring s)) then [ev] else [] | None \<Rightarrow> []))"
  using assms written_records[of en pad "ms_ring s" obs]
  by (auto simp: queued_def written_def split: option.splits)

lemma pass_dequeues:
  assumes "queued en pad s q" and "ms_mon s = Polling cache" and "me_now env \<noteq> None"
    and "monitor_pass en ring_next env (ms_ring s) cache = (lines, s')"
  shows "case q of
      [] \<Rightarrow> lines = [] \<and> queued en pad s' []
    | ev # rest \<Rightarrow> (\<exists>line. lines = [line] \<and> shows_event line ev) \<and> queued en pad s' rest"
proof (cases q)
  case Nil
  then show ?thesis
    using assms next_empty by (auto simp: queued_def monitor_pass_def)
next
  case (Cons ev rest)
  then have wf: "net_event_wf ev" and "records (ms_ring s) = encode_net_event en pad ev # map (encode_net_event en pad) rest"
    using assms(1) by (simp_all add: queued_def)
  then obtain r' where r': "ring_next (ms_ring s) = Some (encode_net_event en pad ev, r')"
    "records r' = map (encode_net_event en pad) rest" using next_oldest by blast
  have d: "decode_net_event en (encode_net_event en pad ev) = Some ev"
    "length (encode_net_event en pad ev) = NetEvent_size"
    using wf by (simp_all add: decode_encode_net_event NetEvent_size_eq)
  obtain time now where n: "me_now env = Some time" "now_string (me_now env) = Inr now"
    using assms(3) now_string_total[of env] by auto
  have "list_all (printable en) [(encode_net_event en pad ev, env)]" using d assms(3) by (simp add: printable_def)
  from drain_printable[OF this] obtain cache' where
    "drain en [(encode_net_event en pad ev, env)] cache = ([event_line now ev], Polling cache')"
    using d n by (auto simp add: line_of_def simp del: drain.simps)
  then have "lines = [event_line now ev]" "s' = \<lparr>ms_ring = r', ms_mon = Polling cache'\<rparr>"
    using assms(4) r'(1) by (simp_all add: monitor_pass_def del: drain.simps)
  moreover have "shows_event (event_line now ev) ev" unfolding shows_event_def using n by metis
  ultimately show ?thesis using Cons r'(2) assms(1) by (simp add: queued_def)
qed

lemma step_queue:
  assumes "mon_step en pad out records ring_next s l t" and "queued en pad s q" and "label_ok l"
  shows "\<exists>n. n \<le> length q \<and> n \<le> 1 \<and> list_all2 shows_event (printed [l]) (take n q) \<and>
    queued en pad t (drop n q @ recorded en [l])"
proof -
  have wf: "\<And>ev. seen_event en l = Some ev \<Longrightarrow> net_event_wf ev" using seen_event_wf[OF assms(3)] by blast
  from assms(1) show ?thesis
  proof cases
    case (connect_exit h ctx ret r')
    then have w: "r' = written en pad out (ms_ring s) (seen_event en l)"
      using connect_exit_written[of h en pad out ctx "ms_ring s"] assms(3) by (simp add: label_ok_def seen_event_def)
    have "stored l = (length (records r') > length (records (ms_ring s)))" "printed [l] = []"
      using connect_exit(1) by (simp_all add: stored_def printed_def)
    then show ?thesis
      using probe_queues[OF assms(2) w wf] connect_exit(2)
      by (intro exI[of _ 0]) (auto simp: recorded_single split: option.splits)
  next
    case (accept_exit h ctx ret r')
    then have w: "r' = written en pad out (ms_ring s) (seen_event en l)"
      using accept_exit_seen[of h en pad out ctx "ms_ring s"] assms(3) by (simp add: label_ok_def)
    have "stored l = (length (records r') > length (records (ms_ring s)))" "printed [l] = []"
      using accept_exit(1) by (simp_all add: stored_def printed_def)
    then show ?thesis
      using probe_queues[OF assms(2) w wf] accept_exit(2)
      by (intro exI[of _ 0]) (auto simp: recorded_single split: option.splits)
  next
    case (pass cache env lines)
    have now: "me_now env \<noteq> None" using assms(3) pass(1) by (simp add: label_ok_def)
    note d = pass_dequeues[OF assms(2) pass(2) now pass(3)]
    have r: "recorded en [l] = []" "printed [l] = lines" using pass(1) by (simp_all add: recorded_def printed_def seen_event_def)
    show ?thesis
    proof (cases q)
      case Nil
      then show ?thesis using d r by simp
    next
      case (Cons ev rest)
      then show ?thesis using d r by (intro exI[of _ 1]) auto
    qed
  qed
qed

lemma run_queue:
  assumes "mon_run en pad out records ring_next s ls t" and "queued en pad s q" and "list_all label_ok ls"
  shows "\<exists>n. n \<le> length (q @ recorded en ls) \<and> list_all2 shows_event (printed ls) (take n (q @ recorded en ls)) \<and>
    queued en pad t (drop n (q @ recorded en ls))"
  using assms
proof (induction arbitrary: q rule: mon_run.induct)
  case (mon_nil s)
  then show ?case by (intro exI[of _ 0]) (simp add: recorded_def printed_def)
next
  case (mon_cons s l t ls u)
  obtain n where n: "n \<le> length q" "list_all2 shows_event (printed [l]) (take n q)"
    "queued en pad t (drop n q @ recorded en [l])"
    using step_queue[OF mon_cons.hyps(1) mon_cons.prems(1)] mon_cons.prems(2) by auto
  define q' where "q' = q @ recorded en [l]"
  have q': "drop n q @ recorded en [l] = drop n q'" "take n q = take n q'" "n \<le> length q'" using n(1) by (simp_all add: q'_def)
  obtain m where m: "m \<le> length (drop n q' @ recorded en ls)"
    "list_all2 shows_event (printed ls) (take m (drop n q' @ recorded en ls))"
    "queued en pad u (drop m (drop n q' @ recorded en ls))"
    using mon_cons.IH[OF n(3)] mon_cons.prems(2) unfolding q'(1) by auto
  have all: "q @ recorded en (l # ls) = q' @ recorded en ls" by (simp add: q'_def recorded_Cons[of en l ls])
  have "drop n q' @ recorded en ls = drop n (q' @ recorded en ls)" "take n q' = take n (q' @ recorded en ls)"
    using q'(3) by simp_all
  then have "take n q' @ take m (drop n q' @ recorded en ls) = take (n + m) (q' @ recorded en ls)"
    by (simp only: take_add)
  then have "list_all2 shows_event (printed (l # ls)) (take (n + m) (q' @ recorded en ls))"
    using list_all2_appendI[OF n(2)[unfolded q'(2)] m(2)] by (simp only: printed_Cons[of l ls])
  moreover have "queued en pad u (drop (n + m) (q' @ recorded en ls))" using m(3) q'(3) by (simp add: add.commute)
  ultimately show ?case unfolding all using m(1) q'(3) by (intro exI[of _ "n + m"]) simp
qed

text \<open>As many passes as there are records print all of them.\<close>

lemma passes_drain:
  assumes "queued en pad s q" and "me_now env \<noteq> None"
  shows "\<exists>ls t. length ls = length q \<and> (\<forall>l \<in> set ls. \<exists>lines. l = Pass env lines) \<and>
    mon_run en pad out records ring_next s ls t \<and> queued en pad t []"
  using assms(1)
proof (induction q arbitrary: s)
  case Nil
  then show ?case using mon_nil by fastforce
next
  case (Cons ev q)
  obtain cache where c: "ms_mon s = Polling cache" using Cons.prems by (auto simp: queued_def)
  obtain lines t where p: "monitor_pass en ring_next env (ms_ring s) cache = (lines, t)"
    by (cases "monitor_pass en ring_next env (ms_ring s) cache")
  have "queued en pad t q" using pass_dequeues[OF Cons.prems c assms(2) p] by simp
  from Cons.IH[OF this] obtain ls u where ls: "length ls = length q" "\<forall>l \<in> set ls. \<exists>lines. l = Pass env lines"
    "mon_run en pad out records ring_next t ls u" "queued en pad u []" by blast
  show ?case
    using ls mon_cons[OF mon_step.pass[OF c p] ls(3)] by (intro exI[of _ "Pass env lines # ls"] exI[of _ u]) simp
qed

lemma shows_all:
  assumes "records (ms_ring s) = []" and "ms_mon s = Polling cache"
    and "mon_run en pad out records ring_next s ls t" and "list_all label_ok ls" and "me_now env \<noteq> None"
  shows "(\<exists>n. n \<le> length (recorded en ls) \<and> list_all2 shows_event (printed ls) (take n (recorded en ls)) \<and>
      records (ms_ring t) = map (encode_net_event en pad) (drop n (recorded en ls)) \<and>
      (\<exists>cache'. ms_mon t = Polling cache')) \<and>
    (\<exists>ls' u. length ls' = length (records (ms_ring t)) \<and> (\<forall>l \<in> set ls'. \<exists>lines. l = Pass env lines) \<and>
      mon_run en pad out records ring_next t ls' u \<and> records (ms_ring u) = [] \<and>
      list_all2 shows_event (printed (ls @ ls')) (recorded en ls))"
proof -
  have "queued en pad s []" using assms(1,2) by (simp add: queued_def)
  from run_queue[OF assms(3) this assms(4)] obtain n where n: "n \<le> length (recorded en ls)"
    "list_all2 shows_event (printed ls) (take n (recorded en ls))" "queued en pad t (drop n (recorded en ls))"
    by auto
  then obtain ls' u where ls': "length ls' = length (drop n (recorded en ls))" "\<forall>l \<in> set ls'. \<exists>lines. l = Pass env lines"
    "mon_run en pad out records ring_next t ls' u" "queued en pad u []"
    using passes_drain[OF n(3) assms(5)] by blast
  have ok: "list_all label_ok ls'" and none: "recorded en ls' = []"
    using ls'(2) assms(5) by (auto simp: list_all_iff label_ok_def recorded_def seen_event_def)
  obtain m where m: "list_all2 shows_event (printed ls') (take m (drop n (recorded en ls)))"
    "queued en pad u (drop m (drop n (recorded en ls)))"
    using run_queue[OF ls'(3) n(3) ok] by (auto simp: none)
  then have "length (drop n (recorded en ls)) \<le> m" using ls'(4) by (simp add: queued_def)
  then have "take n (recorded en ls) @ take m (drop n (recorded en ls)) = recorded en ls" by simp
  moreover have "printed (ls @ ls') = printed ls @ printed ls'" by (simp add: printed_def)
  ultimately have "list_all2 shows_event (printed (ls @ ls')) (recorded en ls)"
    using list_all2_appendI[OF n(2) m(1)] by simp
  then show ?thesis using n ls' by (simp add: queued_def) blast
qed

end

text \<open>A record is missing only when the ring refused it.\<close>

lemma lost_only_if_refused:
  assumes "ring_buffer out records" and "mon_step en pad out records ring_next s l t" and "label_ok l"
    and "seen_event en l = Some ev" and "\<not> stored l"
  shows "\<exists>e. out (ms_ring s) (encode_net_event en pad ev) 0 = Inl e"
proof -
  have "\<not> length (records r') > length (records (ms_ring s)) \<Longrightarrow> r' = written en pad out (ms_ring s) (Some ev) \<Longrightarrow>
      \<exists>e. out (ms_ring s) (encode_net_event en pad ev) 0 = Inl e" for r'
    using ring_buffer.output_appends[OF assms(1)] by (fastforce simp: written_def split: sum.splits)
  note refused = this
  from assms(2) show ?thesis
  proof cases
    case (connect_exit h ctx ret r')
    then show ?thesis
      using refused[of r'] connect_exit_written[of h en pad out ctx "ms_ring s"] assms(3-5)
      by (auto simp: label_ok_def seen_event_def stored_def)
  next
    case (accept_exit h ctx ret r')
    then show ?thesis
      using refused[of r'] accept_exit_seen[of h en pad out ctx "ms_ring s" False] assms(3-5)
      by (auto simp: label_ok_def stored_def)
  next
    case (pass cache env lines)
    then show ?thesis using assms(4) by (simp add: seen_event_def)
  qed
qed

section \<open>Properties\<close>

text \<open>
  C7. From the kernel to the terminal, for all connections at once: in any interleaving of outgoing and accepted
  connections with passes of the monitor, starting from an empty ring, the lines printed so far show the
  connections recorded first, each once and in the order they were recorded; the ring holds exactly the
  others, in order; the monitor is still polling. With as many further passes as the ring has records,
  every recorded connection is printed.
\<close>

theorem monitor_shows_recorded_connections:
  assumes "ring_queue out records ring_next" and "records (ms_ring s) = []" and "ms_mon s = Polling cache"
    and "mon_run en pad out records ring_next s ls t" and "list_all label_ok ls"
    and "me_now env \<noteq> None"
  shows "(\<exists>n. n \<le> length (recorded en ls) \<and> list_all2 shows_event (printed ls) (take n (recorded en ls)) \<and>
      records (ms_ring t) = map (encode_net_event en pad) (drop n (recorded en ls)) \<and>
      (\<exists>cache'. ms_mon t = Polling cache')) \<and>
    (\<exists>ls' u. length ls' = length (records (ms_ring t)) \<and> (\<forall>l \<in> set ls'. \<exists>lines. l = Pass env lines) \<and>
      mon_run en pad out records ring_next t ls' u \<and> records (ms_ring u) = [] \<and>
      list_all2 shows_event (printed (ls @ ls')) (recorded en ls))"
  using assms(2-) by (rule ring_queue.shows_all[OF assms(1)])

text \<open>An outgoing connection recorded in an empty ring, not yet printed.\<close>

lemma sample_connect_step:
  "mon_step LittleEndian 0 (bounded_output EVENTS_byte_size) id list_next \<lparr>ms_ring = [], ms_mon = Polling Map.empty\<rparr>
     (ConnectExit sample_helpers sample_fexit True)
     \<lparr>ms_ring = [encode_net_event LittleEndian 0 sample_connect], ms_mon = Polling Map.empty\<rparr>"
proof -
  have "tcp_v4_connect_exit LittleEndian 0 (bounded_output EVENTS_byte_size) sample_helpers sample_fexit [] =
      (0, [encode_net_event LittleEndian 0 sample_connect])"
    by (simp add: connect_exit_written[OF sample_reads_exactly] sample_fexit_observed sample_written)
  then show ?thesis
    using connect_exit[of LittleEndian 0 "bounded_output EVENTS_byte_size" sample_helpers sample_fexit
        "\<lparr>ms_ring = [], ms_mon = Polling Map.empty\<rparr>" 0 _ id list_next] by simp
qed

theorem monitor_shows_recorded_connections_witness:
  "\<exists>l u line. mon_run LittleEndian 0 (bounded_output EVENTS_byte_size) id list_next
      \<lparr>ms_ring = [encode_net_event LittleEndian 0 sample_connect], ms_mon = Polling Map.empty\<rparr> [l] u \<and>
    ms_ring u = [] \<and> printed [l] = [line] \<and> shows_event line sample_connect"
proof -
  let ?ls = "[ConnectExit sample_helpers sample_fexit True]"
  have ok: "list_all label_ok ?ls"
    using sample_reads_exactly by (simp add: label_ok_def comm_ok_def sample_helpers_def TASK_COMM_LEN_def)
  have rec: "recorded LittleEndian ?ls = [sample_connect]"
    using sample_fexit_observed by (simp add: recorded_def seen_event_def stored_def)
  have now: "me_now sample_env \<noteq> None" by (simp add: sample_env_def)
  obtain ls' u where ls': "length ls' = 1"
    "mon_run LittleEndian 0 (bounded_output EVENTS_byte_size) id list_next
      \<lparr>ms_ring = [encode_net_event LittleEndian 0 sample_connect], ms_mon = Polling Map.empty\<rparr> ls' u"
    "ms_ring u = []" "list_all2 shows_event (printed (?ls @ ls')) [sample_connect]"
    using monitor_shows_recorded_connections[OF bounded_queue.ring_queue_axioms _ _ mon_cons[OF sample_connect_step mon_nil] ok now,
        of Map.empty] rec
    by (auto simp: id_def)
  obtain l where l: "ls' = [l]" using ls'(1) by (auto simp: length_Suc_conv)
  moreover have "printed (?ls @ ls') = printed ls'" by (simp add: printed_def)
  ultimately show ?thesis using ls' by (auto simp: list_all2_Cons2)
qed

end
