(* ===== verification/Vmlinux_Bitfields.thy ===== *)
theory Vmlinux_Bitfields
  imports Vmlinux_Types
begin

text \<open>
  The bitfields of the socket structures: for each one the storage unit, the bit offset, the width and
  the integer type its four accessors in \<open>vmlinux.rs\<close> use, and for each storage unit the fields that its
  constructor stores, in order.
\<close>

section \<open>sock_common\<close>

definition sock_common_skc_reuse :: bitfield where
  "sock_common_skc_reuse = bits_of ''_bitfield_1'' 1 0 4 8"

definition sock_common_skc_reuseport :: bitfield where
  "sock_common_skc_reuseport = bits_of ''_bitfield_1'' 1 4 1 8"

definition sock_common_skc_ipv6only :: bitfield where
  "sock_common_skc_ipv6only = bits_of ''_bitfield_1'' 1 5 1 8"

definition sock_common_skc_net_refcnt :: bitfield where
  "sock_common_skc_net_refcnt = bits_of ''_bitfield_1'' 1 6 1 8"

definition sock_common_skc_bypass_prot_mem :: bitfield where
  "sock_common_skc_bypass_prot_mem = bits_of ''_bitfield_1'' 1 7 1 8"

definition sock_common_new_bitfield_1 :: "bitfield list" where
  "sock_common_new_bitfield_1 =
    [sock_common_skc_reuse, sock_common_skc_reuseport, sock_common_skc_ipv6only,
     sock_common_skc_net_refcnt, sock_common_skc_bypass_prot_mem]"

section \<open>sock__bindgen_ty_5__bindgen_ty_1\<close>

definition sock__bindgen_ty_5__bindgen_ty_1_sk_scm_credentials :: bitfield where
  "sock__bindgen_ty_5__bindgen_ty_1_sk_scm_credentials = bits_of ''_bitfield_1'' 1 0 1 8"

definition sock__bindgen_ty_5__bindgen_ty_1_sk_scm_security :: bitfield where
  "sock__bindgen_ty_5__bindgen_ty_1_sk_scm_security = bits_of ''_bitfield_1'' 1 1 1 8"

definition sock__bindgen_ty_5__bindgen_ty_1_sk_scm_pidfd :: bitfield where
  "sock__bindgen_ty_5__bindgen_ty_1_sk_scm_pidfd = bits_of ''_bitfield_1'' 1 2 1 8"

definition sock__bindgen_ty_5__bindgen_ty_1_sk_scm_rights :: bitfield where
  "sock__bindgen_ty_5__bindgen_ty_1_sk_scm_rights = bits_of ''_bitfield_1'' 1 3 1 8"

definition sock__bindgen_ty_5__bindgen_ty_1_sk_scm_unused :: bitfield where
  "sock__bindgen_ty_5__bindgen_ty_1_sk_scm_unused = bits_of ''_bitfield_1'' 1 4 4 8"

definition sock__bindgen_ty_5__bindgen_ty_1_new_bitfield_1 :: "bitfield list" where
  "sock__bindgen_ty_5__bindgen_ty_1_new_bitfield_1 =
    [sock__bindgen_ty_5__bindgen_ty_1_sk_scm_credentials, sock__bindgen_ty_5__bindgen_ty_1_sk_scm_security,
     sock__bindgen_ty_5__bindgen_ty_1_sk_scm_pidfd, sock__bindgen_ty_5__bindgen_ty_1_sk_scm_rights,
     sock__bindgen_ty_5__bindgen_ty_1_sk_scm_unused]"

section \<open>sock\<close>

definition sock_sk_gso_disabled :: bitfield where
  "sock_sk_gso_disabled = bits_of ''_bitfield_1'' 1 0 1 8"

definition sock_sk_kern_sock :: bitfield where
  "sock_sk_kern_sock = bits_of ''_bitfield_1'' 1 1 1 8"

definition sock_sk_no_check_tx :: bitfield where
  "sock_sk_no_check_tx = bits_of ''_bitfield_1'' 1 2 1 8"

definition sock_sk_no_check_rx :: bitfield where
  "sock_sk_no_check_rx = bits_of ''_bitfield_1'' 1 3 1 8"

definition sock_sk_txtime_deadline_mode :: bitfield where
  "sock_sk_txtime_deadline_mode = bits_of ''_bitfield_2'' 1 0 1 8"

definition sock_sk_txtime_report_errors :: bitfield where
  "sock_sk_txtime_report_errors = bits_of ''_bitfield_2'' 1 1 1 8"

definition sock_sk_txtime_unused :: bitfield where
  "sock_sk_txtime_unused = bits_of ''_bitfield_2'' 1 2 6 8"

definition sock_new_bitfield_1 :: "bitfield list" where
  "sock_new_bitfield_1 =
    [sock_sk_gso_disabled, sock_sk_kern_sock, sock_sk_no_check_tx, sock_sk_no_check_rx]"

definition sock_new_bitfield_2 :: "bitfield list" where
  "sock_new_bitfield_2 =
    [sock_sk_txtime_deadline_mode, sock_sk_txtime_report_errors, sock_sk_txtime_unused]"

section \<open>inet6_cork\<close>

definition inet6_cork_dontfrag :: bitfield where
  "inet6_cork_dontfrag = bits_of ''_bitfield_1'' 1 0 1 8"

definition inet6_cork_new_bitfield_1 :: "bitfield list" where
  "inet6_cork_new_bitfield_1 =
    [inet6_cork_dontfrag]"

section \<open>inet_connection_sock__bindgen_ty_2\<close>

definition inet_connection_sock__bindgen_ty_2_ato :: bitfield where
  "inet_connection_sock__bindgen_ty_2_ato = bits_of ''_bitfield_1'' 4 0 8 32"

definition inet_connection_sock__bindgen_ty_2_lrcv_flowlabel :: bitfield where
  "inet_connection_sock__bindgen_ty_2_lrcv_flowlabel = bits_of ''_bitfield_1'' 4 8 20 32"

definition inet_connection_sock__bindgen_ty_2_dst_quick_ack :: bitfield where
  "inet_connection_sock__bindgen_ty_2_dst_quick_ack = bits_of ''_bitfield_1'' 4 28 1 32"

definition inet_connection_sock__bindgen_ty_2_unused :: bitfield where
  "inet_connection_sock__bindgen_ty_2_unused = bits_of ''_bitfield_1'' 4 29 3 32"

definition inet_connection_sock__bindgen_ty_2_new_bitfield_1 :: "bitfield list" where
  "inet_connection_sock__bindgen_ty_2_new_bitfield_1 =
    [inet_connection_sock__bindgen_ty_2_ato, inet_connection_sock__bindgen_ty_2_lrcv_flowlabel,
     inet_connection_sock__bindgen_ty_2_dst_quick_ack, inet_connection_sock__bindgen_ty_2_unused]"

section \<open>inet_connection_sock__bindgen_ty_3\<close>

definition inet_connection_sock__bindgen_ty_3_probe_size :: bitfield where
  "inet_connection_sock__bindgen_ty_3_probe_size = bits_of ''_bitfield_1'' 4 0 31 32"

definition inet_connection_sock__bindgen_ty_3_enabled :: bitfield where
  "inet_connection_sock__bindgen_ty_3_enabled = bits_of ''_bitfield_1'' 4 31 1 32"

definition inet_connection_sock__bindgen_ty_3_new_bitfield_1 :: "bitfield list" where
  "inet_connection_sock__bindgen_ty_3_new_bitfield_1 =
    [inet_connection_sock__bindgen_ty_3_probe_size, inet_connection_sock__bindgen_ty_3_enabled]"

section \<open>inet_connection_sock\<close>

definition inet_connection_sock_icsk_ca_state :: bitfield where
  "inet_connection_sock_icsk_ca_state = bits_of ''_bitfield_1'' 1 0 5 8"

definition inet_connection_sock_icsk_ca_initialized :: bitfield where
  "inet_connection_sock_icsk_ca_initialized = bits_of ''_bitfield_1'' 1 5 1 8"

definition inet_connection_sock_icsk_ca_setsockopt :: bitfield where
  "inet_connection_sock_icsk_ca_setsockopt = bits_of ''_bitfield_1'' 1 6 1 8"

definition inet_connection_sock_icsk_ca_dst_locked :: bitfield where
  "inet_connection_sock_icsk_ca_dst_locked = bits_of ''_bitfield_1'' 1 7 1 8"

definition inet_connection_sock_new_bitfield_1 :: "bitfield list" where
  "inet_connection_sock_new_bitfield_1 =
    [inet_connection_sock_icsk_ca_state, inet_connection_sock_icsk_ca_initialized,
     inet_connection_sock_icsk_ca_setsockopt, inet_connection_sock_icsk_ca_dst_locked]"

section \<open>tcp_options_received\<close>

definition tcp_options_received_saw_tstamp :: bitfield where
  "tcp_options_received_saw_tstamp = bits_of ''_bitfield_1'' 3 0 1 16"

definition tcp_options_received_tstamp_ok :: bitfield where
  "tcp_options_received_tstamp_ok = bits_of ''_bitfield_1'' 3 1 1 16"

definition tcp_options_received_dsack :: bitfield where
  "tcp_options_received_dsack = bits_of ''_bitfield_1'' 3 2 1 16"

definition tcp_options_received_wscale_ok :: bitfield where
  "tcp_options_received_wscale_ok = bits_of ''_bitfield_1'' 3 3 1 16"

definition tcp_options_received_sack_ok :: bitfield where
  "tcp_options_received_sack_ok = bits_of ''_bitfield_1'' 3 4 3 16"

definition tcp_options_received_smc_ok :: bitfield where
  "tcp_options_received_smc_ok = bits_of ''_bitfield_1'' 3 7 1 16"

definition tcp_options_received_snd_wscale :: bitfield where
  "tcp_options_received_snd_wscale = bits_of ''_bitfield_1'' 3 8 4 16"

definition tcp_options_received_rcv_wscale :: bitfield where
  "tcp_options_received_rcv_wscale = bits_of ''_bitfield_1'' 3 12 4 16"

definition tcp_options_received_accecn :: bitfield where
  "tcp_options_received_accecn = bits_of ''_bitfield_1'' 3 16 6 8"

definition tcp_options_received_saw_unknown :: bitfield where
  "tcp_options_received_saw_unknown = bits_of ''_bitfield_1'' 3 22 1 8"

definition tcp_options_received_unused :: bitfield where
  "tcp_options_received_unused = bits_of ''_bitfield_1'' 3 23 1 8"

definition tcp_options_received_new_bitfield_1 :: "bitfield list" where
  "tcp_options_received_new_bitfield_1 =
    [tcp_options_received_saw_tstamp, tcp_options_received_tstamp_ok, tcp_options_received_dsack,
     tcp_options_received_wscale_ok, tcp_options_received_sack_ok, tcp_options_received_smc_ok,
     tcp_options_received_snd_wscale, tcp_options_received_rcv_wscale, tcp_options_received_accecn,
     tcp_options_received_saw_unknown, tcp_options_received_unused]"

section \<open>tcp_rack\<close>

definition tcp_rack_reo_wnd_persist :: bitfield where
  "tcp_rack_reo_wnd_persist = bits_of ''_bitfield_1'' 1 0 5 8"

definition tcp_rack_dsack_seen :: bitfield where
  "tcp_rack_dsack_seen = bits_of ''_bitfield_1'' 1 5 1 8"

definition tcp_rack_advanced :: bitfield where
  "tcp_rack_advanced = bits_of ''_bitfield_1'' 1 6 1 8"

definition tcp_rack_new_bitfield_1 :: "bitfield list" where
  "tcp_rack_new_bitfield_1 =
    [tcp_rack_reo_wnd_persist, tcp_rack_dsack_seen, tcp_rack_advanced]"

section \<open>tcp_sock\<close>

definition tcp_sock_repair :: bitfield where
  "tcp_sock_repair = bits_of ''_bitfield_1'' 1 0 1 8"

definition tcp_sock_tcp_usec_ts :: bitfield where
  "tcp_sock_tcp_usec_ts = bits_of ''_bitfield_1'' 1 1 1 8"

definition tcp_sock_is_sack_reneg :: bitfield where
  "tcp_sock_is_sack_reneg = bits_of ''_bitfield_1'' 1 2 1 8"

definition tcp_sock_is_cwnd_limited :: bitfield where
  "tcp_sock_is_cwnd_limited = bits_of ''_bitfield_1'' 1 3 1 8"

definition tcp_sock_recvmsg_inq :: bitfield where
  "tcp_sock_recvmsg_inq = bits_of ''_bitfield_1'' 1 4 1 8"

definition tcp_sock_nonagle :: bitfield where
  "tcp_sock_nonagle = bits_of ''_bitfield_3'' 3 0 4 8"

definition tcp_sock_rate_app_limited :: bitfield where
  "tcp_sock_rate_app_limited = bits_of ''_bitfield_3'' 3 4 1 8"

definition tcp_sock_received_ce_pending :: bitfield where
  "tcp_sock_received_ce_pending = bits_of ''_bitfield_3'' 3 8 4 8"

definition tcp_sock_accecn_opt_sent_w_dsack :: bitfield where
  "tcp_sock_accecn_opt_sent_w_dsack = bits_of ''_bitfield_3'' 3 12 1 8"

definition tcp_sock_unused2 :: bitfield where
  "tcp_sock_unused2 = bits_of ''_bitfield_3'' 3 13 3 8"

definition tcp_sock_accecn_minlen :: bitfield where
  "tcp_sock_accecn_minlen = bits_of ''_bitfield_3'' 3 16 2 8"

definition tcp_sock_est_ecnfield :: bitfield where
  "tcp_sock_est_ecnfield = bits_of ''_bitfield_3'' 3 18 2 8"

definition tcp_sock_accecn_opt_demand :: bitfield where
  "tcp_sock_accecn_opt_demand = bits_of ''_bitfield_3'' 3 20 2 8"

definition tcp_sock_prev_ecnfield :: bitfield where
  "tcp_sock_prev_ecnfield = bits_of ''_bitfield_3'' 3 22 2 8"

definition tcp_sock_dup_ack_counter :: bitfield where
  "tcp_sock_dup_ack_counter = bits_of ''_bitfield_4'' 2 0 2 8"

definition tcp_sock_tlp_retrans :: bitfield where
  "tcp_sock_tlp_retrans = bits_of ''_bitfield_4'' 2 2 1 8"

definition tcp_sock_syn_ect_snt :: bitfield where
  "tcp_sock_syn_ect_snt = bits_of ''_bitfield_4'' 2 3 2 8"

definition tcp_sock_syn_ect_rcv :: bitfield where
  "tcp_sock_syn_ect_rcv = bits_of ''_bitfield_4'' 2 5 2 8"

definition tcp_sock_thin_lto :: bitfield where
  "tcp_sock_thin_lto = bits_of ''_bitfield_4'' 2 7 1 8"

definition tcp_sock_fastopen_connect :: bitfield where
  "tcp_sock_fastopen_connect = bits_of ''_bitfield_4'' 2 8 1 8"

definition tcp_sock_fastopen_no_cookie :: bitfield where
  "tcp_sock_fastopen_no_cookie = bits_of ''_bitfield_4'' 2 9 1 8"

definition tcp_sock_fastopen_client_fail :: bitfield where
  "tcp_sock_fastopen_client_fail = bits_of ''_bitfield_4'' 2 10 2 8"

definition tcp_sock_frto :: bitfield where
  "tcp_sock_frto = bits_of ''_bitfield_4'' 2 12 1 8"

definition tcp_sock_save_syn :: bitfield where
  "tcp_sock_save_syn = bits_of ''_bitfield_5'' 1 0 2 8"

definition tcp_sock_syn_data :: bitfield where
  "tcp_sock_syn_data = bits_of ''_bitfield_5'' 1 2 1 8"

definition tcp_sock_syn_fastopen :: bitfield where
  "tcp_sock_syn_fastopen = bits_of ''_bitfield_5'' 1 3 1 8"

definition tcp_sock_syn_fastopen_exp :: bitfield where
  "tcp_sock_syn_fastopen_exp = bits_of ''_bitfield_5'' 1 4 1 8"

definition tcp_sock_syn_fastopen_ch :: bitfield where
  "tcp_sock_syn_fastopen_ch = bits_of ''_bitfield_5'' 1 5 1 8"

definition tcp_sock_syn_data_acked :: bitfield where
  "tcp_sock_syn_data_acked = bits_of ''_bitfield_5'' 1 6 1 8"

definition tcp_sock_syn_fastopen_child :: bitfield where
  "tcp_sock_syn_fastopen_child = bits_of ''_bitfield_5'' 1 7 1 8"

definition tcp_sock_accecn_fail_mode :: bitfield where
  "tcp_sock_accecn_fail_mode = bits_of ''_bitfield_6'' 1 0 4 8"

definition tcp_sock_saw_accecn_opt :: bitfield where
  "tcp_sock_saw_accecn_opt = bits_of ''_bitfield_6'' 1 4 2 8"

definition tcp_sock_bpf_chg_cc_inprogress :: bitfield where
  "tcp_sock_bpf_chg_cc_inprogress = bits_of ''_bitfield_7'' 1 0 1 8"

definition tcp_sock_new_bitfield_1 :: "bitfield list" where
  "tcp_sock_new_bitfield_1 =
    [tcp_sock_repair, tcp_sock_tcp_usec_ts, tcp_sock_is_sack_reneg, tcp_sock_is_cwnd_limited,
     tcp_sock_recvmsg_inq]"

definition tcp_sock_new_bitfield_2 :: "bitfield list" where
  "tcp_sock_new_bitfield_2 = []"

definition tcp_sock_new_bitfield_3 :: "bitfield list" where
  "tcp_sock_new_bitfield_3 =
    [tcp_sock_nonagle, tcp_sock_rate_app_limited, tcp_sock_received_ce_pending,
     tcp_sock_accecn_opt_sent_w_dsack, tcp_sock_unused2, tcp_sock_accecn_minlen, tcp_sock_est_ecnfield,
     tcp_sock_accecn_opt_demand, tcp_sock_prev_ecnfield]"

definition tcp_sock_new_bitfield_4 :: "bitfield list" where
  "tcp_sock_new_bitfield_4 =
    [tcp_sock_dup_ack_counter, tcp_sock_tlp_retrans, tcp_sock_syn_ect_snt, tcp_sock_syn_ect_rcv,
     tcp_sock_thin_lto, tcp_sock_fastopen_connect, tcp_sock_fastopen_no_cookie,
     tcp_sock_fastopen_client_fail, tcp_sock_frto]"

definition tcp_sock_new_bitfield_5 :: "bitfield list" where
  "tcp_sock_new_bitfield_5 =
    [tcp_sock_save_syn, tcp_sock_syn_data, tcp_sock_syn_fastopen, tcp_sock_syn_fastopen_exp,
     tcp_sock_syn_fastopen_ch, tcp_sock_syn_data_acked, tcp_sock_syn_fastopen_child]"

definition tcp_sock_new_bitfield_6 :: "bitfield list" where
  "tcp_sock_new_bitfield_6 =
    [tcp_sock_accecn_fail_mode, tcp_sock_saw_accecn_opt]"

definition tcp_sock_new_bitfield_7 :: "bitfield list" where
  "tcp_sock_new_bitfield_7 =
    [tcp_sock_bpf_chg_cc_inprogress]"

section \<open>All bitfields of the socket structures\<close>

text \<open>For each structure with bitfields its storage units: name, size in bytes, and fields.\<close>

type_synonym unit_desc = "string \<times> nat \<times> bitfield list"

definition sock_common_units :: "unit_desc list" where
  "sock_common_units =
    [(''_bitfield_1'', 1, sock_common_new_bitfield_1)]"

definition sock__bindgen_ty_5__bindgen_ty_1_units :: "unit_desc list" where
  "sock__bindgen_ty_5__bindgen_ty_1_units =
    [(''_bitfield_1'', 1, sock__bindgen_ty_5__bindgen_ty_1_new_bitfield_1)]"

definition sock_units :: "unit_desc list" where
  "sock_units =
    [(''_bitfield_1'', 1, sock_new_bitfield_1),
     (''_bitfield_2'', 1, sock_new_bitfield_2)]"

definition inet6_cork_units :: "unit_desc list" where
  "inet6_cork_units =
    [(''_bitfield_1'', 1, inet6_cork_new_bitfield_1)]"

definition inet_connection_sock__bindgen_ty_2_units :: "unit_desc list" where
  "inet_connection_sock__bindgen_ty_2_units =
    [(''_bitfield_1'', 4, inet_connection_sock__bindgen_ty_2_new_bitfield_1)]"

definition inet_connection_sock__bindgen_ty_3_units :: "unit_desc list" where
  "inet_connection_sock__bindgen_ty_3_units =
    [(''_bitfield_1'', 4, inet_connection_sock__bindgen_ty_3_new_bitfield_1)]"

definition inet_connection_sock_units :: "unit_desc list" where
  "inet_connection_sock_units =
    [(''_bitfield_1'', 1, inet_connection_sock_new_bitfield_1)]"

definition tcp_options_received_units :: "unit_desc list" where
  "tcp_options_received_units =
    [(''_bitfield_1'', 3, tcp_options_received_new_bitfield_1)]"

definition tcp_rack_units :: "unit_desc list" where
  "tcp_rack_units =
    [(''_bitfield_1'', 1, tcp_rack_new_bitfield_1)]"

definition tcp_sock_units :: "unit_desc list" where
  "tcp_sock_units =
    [(''_bitfield_1'', 1, tcp_sock_new_bitfield_1),
     (''_bitfield_2'', 24, tcp_sock_new_bitfield_2),
     (''_bitfield_3'', 3, tcp_sock_new_bitfield_3),
     (''_bitfield_4'', 2, tcp_sock_new_bitfield_4),
     (''_bitfield_5'', 1, tcp_sock_new_bitfield_5),
     (''_bitfield_6'', 1, tcp_sock_new_bitfield_6),
     (''_bitfield_7'', 1, tcp_sock_new_bitfield_7)]"

definition socket_structs :: "(ctype \<times> unit_desc list) list" where
  "socket_structs =
    [(sock_common, sock_common_units),
     (sock__bindgen_ty_5__bindgen_ty_1, sock__bindgen_ty_5__bindgen_ty_1_units),
     (sock, sock_units),
     (inet6_cork, inet6_cork_units),
     (inet_connection_sock__bindgen_ty_2, inet_connection_sock__bindgen_ty_2_units),
     (inet_connection_sock__bindgen_ty_3, inet_connection_sock__bindgen_ty_3_units),
     (inet_connection_sock, inet_connection_sock_units),
     (tcp_options_received, tcp_options_received_units),
     (tcp_rack, tcp_rack_units),
     (tcp_sock, tcp_sock_units)]"

definition fields_of :: "unit_desc list \<Rightarrow> bitfield set" where
  "fields_of us = (\<Union>(u, n, ds) \<in> set us. set ds)"

text \<open>Every field fits its unit and no two fields of a unit overlap; the units are where the structure has them.\<close>

definition units_fit :: "unit_desc list \<Rightarrow> bool" where
  "units_fit us \<longleftrightarrow> distinct (map fst us) \<and>
     list_all (\<lambda>(u, n, ds). unit_table n ds \<and> list_all (\<lambda>d. bf_unit d = u) ds) us"

definition units_placed :: "ctype \<Rightarrow> unit_desc list \<Rightarrow> bool" where
  "units_placed T us \<longleftrightarrow>
     list_all (\<lambda>(u, n, ds). \<exists>fs k. T = Struct fs \<and> field_of T u = Some (k, bitfield_unit n)) us"

lemma all_units_fit: "list_all (\<lambda>(T, us). units_fit us) socket_structs"
  by code_simp

lemma sock_common_bitfield_1: "field_of sock_common ''_bitfield_1'' = Some (19, bitfield_unit 1)"
  by (simp add: sock_common_def layout)

lemma sock__bindgen_ty_5__bindgen_ty_1_bitfield_1: "field_of sock__bindgen_ty_5__bindgen_ty_1 ''_bitfield_1'' = Some (0, bitfield_unit 1)"
  by (simp add: sock__bindgen_ty_5__bindgen_ty_1_def layout)

lemma sock_bitfield_1: "field_of sock ''_bitfield_1'' = Some (598, bitfield_unit 1)"
  by (simp add: sock_def layout)

lemma sock_bitfield_2: "field_of sock ''_bitfield_2'' = Some (678, bitfield_unit 1)"
  by (simp add: sock_def layout)

lemma inet6_cork_bitfield_1: "field_of inet6_cork ''_bitfield_1'' = Some (10, bitfield_unit 1)"
  by (simp add: inet6_cork_def layout)

lemma inet_connection_sock__bindgen_ty_2_bitfield_1: "field_of inet_connection_sock__bindgen_ty_2 ''_bitfield_1'' = Some (4, bitfield_unit 4)"
  by (simp add: inet_connection_sock__bindgen_ty_2_def layout)

lemma inet_connection_sock__bindgen_ty_3_bitfield_1: "field_of inet_connection_sock__bindgen_ty_3 ''_bitfield_1'' = Some (8, bitfield_unit 4)"
  by (simp add: inet_connection_sock__bindgen_ty_3_def layout)

lemma inet_connection_sock_bitfield_1: "field_of inet_connection_sock ''_bitfield_1'' = Some (1288, bitfield_unit 1)"
  by (simp add: inet_connection_sock_def layout)

lemma tcp_options_received_bitfield_1: "field_of tcp_options_received ''_bitfield_1'' = Some (16, bitfield_unit 3)"
  by (simp add: tcp_options_received_def layout)

lemma tcp_rack_bitfield_1: "field_of tcp_rack ''_bitfield_1'' = Some (21, bitfield_unit 1)"
  by (simp add: tcp_rack_def layout)

lemma tcp_sock_bitfield_1: "field_of tcp_sock ''_bitfield_1'' = Some (1511, bitfield_unit 1)"
  by (simp add: tcp_sock_def layout)

lemma tcp_sock_bitfield_2: "field_of tcp_sock ''_bitfield_2'' = Some (1576, bitfield_unit 24)"
  by (simp add: tcp_sock_def layout)

lemma tcp_sock_bitfield_3: "field_of tcp_sock ''_bitfield_3'' = Some (1705, bitfield_unit 3)"
  by (simp add: tcp_sock_def layout)

lemma tcp_sock_bitfield_4: "field_of tcp_sock ''_bitfield_4'' = Some (1977, bitfield_unit 2)"
  by (simp add: tcp_sock_def layout)

lemma tcp_sock_bitfield_5: "field_of tcp_sock ''_bitfield_5'' = Some (1980, bitfield_unit 1)"
  by (simp add: tcp_sock_def layout)

lemma tcp_sock_bitfield_6: "field_of tcp_sock ''_bitfield_6'' = Some (1982, bitfield_unit 1)"
  by (simp add: tcp_sock_def layout)

lemma tcp_sock_bitfield_7: "field_of tcp_sock ''_bitfield_7'' = Some (2297, bitfield_unit 1)"
  by (simp add: tcp_sock_def layout)

lemmas units_at =
    sock_common_bitfield_1 sock__bindgen_ty_5__bindgen_ty_1_bitfield_1 sock_bitfield_1 sock_bitfield_2
    inet6_cork_bitfield_1 inet_connection_sock__bindgen_ty_2_bitfield_1
    inet_connection_sock__bindgen_ty_3_bitfield_1 inet_connection_sock_bitfield_1
    tcp_options_received_bitfield_1 tcp_rack_bitfield_1 tcp_sock_bitfield_1 tcp_sock_bitfield_2
    tcp_sock_bitfield_3 tcp_sock_bitfield_4 tcp_sock_bitfield_5 tcp_sock_bitfield_6 tcp_sock_bitfield_7

lemma units_placedI:
  assumes "T = Struct fs" and "list_all (\<lambda>(u, n, ds). \<exists>k. field_of T u = Some (k, bitfield_unit n)) us"
  shows "units_placed T us"
  using assms by (auto simp: units_placed_def list_all_iff)

lemma all_units_placed: "list_all (\<lambda>(T, us). units_placed T us) socket_structs"
proof -
  have a: "units_placed sock_common sock_common_units"
    by (rule units_placedI[OF sock_common_def]) (simp add: sock_common_units_def units_at del: field_of.simps)
  have b: "units_placed sock__bindgen_ty_5__bindgen_ty_1 sock__bindgen_ty_5__bindgen_ty_1_units"
    by (rule units_placedI[OF sock__bindgen_ty_5__bindgen_ty_1_def]) (simp add: sock__bindgen_ty_5__bindgen_ty_1_units_def units_at del: field_of.simps)
  have c: "units_placed sock sock_units"
    by (rule units_placedI[OF sock_def]) (simp add: sock_units_def units_at del: field_of.simps)
  have d: "units_placed inet6_cork inet6_cork_units"
    by (rule units_placedI[OF inet6_cork_def]) (simp add: inet6_cork_units_def units_at del: field_of.simps)
  have e: "units_placed inet_connection_sock__bindgen_ty_2 inet_connection_sock__bindgen_ty_2_units"
    by (rule units_placedI[OF inet_connection_sock__bindgen_ty_2_def]) (simp add: inet_connection_sock__bindgen_ty_2_units_def units_at del: field_of.simps)
  have f: "units_placed inet_connection_sock__bindgen_ty_3 inet_connection_sock__bindgen_ty_3_units"
    by (rule units_placedI[OF inet_connection_sock__bindgen_ty_3_def]) (simp add: inet_connection_sock__bindgen_ty_3_units_def units_at del: field_of.simps)
  have g: "units_placed inet_connection_sock inet_connection_sock_units"
    by (rule units_placedI[OF inet_connection_sock_def]) (simp add: inet_connection_sock_units_def units_at del: field_of.simps)
  have h: "units_placed tcp_options_received tcp_options_received_units"
    by (rule units_placedI[OF tcp_options_received_def]) (simp add: tcp_options_received_units_def units_at del: field_of.simps)
  have i: "units_placed tcp_rack tcp_rack_units"
    by (rule units_placedI[OF tcp_rack_def]) (simp add: tcp_rack_units_def units_at del: field_of.simps)
  have j: "units_placed tcp_sock tcp_sock_units"
    by (rule units_placedI[OF tcp_sock_def]) (simp add: tcp_sock_units_def units_at del: field_of.simps)
  show ?thesis
    using a b c d e f g h i j by (simp add: socket_structs_def)
qed

text \<open>Every bitfield of a structure is well placed, and different bitfields are separate.\<close>

lemma socket_struct:
  assumes "(T, us) \<in> set socket_structs"
  shows "units_fit us" and "units_placed T us"
  using assms all_units_fit all_units_placed by (auto simp: list_all_iff)

lemma unit_fields_apart:
  "pairwise_apart ds \<Longrightarrow> d \<in> set ds \<Longrightarrow> d' \<in> set ds \<Longrightarrow> d \<noteq> d' \<Longrightarrow> apart d d'"
  by (induction ds) (auto simp: list_all_iff apart_sym)

lemma socket_field_placed:
  assumes "(T, us) \<in> set socket_structs" and "d \<in> fields_of us"
  shows "well_placed T d"
proof -
  obtain u n ds where u: "(u, n, ds) \<in> set us" "d \<in> set ds" using assms(2) by (auto simp: fields_of_def)
  then have "fits d" "bf_bytes d = n" "bf_unit d = u"
    using socket_struct(1)[OF assms(1)] by (auto simp: units_fit_def unit_table_def list_all_iff)
  moreover obtain fs k where "T = Struct fs" "field_of T u = Some (k, bitfield_unit n)"
    using u(1) socket_struct(2)[OF assms(1)] by (auto simp: units_placed_def list_all_iff)
  ultimately show ?thesis by (simp add: well_placed_def del: field_of.simps)
qed

lemma socket_fields_separate:
  assumes "(T, us) \<in> set socket_structs" and "d \<in> fields_of us" and "d' \<in> fields_of us" and "d \<noteq> d'"
  shows "separate d d'"
proof -
  obtain u n ds u' n' ds' where u: "(u, n, ds) \<in> set us" "d \<in> set ds" "(u', n', ds') \<in> set us" "d' \<in> set ds'"
    using assms(2,3) by (auto simp: fields_of_def)
  note fit = socket_struct(1)[OF assms(1), unfolded units_fit_def list_all_iff]
  have b: "bf_unit d = u" "bf_unit d' = u'" and ap: "pairwise_apart ds"
    using u fit by (auto simp: unit_table_def)
  show ?thesis
  proof (cases "u = u'")
    case True
    then have "(n, ds) = (n', ds')"
      using u(1,3) fit eq_key_imp_eq_value[of us u "(n, ds)" "(n', ds')"] by simp
    then show ?thesis using unit_fields_apart[OF ap] u assms(4) by (simp add: separate_def)
  qed (simp add: separate_def b)
qed

section \<open>Properties\<close>

text \<open>
  C13. The bitfields of the kernel's socket structures are independent variables: for each of the ten
  structures and each of its bitfields, storing a value through the accessor does not panic, reading
  it back gives the value truncated to the width of the field, and every other bitfield of the
  structure reads as before.
\<close>

theorem socket_bitfields_independent:
  assumes "(T, us) \<in> set socket_structs" and "d \<in> fields_of us" and "length self = size_of T"
  shows "\<exists>self'. field_set p en T d val self = Inr self' \<and> length self' = size_of T \<and>
    field_get p en T d self' = Inr (take_bit (bf_width d) val) \<and>
    (\<forall>d' \<in> fields_of us. d' \<noteq> d \<longrightarrow> field_get p en T d' self' = field_get p en T d' self)"
proof -
  obtain self' where s: "field_set p en T d val self = Inr self'" "length self' = size_of T"
    "field_get p en T d self' = Inr (take_bit (bf_width d) val)"
    and other: "\<And>d'. well_placed T d' \<Longrightarrow> separate d d' \<Longrightarrow> field_get p en T d' self' = field_get p en T d' self"
    by (rule field_set_get[OF socket_field_placed[OF assms(1,2)] assms(3)]) blast
  have "field_get p en T d' self' = field_get p en T d' self" if "d' \<in> fields_of us" "d' \<noteq> d" for d'
    using other socket_field_placed[OF assms(1) that(1)] socket_fields_separate[OF assms(1,2) that(1)] that(2)
    by blast
  with s show ?thesis by blast
qed

lemma sample_field:
  "(sock_common, sock_common_units) \<in> set socket_structs" "sock_common_skc_reuse \<in> fields_of sock_common_units"
  by (simp_all add: socket_structs_def fields_of_def sock_common_units_def sock_common_new_bitfield_1_def)

theorem socket_bitfields_independent_witness:
  "\<exists>self'. field_set Dev LittleEndian sock_common sock_common_skc_reuse 0x15 (replicate 136 0xff) = Inr self' \<and>
     field_get Dev LittleEndian sock_common sock_common_skc_reuse self' = Inr 5"
  using socket_bitfields_independent[OF sample_field, of "replicate 136 0xff" Dev LittleEndian "0x15"]
  by (auto simp: layout sock_common_skc_reuse_def bits_of_def)

text \<open>
  C30. The raw accessors of these bitfields, on a pointer to a structure in memory, return what the safe
  accessors return on its bytes, store the same bytes, and touch no memory outside the structure.
\<close>

theorem socket_raw_accessors_agree:
  assumes "(T, us) \<in> set socket_structs" and "d \<in> fields_of us" and "length self = size_of T"
    and "holds m this self"
  shows "field_get_raw p en T d this m = field_get p en T d self \<and>
    (\<exists>self' m'. field_set p en T d val self = Inr self' \<and> field_set_raw p en T d val this m = Inr m' \<and>
      holds m' this self' \<and> (\<forall>a. a < this \<or> this + size_of T \<le> a \<longrightarrow> m' a = m a))"
  using field_raw_agrees[OF socket_field_placed[OF assms(1,2)] assms(3,4)] by blast

theorem socket_raw_accessors_agree_witness:
  "field_get_raw Dev BigEndian sock_common sock_common_skc_reuse 4096 (\<lambda>a. 7) =
   field_get Dev BigEndian sock_common sock_common_skc_reuse (replicate 136 7)"
  by (rule socket_raw_accessors_agree[OF sample_field, THEN conjunct1]) (simp_all add: layout holds_def)

text \<open>
  C31. The constructors of the storage units: \<open>new_bitfield_k\<close> does not panic, and each field of the unit
  it returns holds the corresponding argument, truncated to the width of the field.
\<close>

theorem new_bitfield_stores_arguments:
  assumes "(T, us) \<in> set socket_structs" and "(u, n, ds) \<in> set us" and "length vals = length ds"
  shows "\<exists>st. new_bitfield p en n (zip ds vals) = Inr st \<and> length st = n \<and>
    (\<forall>(d, v) \<in> set (zip ds vals). unit_get p en st (bf_offset d) (bf_width d) = Inr (take_bit (bf_width d) v))"
proof (rule new_bitfield_get)
  show "unit_table n (map fst (zip ds vals))"
    using socket_struct(1)[OF assms(1)] assms(2,3) by (auto simp: units_fit_def list_all_iff)
qed

theorem new_bitfield_stores_arguments_witness:
  "\<exists>st. new_bitfield Dev LittleEndian 1 (zip sock_common_new_bitfield_1 [3, 1, 0, 1, 0]) = Inr st \<and>
     unit_get Dev LittleEndian st 0 4 = Inr 3"
  using new_bitfield_stores_arguments[OF sample_field(1), of "''_bitfield_1''" 1 sock_common_new_bitfield_1
      "[3, 1, 0, 1, 0]" Dev LittleEndian]
  by (auto simp: sock_common_units_def sock_common_new_bitfield_1_def sock_common_skc_reuse_def bits_of_def)

end
