(* ===== verification/Build_Scripts.thy ===== *)
theory Build_Scripts
  imports Utf8
begin

text \<open>
  The two build scripts. The one of \<open>rustguard\<close> (\<open>rustguard/build.rs\<close>) finds the package of the kernel side
  in the workspace and has aya-build compile it; the one of \<open>rustguard-ebpf\<close> tells cargo to rebuild when
  the linker changes. Cargo's metadata, the parent of a path, the search of the path for a program and
  aya-build are parameters.
\<close>

section \<open>rustguard/build.rs\<close>

record Package =
  pk_name :: string
  pk_manifest_path :: string

record aya_package =
  ap_name :: string
  ap_root_dir :: string

datatype build_error = MetadataFailed | PackageNotFound | NoParent string | BuildFailed string

definition build_main ::
  "('e + Package list) \<Rightarrow> (string \<Rightarrow> string option) \<Rightarrow> (aya_package list \<Rightarrow> build_error + unit) \<Rightarrow>
     build_error + unit" where
  "build_main metadata parent build_ebpf =
     res_bind (map_err (\<lambda>_. MetadataFailed) metadata) (\<lambda>packages.
       case find (\<lambda>pk. pk_name pk = ''rustguard-ebpf'') packages of
         None \<Rightarrow> Inl PackageNotFound
       | Some pk \<Rightarrow>
           (case parent (pk_manifest_path pk) of
              None \<Rightarrow> Inl (NoParent (pk_manifest_path pk))
            | Some dir \<Rightarrow> build_ebpf [\<lparr>ap_name = pk_name pk, ap_root_dir = dir\<rparr>]))"

section \<open>rustguard-ebpf/build.rs\<close>

text \<open>The lines printed for cargo; \<open>which\<close> gives the bytes of a path, \<open>to_str\<close> needs them to be UTF-8.\<close>

definition ebpf_build_main :: "(string \<Rightarrow> bytes option) \<Rightarrow> panic + string list" where
  "ebpf_build_main which =
     (case which ''bpf-linker'' of
        None \<Rightarrow> Inl UnwrapFailed
      | Some path \<Rightarrow>
          if utf8_valid path then Inr [''cargo:rerun-if-changed='' @ map (\<lambda>b. char_of (unat b)) path]
          else Inl UnwrapFailed)"

section \<open>What they build\<close>

text \<open>
  The build succeeds exactly when aya-build compiles one package, the first of that name in the
  workspace, in the directory of its manifest.
\<close>

lemma build_main_ok_iff:
  "build_main metadata parent build_ebpf = Inr () \<longleftrightarrow>
     (\<exists>before pk after dir.
        metadata = Inr (before @ pk # after) \<and> pk_name pk = ''rustguard-ebpf'' \<and>
        (\<forall>q \<in> set before. pk_name q \<noteq> ''rustguard-ebpf'') \<and>
        parent (pk_manifest_path pk) = Some dir \<and>
        build_ebpf [\<lparr>ap_name = ''rustguard-ebpf'', ap_root_dir = dir\<rparr>] = Inr ())"
    (is "_ \<longleftrightarrow> ?ok")
proof
  assume "build_main metadata parent build_ebpf = Inr ()"
  then obtain packages pk dir where p: "metadata = Inr packages"
    and f: "find (\<lambda>pk. pk_name pk = ''rustguard-ebpf'') packages = Some pk"
    and d: "parent (pk_manifest_path pk) = Some dir" "build_ebpf [\<lparr>ap_name = pk_name pk, ap_root_dir = dir\<rparr>] = Inr ()"
    by (auto simp: build_main_def res_bind_eq_Inr split: option.splits)
  obtain i where i: "i < length packages" "pk = packages ! i" "pk_name pk = ''rustguard-ebpf''"
    "\<forall>j<i. pk_name (packages ! j) \<noteq> ''rustguard-ebpf''"
    using f by (auto simp: find_Some_iff)
  have "packages = take i packages @ pk # drop (Suc i) packages" using i by (simp add: id_take_nth_drop)
  moreover have "\<forall>q \<in> set (take i packages). pk_name q \<noteq> ''rustguard-ebpf''"
    using i(1,4) by (auto simp: in_set_conv_nth)
  ultimately show ?ok using p d i(3) by (metis (full_types))
next
  assume ?ok
  then obtain before pk after dir where ok: "metadata = Inr (before @ pk # after)" "pk_name pk = ''rustguard-ebpf''"
    "\<forall>q \<in> set before. pk_name q \<noteq> ''rustguard-ebpf''" "parent (pk_manifest_path pk) = Some dir"
    "build_ebpf [\<lparr>ap_name = ''rustguard-ebpf'', ap_root_dir = dir\<rparr>] = Inr ()"
    by blast
  have "find (\<lambda>pk. pk_name pk = ''rustguard-ebpf'') (before @ pk # after) = Some pk"
    using ok(2,3) by (induction before) simp_all
  then show "build_main metadata parent build_ebpf = Inr ()" using ok by (simp add: build_main_def)
qed

end
