(* ===== verification/Unit_Tests.thy ===== *)
theory Unit_Tests
  imports Cli
begin

text \<open>
  The unit tests of \<open>rustguard/src/main.rs\<close> as predicates: a test passes when no assertion fails and nothing
  panics. The client and the fake daemon run as two tasks; they exchange one request and one response, so the
  client reads what the fake daemon wrote after reading what the client wrote.
\<close>

definition test_socket_path :: "string \<Rightarrow> string" where
  "test_socket_path name = ''/tmp/rustguard_test_'' @ name @ ''.sock''"

text \<open>
  The sockets that tests have bound, by path: each \<open>spawn_fake_daemon\<close> binds its own. A connection to a path
  that nobody has bound fails.
\<close>

type_synonym listeners = "string \<rightharpoonup> DaemonResponse"

definition spawn_fake_daemon :: "string \<Rightarrow> DaemonResponse \<Rightarrow> listeners \<Rightarrow> listeners" where
  "spawn_fake_daemon path response ls = ls(path \<mapsto> response)"

text \<open>What the client reads back: the reply of the fake daemon, after which its task has ended.\<close>

definition reply_of :: "unit outcome \<Rightarrow> stream" where
  "reply_of out =
     (case out of
        Stalled \<Rightarrow> \<lparr>st_in = [], st_eof = False\<rparr>
      | Crashed pn u \<Rightarrow> \<lparr>st_in = [], st_eof = True\<rparr>
      | Served u bs \<Rightarrow> \<lparr>st_in = bs, st_eof = True\<rparr>)"

definition send_command_to :: "wire \<Rightarrow> listeners \<Rightarrow> string \<Rightarrow> Commands \<Rightarrow> client_outcome" where
  "send_command_to w ls path cmd =
     (case ls path of
        None \<Rightarrow> snd (send_command w \<lparr>ci_connected = False, ci_writes = 0, ci_reply = \<lparr>st_in = [], st_eof = True\<rparr>\<rparr> cmd)
      | Some response \<Rightarrow>
          let sent = fst (send_command w \<lparr>ci_connected = True, ci_writes = 3, ci_reply = \<lparr>st_in = [], st_eof = False\<rparr>\<rparr> cmd);
              out = fake_daemon w response \<lparr>c_stream = \<lparr>st_in = sent, st_eof = False\<rparr>, c_writes = 2\<rparr>
          in snd (send_command w \<lparr>ci_connected = True, ci_writes = 3, ci_reply = reply_of out\<rparr> cmd))"

definition is_ok :: "client_outcome \<Rightarrow> bool" where
  "is_ok r = (case r of Prints _ \<Rightarrow> True | _ \<Rightarrow> False)"

definition is_err :: "client_outcome \<Rightarrow> bool" where
  "is_err r = (case r of Fails _ \<Rightarrow> True | _ \<Rightarrow> False)"

section \<open>The tests\<close>

definition test_daemon_request_serialization :: "wire \<Rightarrow> bool" where
  "test_daemon_request_serialization w =
     (case req_to_vec w (ReqBan ''1.2.3.4'' (Some 10)) of
        Inl e \<Rightarrow> False
      | Inr bytes \<Rightarrow>
          (case req_from_slice w bytes of
             Inr (ReqBan target ttl) \<Rightarrow> target = ''1.2.3.4'' \<and> ttl = Some 10
           | _ \<Rightarrow> False))"

definition test_boot_time_monotonic_behavior :: "i64 option \<Rightarrow> i64 option \<Rightarrow> bool" where
  "test_boot_time_monotonic_behavior utc_a utc_b =
     (let a = get_boot_time_ns utc_a; b = get_boot_time_ns utc_b in b \<ge> a)"

definition test_send_command_ok :: "wire \<Rightarrow> listeners \<Rightarrow> bool" where
  "test_send_command_ok w ls =
     (let soket = test_socket_path ''send_command_ok'';
          ls = spawn_fake_daemon soket RespOk ls
      in is_ok (send_command_to w ls soket (CmdBan ''1.2.3.4'' (Some 5))))"

definition test_send_command_list :: "wire \<Rightarrow> listeners \<Rightarrow> bool" where
  "test_send_command_list w ls =
     (let soket = test_socket_path ''send_command_list'';
          ls = spawn_fake_daemon soket (RespList [''1.2.3.4'']) ls
      in is_ok (send_command_to w ls soket CmdList))"

definition test_send_command_stats :: "wire \<Rightarrow> listeners \<Rightarrow> bool" where
  "test_send_command_stats w ls =
     (let soket = test_socket_path ''send_command_state'';
          ls = spawn_fake_daemon soket (RespStats ''ok'') ls
      in is_ok (send_command_to w ls soket CmdStats))"

definition test_send_command_error_variant :: "wire \<Rightarrow> listeners \<Rightarrow> bool" where
  "test_send_command_error_variant w ls =
     (let soket = test_socket_path ''send_command_error_variant'';
          ls = spawn_fake_daemon soket (RespError ''fail'') ls
      in is_ok (send_command_to w ls soket (CmdUnban ''1.2.3.4'')))"

definition test_send_command_connection_fail :: "wire \<Rightarrow> listeners \<Rightarrow> bool" where
  "test_send_command_connection_fail w ls =
     (let soket = test_socket_path ''send_command_connect_fail''
      in is_err (send_command_to w ls soket CmdList))"

section \<open>They pass\<close>

text \<open>The messages the tests exchange are shorter than a frame can be.\<close>

definition short_tests :: "wire \<Rightarrow> bool" where
  "short_tests w \<longleftrightarrow>
     (\<forall>r \<in> {ReqBan ''1.2.3.4'' (Some 5), ReqList, ReqStats, ReqUnban ''1.2.3.4''}. \<forall>bs. req_to_vec w r = Inr bs \<longrightarrow> length bs < 2 ^ 32) \<and>
     (\<forall>r \<in> {RespOk, RespList [''1.2.3.4''], RespStats ''ok'', RespError ''fail''}. \<forall>bs. resp_to_vec w r = Inr bs \<longrightarrow> length bs < 2 ^ 32)"

context wire_format
begin

lemma send_command_to_answer:
  assumes "ls path = Some resp" and "request_of cmd = Some req"
    and "\<And>bs. req_to_vec w req = Inr bs \<Longrightarrow> length bs < 2 ^ 32" and "\<And>bs. resp_to_vec w resp = Inr bs \<Longrightarrow> length bs < 2 ^ 32"
  shows "send_command_to w ls path cmd = Prints (print_response resp)"
proof -
  obtain rb pb where b: "req_to_vec w req = Inr rb" "resp_to_vec w resp = Inr pb" using req_total resp_total by metis
  have "fake_daemon w resp \<lparr>c_stream = \<lparr>st_in = frame w rb, st_eof = False\<rparr>, c_writes = 2\<rparr> = Served () (frame w pb)"
    using fake_daemon_answers b assms(3) by blast
  moreover have "read_response w \<lparr>st_in = frame w pb, st_eof = True\<rparr> = Prints (print_response resp)"
    using client_prints b(2) assms(4) by blast
  ultimately show ?thesis
    using client_sends[OF assms(2) b(1)] b(1) assms(1,2) by (simp add: send_command_to_def send_command_def reply_of_def)
qed

end

section \<open>Properties\<close>

text \<open>
  The unit tests pass: for every encoding that keeps its contract, with messages as short as a frame can
  hold, the six tests of the protocol pass, the one of a missing daemon provided that nothing else has bound
  its path. The test that the boot time does not decrease passes exactly when the wall clock does not, read
  as an unsigned number.
\<close>

theorem unit_tests_pass:
  assumes "wire_format w" and "short_tests w" and "ls (test_socket_path ''send_command_connect_fail'') = None"
  shows "test_daemon_request_serialization w \<and> test_send_command_ok w ls \<and> test_send_command_list w ls \<and>
    test_send_command_stats w ls \<and> test_send_command_error_variant w ls \<and> test_send_command_connection_fail w ls \<and>
    (test_boot_time_monotonic_behavior (Some a) (Some b) \<longleftrightarrow> unat a \<le> unat b)"
proof (intro conjI)
  note answer = wire_format.send_command_to_answer[OF assms(1)] and short = assms(2)[unfolded short_tests_def]
  show "test_daemon_request_serialization w"
    using wire_format.req_total[OF assms(1), of "ReqBan ''1.2.3.4'' (Some 10)"] wire_format.req_roundtrip[OF assms(1)]
    by (auto simp: test_daemon_request_serialization_def)
  show "test_send_command_ok w ls"
    using answer[of "ls(test_socket_path ''send_command_ok'' \<mapsto> RespOk)" _ RespOk "CmdBan ''1.2.3.4'' (Some 5)"] short
    by (simp add: test_send_command_ok_def spawn_fake_daemon_def request_of_def is_ok_def)
  show "test_send_command_list w ls"
    using answer[of "ls(test_socket_path ''send_command_list'' \<mapsto> RespList [''1.2.3.4''])" _ "RespList [''1.2.3.4'']" CmdList] short
    by (simp add: test_send_command_list_def spawn_fake_daemon_def request_of_def is_ok_def)
  show "test_send_command_stats w ls"
    using answer[of "ls(test_socket_path ''send_command_state'' \<mapsto> RespStats ''ok'')" _ "RespStats ''ok''" CmdStats] short
    by (simp add: test_send_command_stats_def spawn_fake_daemon_def request_of_def is_ok_def)
  show "test_send_command_error_variant w ls"
    using answer[of "ls(test_socket_path ''send_command_error_variant'' \<mapsto> RespError ''fail'')" _ "RespError ''fail''"
        "CmdUnban ''1.2.3.4''"] short
    by (simp add: test_send_command_error_variant_def spawn_fake_daemon_def request_of_def is_ok_def)
  show "test_send_command_connection_fail w ls"
    using assms(3) by (simp add: test_send_command_connection_fail_def send_command_to_def send_command_def is_err_def)
  show "test_boot_time_monotonic_behavior (Some a) (Some b) \<longleftrightarrow> unat a \<le> unat b"
    by (simp add: test_boot_time_monotonic_behavior_def get_boot_time_ns_def word_le_nat_alt)
qed

theorem unit_tests_pass_witness:
  "test_send_command_list json_wire Map.empty \<and> \<not> test_boot_time_monotonic_behavior (Some 7) (Some 5)"
proof -
  have s: "short_tests json_wire"
    by (simp add: short_tests_def json_wire_def json_lengths dec_string_small digit_char_def)
  show ?thesis using unit_tests_pass[OF json.wire_format_axioms s, of Map.empty 7 5] by simp
qed

end
