(* ===== verification/Spec2Isabelle.thy ===== *)
theory Spec2Isabelle
  imports Ban_History Xdp_Counter Startup Monitor_System Vmlinux_Bitfields Build_Scripts Unit_Tests
begin

text \<open>
  Rustguard blocks banned IPv4 addresses with an XDP program and shows TCP connections as they are made.
  This development models the program and proves its behaviour; the sources are under \<open>src/\<close>.

  \<^bold>\<open>The parts and how they interact.\<close> The kernel side (\<open>rustguard-ebpf\<close>) has an XDP program that decides on
  every packet from the map \<open>BANNED_IPS\<close> and counts drops in the map \<open>STATS\<close>, and two tracing programs that
  write a \<open>NetEvent\<close> to the ring buffer \<open>EVENTS\<close> when a connection is made or accepted. The user side
  (\<open>rustguard\<close>) is one binary: a daemon that attaches the XDP program and changes the table of bans on
  requests it receives over a Unix socket, a client that sends those requests, and a monitor that attaches
  the tracing programs and prints the events. \<open>rustguard-common\<close> holds the types both sides share.

  \<^bold>\<open>Theories.\<close>
  \<^item> \<open>Prelude\<close>: words, panics and build profiles, byte orders, decimal printing and padding.
  \<^item> \<open>Repr_C\<close>: size, alignment and field offsets of \<open>repr(C)\<close> types; fields lie inside their structure
    and do not overlap.
  \<^item> \<open>Net_Event\<close>: \<open>rustguard-common/src/event.rs\<close> and \<open>lib.rs\<close>; the enums with discriminants and texts, the
    event and its memory image, encodings as locales.
  \<^item> \<open>Std_Net\<close>, \<open>Utf8\<close>: parsing and printing of addresses and \<open>String::from_utf8_lossy\<close> of the standard library.
  \<^item> \<open>Bpf_Map\<close>: the interface of a BPF hash map (locale \<open>bpf_hash_map\<close>), with the bounded association list
    as its instance.
  \<^item> \<open>Xdp_Filter\<close>: \<open>rustguard-ebpf/src/main.rs\<close>; \<open>ptr_at\<close>, \<open>try_rustguard\<close> (its header walk is
    \<open>packet_source\<close>), \<open>rustguard\<close>, and \<open>filter_spec\<close>, the decision on the bytes of a frame, which the program
    refines. \<open>Xdp_Counter\<close>: the update of the drop counter by several processors at once, load and store as separate
    steps.
  \<^item> \<open>Daemon_Protocol\<close>, \<open>Json_Wire\<close>: the messages and their frames, with the encoding behind the locale
    \<open>wire_format\<close>; its instance is JSON as serde writes and reads the two enums, and parsing undoes printing.
  \<^item> \<open>Daemon\<close>: one request (\<open>handle_ban\<close>, \<open>handle_unban\<close>, \<open>handle_list\<close>,
    \<open>handle_stats\<close>), one connection (\<open>serve_conn\<close>) and the accept loop of \<open>run_daemon\<close> in \<open>rustguard/src/main.rs\<close>.
  \<^item> \<open>Cli\<close>: \<open>send_command\<close>, \<open>main\<close>, and the fake daemon of the tests. \<open>Startup\<close>: the order and the error handling of
    the calls that set up the daemon and the monitor, the file of the socket, and the task that flushes the
    kernel's log. \<open>Build_Scripts\<close>: the two \<open>build.rs\<close>. \<open>Unit_Tests\<close>: the tests of \<open>main.rs\<close> as predicates.
  \<^item> \<open>Firewall_System\<close>: the XDP program and the daemon over shared maps, as a step relation of packets,
    requests and clock ticks; invariants and persistence of bans over all its runs.
  \<^item> \<open>Firewall_Refinement\<close>: the specification of the firewall as transitions of a map of bans (\<open>fw_step\<close>), the node
    that serves raw bytes from clients while packets arrive (\<open>node_step\<close>), and the refinement of the first by the
    second. \<open>Daemon_Steps\<close>: the accept loop await by await, with packets and client bytes in between; it
    refines the specification too, agrees with \<open>serve_conn\<close> on every connection, and makes progress.
    \<open>Ban_History\<close>: the log of handled requests, which alone decides the table of bans and the verdicts; every
    entry of the table stems from it.
  \<^item> \<open>Kernel_Helpers\<close>, \<open>Socket_Probe\<close>, \<open>Fexit_Probes\<close>: \<open>kernel.rs\<close>, \<open>socket.rs\<close>, \<open>fexit_tcp4_egress.rs\<close> and
    \<open>fexit_tcp4_accept.rs\<close>; what the probes read from a kernel socket and write to the ring.
  \<^item> \<open>Bindgen_Bitfield\<close>, \<open>Vmlinux_Accessors\<close>: the bitfield runtime and the accessor template of \<open>vmlinux.rs\<close>.
    \<open>Vmlinux_Types\<close>, \<open>Vmlinux_Bitfields\<close>: the declarations of the socket structures, from \<open>sock_common\<close> up to
    \<open>tcp_sock\<close>, with their layout, and all their bitfields.
  \<^item> \<open>Monitor\<close>: \<open>rustguard/src/monitor.rs\<close>; the polling loop, the printed line and the cache of executables.
    \<open>Monitor_System\<close>: the tracing programs and the monitor around the ring buffer, in any interleaving.

  \<^bold>\<open>State and operations.\<close> The maps are abstract states with a record of operations, passed explicitly; the
  packet is memory between two addresses and an access outside it is the value \<open>Fault\<close>; kernel structures
  are lists of bytes read at the offsets of their layout; errors, panics and early returns are values. The
  byte order of the target and the build profile (overflow checks or wrapping) are parameters.

  \<^bold>\<open>What the theorems show.\<close> The XDP program is memory safe and decides every packet as its specification
  does; the running node, whatever bytes clients send, refines the specification of the firewall; a ban given on
  the command line blocks the address; bans are stored, listed and removed exactly, hold as long as they should in every interleaving;
  the last request that names an address decides its packets; the table stays within its bound; a command reaches the daemon and its answer the terminal; the daemon
  takes requests only when it is set up, and serves well-behaved clients for ever; the probes write events whose every
  field is specified, and the recorded connections are printed once and in order, however they interleave with the monitor; the bitfield accessors are independent variables. Several theorems
  state where the code falls short: the list shows bans that have ended, packets other than TCP and UDP are aborted, statistics are never counted and could lose drops,
  a full table is reported as success, TTLs use two different clocks and can overflow, a stalled client
  blocks all others, and the daemon subcommand panics on its second logger.

  \<^bold>\<open>Parameters.\<close> Code outside the repository is a parameter with its documented behaviour as the assumptions of
  a locale: BPF hash maps (\<open>bpf_hash_map\<close>), the header types of \<open>network-types\<close> (\<open>network_headers\<close>), serde's
  encoding of the messages (\<open>wire_format\<close>), the ring buffer (\<open>ring_buffer\<close>, with its reading end \<open>ring_queue\<close>). Each locale is interpreted. The BPF
  helpers, the clocks, \<open>env_logger\<close> and \<open>/proc\<close> are arguments.

  \<^bold>\<open>Loops and bounds.\<close> Only the JSON parser takes fuel, one more than the length of the text, which is enough for
  every text the printer writes (\<open>need_le\<close>). The accept loop and the polling loop of the monitor run over a finite
  sequence of connections or polls of any length, and all other loops are total functions. Lengths of frames
  are below \<open>2 ^ 32\<close>, as their prefix is 32 bits; packets do not end in the last
  \<open>2 ^ 18\<close> bytes of the address space, so that the sums of \<open>ptr_at\<close> do not wrap for headers below \<open>2 ^ 16\<close> bytes.

  \<^bold>\<open>Not modelled.\<close> What the calls into aya and tokio do beyond success and failure, argument parsing by clap, log
  lines, and the declarations of \<open>vmlinux.rs\<close> outside the socket structures, which the program does not use.
  A write to a socket succeeds, or fails without sending a part, and does not wait for the reader.
  In the runs of the whole system a packet is one step: the daemon does not change a ban between the lookup of the
  XDP program and its reading of the end time. The interleaving of several processors is modelled for the drop
  counter alone, the only memory they share and write.

  The theorem below spans the kernel side and the monitor.
\<close>

text \<open>
  From the kernel to the terminal: when the probe of outgoing connections adds a record to the ring
  and the monitor finds it there, the monitor prints one line, that of the connection the probe observed,
  and goes on polling.
\<close>

theorem connection_reaches_terminal:
  assumes "ring_buffer out records" and "reads_exactly h" and "comm_ok h"
    and "probe_spec en h Connect Egress (ucast (fx_arg ctx 3)) (fx_arg ctx 0) = Some ev"
    and "records (snd (tcp_v4_connect_exit en pad out h ctx r)) = records r @ [bs]"
    and "me_now env = Some (secs, nanos)"
  shows "\<exists>now cache'. now_string (me_now env) = Inr now \<and> drain en [(bs, env)] cache = ([event_line now ev], Polling cache')"
proof -
  have "bs = encode_net_event en pad ev"
    using ring_buffer.written_records[OF assms(1), of en pad r "Some ev"] assms(4,5)
    by (auto simp: connect_exit_written[OF assms(2)])
  moreover have "net_event_wf ev" using probe_spec_wf[OF assms(2-4)] .
  ultimately have d: "decode_net_event en bs = Some ev" "length bs = NetEvent_size"
    by (simp_all add: decode_encode_net_event NetEvent_size_eq)
  obtain now where n: "now_string (me_now env) = Inr now" using now_string_total[of env] assms(6) by auto
  have "list_all (printable en) [(bs, env)]" using d assms(6) by (simp add: printable_def)
  from drain_printable[OF this] have "\<exists>cache'. drain en [(bs, env)] cache = ([event_line now ev], Polling cache')"
    using d n by (simp add: line_of_def del: drain.simps)
  with n show ?thesis by blast
qed

theorem connection_reaches_terminal_witness:
  "\<exists>now cache'. drain LittleEndian [(encode_net_event LittleEndian 0 sample_connect, sample_env)] Map.empty =
     ([event_line now sample_connect], Polling cache')"
proof -
  have c: "comm_ok sample_helpers" by (simp add: comm_ok_def sample_helpers_def TASK_COMM_LEN_def)
  have r: "id (snd (tcp_v4_connect_exit LittleEndian 0 (bounded_output EVENTS_byte_size) sample_helpers
      sample_fexit [])) = id [] @ [encode_net_event LittleEndian 0 sample_connect]"
    by (simp add: connect_exit_written[OF sample_reads_exactly] sample_fexit_observed sample_written)
  have "me_now sample_env = Some (86399, 5000000)" by (simp add: sample_env_def)
  from connection_reaches_terminal[OF bounded.ring_buffer_axioms sample_reads_exactly c sample_fexit_observed r this]
  show ?thesis by blast
qed

end
